(* ===== verification/Prelude.thy ===== *)
theory Prelude
  imports Main "HOL-Library.Word" "HOL-Library.Product_Lexorder"
begin

text \<open>
  Shared vocabulary of the development.

  \<^item> type names for what Rust calls \<open>Uuid\<close>, \<open>DateTime<Utc>\<close> (microseconds since the Unix epoch,
    the resolution of a \<open>TIMESTAMPTZ\<close> column) and \<open>Vec<u8>\<close>;
  \<^item> fallible state transformers \<open>'s \<Rightarrow> ('e + 'a) \<times> 's\<close>: a repository method or a service handler
    returns a result and the state it leaves behind, also when it fails;
  \<^item> \<open>transact\<close>, which drops the state changes of a failed database transaction;
  \<^item> \<open>keeps I m\<close>, "the operation \<open>m\<close> keeps the invariant \<open>I\<close>", with its composition rules;
  \<^item> integer conversions of Rust (\<open>as u64\<close>, \<open>as i64\<close>, \<open>as i32\<close>) on \<^typ>\<open>int\<close>.
\<close>

named_theorems keeps_rules \<open>composition rules for invariants of fallible operations\<close>
named_theorems success \<open>when a fallible operation succeeds, and with which state\<close>
named_theorems op_simps \<open>evaluation of the combinators for fallible operations\<close>

subsection \<open>Names of the types of the model\<close>

type_synonym uuid = "128 word"
type_synonym timestamp = int
type_synonym bytes = "8 word list"

subsection \<open>Fallible operations over a state\<close>

type_synonym ('s, 'e, 'a) op = "'s \<Rightarrow> ('e + 'a) \<times> 's"

definition ret_op :: "'a \<Rightarrow> ('s, 'e, 'a) op" where
  "ret_op a s = (Inr a, s)"

definition fail_op :: "'e \<Rightarrow> ('s, 'e, 'a) op" where
  "fail_op e s = (Inl e, s)"

definition get_op :: "('s \<Rightarrow> 'a) \<Rightarrow> ('s, 'e, 'a) op" where
  "get_op f s = (Inr (f s), s)"

definition query_op :: "('s \<Rightarrow> 'e + 'a) \<Rightarrow> ('s, 'e, 'a) op" where
  "query_op f s = (f s, s)"

definition lift_op :: "'e + 'a \<Rightarrow> ('s, 'e, 'a) op" where
  "lift_op r s = (r, s)"

definition bind_op :: "('s, 'e, 'a) op \<Rightarrow> ('a \<Rightarrow> ('s, 'e, 'b) op) \<Rightarrow> ('s, 'e, 'b) op" where
  "bind_op m f s = (case m s of (Inl e, s') \<Rightarrow> (Inl e, s') | (Inr a, s') \<Rightarrow> f a s')"

text \<open>A database transaction: committed on success, rolled back on every error.\<close>

definition transact :: "('s, 'e, 'a) op \<Rightarrow> ('s, 'e, 'a) op" where
  "transact m s = (case m s of (Inl e, s') \<Rightarrow> (Inl e, s) | (Inr a, s') \<Rightarrow> (Inr a, s'))"

text \<open>Rust's \<open>map_err\<close>, and a call whose error is logged and dropped (\<open>if let Err(e) = \<dots>\<close>).\<close>

definition map_err_op :: "('e \<Rightarrow> 'f) \<Rightarrow> ('s, 'e, 'a) op \<Rightarrow> ('s, 'f, 'a) op" where
  "map_err_op g m s = (case m s of (Inl e, s') \<Rightarrow> (Inl (g e), s') | (Inr a, s') \<Rightarrow> (Inr a, s'))"

definition ignore_op :: "('s, 'e, 'a) op \<Rightarrow> ('s, 'f, unit) op" where
  "ignore_op m s = (Inr (), snd (m s))"

text \<open>A call whose result is inspected, error or not (\<open>match r { Ok(..) => .., Err(..) => .. }\<close>).\<close>

definition match_op :: "('s, 'e, 'a) op \<Rightarrow> ('e + 'a \<Rightarrow> ('s, 'f, 'b) op) \<Rightarrow> ('s, 'f, 'b) op" where
  "match_op m f s = (case m s of (r, s') \<Rightarrow> f r s')"

lemma ret_op_simp [op_simps, simp]: "ret_op a s = (Inr a, s)"
  by (simp add: ret_op_def)

lemma fail_op_simp [op_simps, simp]: "fail_op e s = (Inl e, s)"
  by (simp add: fail_op_def)

lemma get_op_simp [op_simps, simp]: "get_op f s = (Inr (f s), s)"
  by (simp add: get_op_def)

lemma query_op_simp [op_simps, simp]: "query_op f s = (f s, s)"
  by (simp add: query_op_def)

lemma lift_op_simp [op_simps, simp]: "lift_op r s = (r, s)"
  by (simp add: lift_op_def)

lemma bind_op_Inl [op_simps, simp]: "m s = (Inl e, s') \<Longrightarrow> bind_op m f s = (Inl e, s')"
  by (simp add: bind_op_def)

lemma bind_op_Inr [op_simps, simp]: "m s = (Inr a, s') \<Longrightarrow> bind_op m f s = f a s'"
  by (simp add: bind_op_def)

lemma bind_op_InrD:
  assumes "bind_op m f s = (Inr b, s')"
  obtains a s1 where "m s = (Inr a, s1)" and "f a s1 = (Inr b, s')"
  using assms by (auto simp: bind_op_def split: prod.splits sum.splits)

lemma transact_Inr [op_simps, simp]: "m s = (Inr a, s') \<Longrightarrow> transact m s = (Inr a, s')"
  by (simp add: transact_def)

lemma transact_Inl [op_simps, simp]: "m s = (Inl e, s') \<Longrightarrow> transact m s = (Inl e, s)"
  by (simp add: transact_def)

lemma transact_InrD: "transact m s = (Inr a, s') \<Longrightarrow> m s = (Inr a, s')"
  by (auto simp: transact_def split: prod.splits sum.splits)

lemma transact_rollback: "transact m s = (Inl e, s') \<Longrightarrow> s' = s"
  by (auto simp: transact_def split: prod.splits sum.splits)

text \<open>Inversion of a chain of early exits: the whole succeeds exactly if every call on the way does.\<close>

lemma ret_op_success [success]: "ret_op a s = (Inr b, s') \<longleftrightarrow> b = a \<and> s' = s"
  by auto

lemma fail_op_success [success]: "fail_op e s \<noteq> (Inr b, s')"
  by simp

lemma get_op_success [success]: "get_op f s = (Inr b, s') \<longleftrightarrow> b = f s \<and> s' = s"
  by auto

lemma query_op_success [success]: "query_op f s = (Inr b, s') \<longleftrightarrow> f s = Inr b \<and> s' = s"
  by auto

lemma lift_op_success [success]: "lift_op r s = (Inr b, s') \<longleftrightarrow> r = Inr b \<and> s' = s"
  by auto

lemma bind_op_success [success]:
  "bind_op m f s = (Inr b, s') \<longleftrightarrow> (\<exists>a s1. m s = (Inr a, s1) \<and> f a s1 = (Inr b, s'))"
  by (auto simp: bind_op_def split: prod.splits sum.splits)

lemma transact_success [success]: "transact m s = (Inr b, s') \<longleftrightarrow> m s = (Inr b, s')"
  by (auto simp: transact_def split: prod.splits sum.splits)

lemma map_err_success [success]: "map_err_op g m s = (Inr b, s') \<longleftrightarrow> m s = (Inr b, s')"
  by (auto simp: map_err_op_def split: prod.splits sum.splits)

lemma ignore_op_success [success]: "ignore_op m s = (Inr b, s') \<longleftrightarrow> s' = snd (m s)"
  by (auto simp: ignore_op_def)

subsection \<open>Invariants of operations\<close>

definition keeps :: "('s \<Rightarrow> bool) \<Rightarrow> ('s, 'e, 'a) op \<Rightarrow> bool" where
  "keeps I m \<longleftrightarrow> (\<forall>s. I s \<longrightarrow> I (snd (m s)))"

lemma keepsI: "(\<And>s. I s \<Longrightarrow> I (snd (m s))) \<Longrightarrow> keeps I m"
  by (simp add: keeps_def)

lemma keepsD: "keeps I m \<Longrightarrow> I s \<Longrightarrow> I (snd (m s))"
  by (simp add: keeps_def)

lemma keeps_run: "keeps I m \<Longrightarrow> I s \<Longrightarrow> m s = (r, s') \<Longrightarrow> I s'"
  by (metis keepsD snd_conv)

lemma keeps_ret [keeps_rules]: "keeps I (ret_op a)"
  by (simp add: keeps_def)

lemma keeps_fail [keeps_rules]: "keeps I (fail_op e)"
  by (simp add: keeps_def)

lemma keeps_get [keeps_rules]: "keeps I (get_op f)"
  by (simp add: keeps_def)

lemma keeps_query [keeps_rules]: "keeps I (query_op f)"
  by (simp add: keeps_def)

lemma keeps_lift [keeps_rules]: "keeps I (lift_op r)"
  by (simp add: keeps_def)

lemma keeps_bind [keeps_rules]:
  "keeps I m \<Longrightarrow> (\<And>a. keeps I (f a)) \<Longrightarrow> keeps I (bind_op m f)"
  by (auto simp: keeps_def bind_op_def split: prod.splits sum.splits)

lemma keeps_transact [keeps_rules]: "keeps I m \<Longrightarrow> keeps I (transact m)"
  by (auto simp: keeps_def transact_def split: prod.splits sum.splits)

lemma keeps_map_err [keeps_rules]: "keeps I m \<Longrightarrow> keeps I (map_err_op g m)"
  by (auto simp: keeps_def map_err_op_def split: prod.splits sum.splits)

lemma keeps_ignore [keeps_rules]: "keeps I m \<Longrightarrow> keeps I (ignore_op m)"
  by (auto simp: keeps_def ignore_op_def)

lemma keeps_match [keeps_rules]:
  "keeps I m \<Longrightarrow> (\<And>r. keeps I (f r)) \<Longrightarrow> keeps I (match_op m f)"
  by (auto simp: keeps_def match_op_def split: prod.splits)

lemma keeps_case_sum [keeps_rules]:
  "(\<And>e. keeps I (f e)) \<Longrightarrow> (\<And>a. keeps I (g a)) \<Longrightarrow> keeps I (case r of Inl e \<Rightarrow> f e | Inr a \<Rightarrow> g a)"
  by (cases r) auto

lemma keeps_if [keeps_rules]:
  "keeps I m \<Longrightarrow> keeps I m' \<Longrightarrow> keeps I (if b then m else m')"
  by simp

lemma keeps_case_option [keeps_rules]:
  "keeps I m \<Longrightarrow> (\<And>a. keeps I (f a)) \<Longrightarrow> keeps I (case x of None \<Rightarrow> m | Some a \<Rightarrow> f a)"
  by (cases x) auto

subsection \<open>Integer conversions\<close>

text \<open>
  Rust's \<open>as\<close> keeps the low bits. Signed values are \<^typ>\<open>int\<close>, \<open>u64\<close> values are \<^typ>\<open>int\<close> in
  \<open>[0, 2^64)\<close>.
\<close>

definition as_u64 :: "int \<Rightarrow> int" where
  "as_u64 x = x mod 2 ^ 64"

definition as_i64 :: "int \<Rightarrow> int" where
  "as_i64 x = (x + 2 ^ 63) mod 2 ^ 64 - 2 ^ 63"

definition as_i32 :: "int \<Rightarrow> int" where
  "as_i32 x = (x + 2 ^ 31) mod 2 ^ 32 - 2 ^ 31"

lemma as_u64_id: "0 \<le> x \<Longrightarrow> x < 2 ^ 64 \<Longrightarrow> as_u64 x = x"
  by (simp add: as_u64_def)

lemma as_i64_id: "- (2 ^ 63) \<le> x \<Longrightarrow> x < 2 ^ 63 \<Longrightarrow> as_i64 x = x"
  by (simp add: as_i64_def)

lemma as_i32_id: "- (2 ^ 31) \<le> x \<Longrightarrow> x < 2 ^ 31 \<Longrightarrow> as_i32 x = x"
  by (simp add: as_i32_def)

lemma as_i32_bounds: "- (2 ^ 31) \<le> as_i32 x \<and> as_i32 x < 2 ^ 31"
  unfolding as_i32_def using pos_mod_bound [of "2 ^ 32" "x + 2 ^ 31"] pos_mod_sign [of "2 ^ 32" "x + 2 ^ 31"]
  by simp

subsection \<open>Lists\<close>

text \<open>Rust's \<open>collect::<Result<Vec<_>, _>>()\<close>: the first error, or all the values.\<close>

fun collect_results :: "('e + 'a) list \<Rightarrow> 'e + 'a list" where
  "collect_results [] = Inr []"
| "collect_results (Inl e # rs) = Inl e"
| "collect_results (Inr a # rs) =
     (case collect_results rs of Inl e \<Rightarrow> Inl e | Inr xs \<Rightarrow> Inr (a # xs))"

lemma collect_results_map_Inr [simp]: "collect_results (map (\<lambda>x. Inr (f x)) xs) = Inr (map f xs)"
  by (induction xs) auto

lemma collect_results_Inr:
  "collect_results (map f xs) = Inr ys \<longleftrightarrow> list_all2 (\<lambda>x y. f x = Inr y) xs ys"
proof (induction xs arbitrary: ys)
  case Nil
  then show ?case by auto
next
  case (Cons x xs)
  show ?case
  proof (cases "f x")
    case (Inl e)
    then show ?thesis by (simp add: list_all2_Cons1)
  next
    case (Inr b)
    then show ?thesis
      by (simp add: list_all2_Cons1 Cons.IH [symmetric] split: sum.splits) auto
  qed
qed

text \<open>\<open>Result::map\<close> and \<open>?\<close> on plain results.\<close>

definition res_bind :: "'e + 'a \<Rightarrow> ('a \<Rightarrow> 'e + 'b) \<Rightarrow> 'e + 'b" where
  "res_bind r f = (case r of Inl e \<Rightarrow> Inl e | Inr a \<Rightarrow> f a)"

lemma res_bind_simps [simp]: "res_bind (Inl e) f = Inl e" "res_bind (Inr a) f = f a"
  by (simp_all add: res_bind_def)

lemma find_Some_in: "List.find P xs = Some x \<Longrightarrow> x \<in> set xs \<and> P x"
  by (induction xs) (auto split: if_splits)

lemma find_the:
  assumes "x \<in> set xs" and "P x" and "\<And>y. y \<in> set xs \<Longrightarrow> P y \<Longrightarrow> y = x"
  shows "List.find P xs = Some x"
proof (cases "List.find P xs")
  case None
  then show ?thesis using assms(1,2) by (simp add: find_None_iff)
next
  case (Some y)
  then show ?thesis using find_Some_in [OF Some] assms(3) by blast
qed

lemma find_None_all: "List.find P xs = None \<longleftrightarrow> (\<forall>x\<in>set xs. \<not> P x)"
  by (induction xs) auto

lemma distinct_map_filterI: "distinct (map f xs) \<Longrightarrow> distinct (map f (filter P xs))"
  by (induction xs) auto

subsection \<open>Transition systems with an invariant\<close>

text \<open>
  The contract of a component that only moves by its own operations: \<open>inv\<close> is an invariant, and what
  an operation may do to the state is described by \<open>rel\<close>, which composes.
\<close>

locale governed_steps =
  fixes step :: "'s \<Rightarrow> 's \<Rightarrow> bool" and inv :: "'s \<Rightarrow> bool" and rel :: "'s \<Rightarrow> 's \<Rightarrow> bool"
  assumes step_inv: "inv s \<Longrightarrow> step s s' \<Longrightarrow> inv s'"
    and step_rel: "inv s \<Longrightarrow> step s s' \<Longrightarrow> rel s s'"
    and rel_refl: "rel s s"
    and rel_trans: "rel s s' \<Longrightarrow> rel s' s'' \<Longrightarrow> rel s s''"
begin

lemma run_inv: "step\<^sup>*\<^sup>* s s' \<Longrightarrow> inv s \<Longrightarrow> inv s'"
  by (induction rule: rtranclp_induct) (auto intro: step_inv)

lemma run_rel: "step\<^sup>*\<^sup>* s s' \<Longrightarrow> inv s \<Longrightarrow> rel s s'"
proof (induction rule: rtranclp_induct)
  case base
  show ?case by (rule rel_refl)
next
  case (step y z)
  then have "inv y" using run_inv by blast
  with step show ?case by (blast intro: step_rel rel_trans)
qed

lemma run_both: "step\<^sup>*\<^sup>* s s' \<Longrightarrow> inv s \<Longrightarrow> inv s' \<and> rel s s'"
  by (blast intro: run_inv run_rel)

end

end
