(* ===== verification/Tables.thy ===== *)
theory Tables
  imports Prelude
begin

text \<open>
  The relational vocabulary of the SQL statements of \<open>crates/kagzi-store/src/postgres\<close>: a table is
  the list of its rows.

  \<^item> \<open>UPDATE t SET f WHERE P\<close> is \<open>sql_update P f t\<close>, its \<open>rows_affected()\<close> is \<open>sql_count P t\<close>;
  \<^item> \<open>SELECT \<dots> WHERE P\<close> is \<open>filter P t\<close>, read through \<open>fetch_optional\<close> it is \<open>List.find P t\<close>;
  \<^item> \<open>ORDER BY key LIMIT n\<close> is \<open>take n (order_by lt key \<dots>)\<close>, a stable sort.

  Two contracts are stated as locales: \<open>keyed_table\<close> (a table whose constraint makes a column a key)
  and \<open>keyset\<close> (pagination by a cursor on a strict total order). The component theories interpret
  both on their own tables.
\<close>

subsection \<open>Statements\<close>

definition sql_update :: "('r \<Rightarrow> bool) \<Rightarrow> ('r \<Rightarrow> 'r) \<Rightarrow> 'r list \<Rightarrow> 'r list" where
  "sql_update P f t = map (\<lambda>r. if P r then f r else r) t"

definition sql_count :: "('r \<Rightarrow> bool) \<Rightarrow> 'r list \<Rightarrow> nat" where
  "sql_count P t = length (filter P t)"

lemma sql_update_none: "(\<And>r. r \<in> set t \<Longrightarrow> \<not> P r) \<Longrightarrow> sql_update P f t = t"
  by (simp add: sql_update_def map_idI)

lemma sql_count_0: "sql_count P t = 0 \<longleftrightarrow> (\<forall>r\<in>set t. \<not> P r)"
  by (simp add: sql_count_def filter_empty_conv)

lemma length_sql_update [simp]: "length (sql_update P f t) = length t"
  by (simp add: sql_update_def)

lemma in_sql_update:
  "r \<in> set (sql_update P f t) \<longleftrightarrow> (\<exists>r0\<in>set t. r = (if P r0 then f r0 else r0))"
  by (auto simp: sql_update_def)

lemma map_sql_update: "(\<And>r. g (f r) = g r) \<Longrightarrow> map g (sql_update P f t) = map g t"
  by (simp add: sql_update_def)

lemma sql_update_compose:
  "(\<And>r. P r \<Longrightarrow> Q (f r)) \<Longrightarrow> (\<And>r. \<not> P r \<Longrightarrow> \<not> Q r) \<Longrightarrow>
    sql_update Q g (sql_update P f t) = sql_update P (\<lambda>r. g (f r)) t"
  by (auto simp: sql_update_def)

lemma find_sql_update:
  assumes "\<And>r. Q (f r) = Q r"
  shows "List.find Q (sql_update P f t)
       = map_option (\<lambda>r. if P r then f r else r) (List.find Q t)"
  using assms by (induction t) (auto simp: sql_update_def)

lemma filter_sql_update:
  assumes "\<And>r. r \<in> set t \<Longrightarrow> P r \<Longrightarrow> Q (f r) = Q r"
  shows "filter Q (sql_update P f t) = sql_update P f (filter Q t)"
  using assms by (induction t) (auto simp: sql_update_def)

text \<open>Narrowing what a partial unique index covers keeps its keys distinct.\<close>

lemma distinct_map_filter_sql_update:
  assumes "distinct (map k (filter Q t))"
    and "\<And>r. r \<in> set t \<Longrightarrow> P r \<Longrightarrow> Q (f r) \<Longrightarrow> Q r \<and> k (f r) = k r"
  shows "distinct (map k (filter Q (sql_update P f t)))"
  using assms
proof (induction t)
  case Nil
  then show ?case by (simp add: sql_update_def)
next
  case (Cons r t)
  have sub: "set (map k (filter Q (sql_update P f t))) \<subseteq> set (map k (filter Q t))"
    using Cons.prems(2) by (auto simp: sql_update_def)
  have ih: "distinct (map k (filter Q (sql_update P f t)))"
    using Cons.prems by (intro Cons.IH) (auto split: if_splits)
  have notin: "k r \<notin> set (map k (filter Q (sql_update P f t)))" if "Q r"
    using Cons.prems(1) that sub by auto
  have step: "sql_update P f (r # t) = (if P r then f r else r) # sql_update P f t"
    by (simp add: sql_update_def)
  show ?case
    unfolding step using ih notin Cons.prems(2) [of r] by (cases "P r") (auto simp del: set_map)
qed

subsection \<open>Tables with a key\<close>

locale keyed_table =
  fixes key :: "'r \<Rightarrow> 'k" and tbl_ok :: "'r list \<Rightarrow> bool"
  assumes key_distinct: "tbl_ok t \<Longrightarrow> distinct (map key t)"
begin

lemma row_unique: "tbl_ok t \<Longrightarrow> r \<in> set t \<Longrightarrow> r' \<in> set t \<Longrightarrow> key r = key r' \<Longrightarrow> r = r'"
  using key_distinct by (meson distinct_map inj_onD)

lemma find_key:
  assumes "tbl_ok t" and "r \<in> set t"
  shows "List.find (\<lambda>x. key x = key r) t = Some r"
proof (cases "List.find (\<lambda>x. key x = key r) t")
  case None
  then show ?thesis using assms(2) by (auto simp: find_None_all)
next
  case (Some x)
  then show ?thesis using find_Some_in [OF Some] row_unique [OF assms(1)] assms(2) by auto
qed

lemma find_key_and:
  assumes "tbl_ok t" and "r \<in> set t" and "P r"
  shows "List.find (\<lambda>x. key x = key r \<and> P x) t = Some r"
proof (cases "List.find (\<lambda>x. key x = key r \<and> P x) t")
  case None
  then show ?thesis using assms by (auto simp: find_None_all)
next
  case (Some x)
  then show ?thesis using find_Some_in [OF Some] row_unique [OF assms(1)] assms(2) by auto
qed

text \<open>A statement whose \<open>WHERE\<close> fixes the key touches at most one row.\<close>

lemma count_by_key:
  assumes "tbl_ok t"
  shows "sql_count (\<lambda>r. key r = k \<and> P r) t \<le> 1"
proof -
  have "distinct (map key (filter (\<lambda>r. key r = k \<and> P r) t))"
    by (rule distinct_map_filterI) (rule key_distinct [OF assms])
  moreover have "set (map key (filter (\<lambda>r. key r = k \<and> P r) t)) \<subseteq> {k}" by auto
  ultimately have "length (map key (filter (\<lambda>r. key r = k \<and> P r) t)) \<le> card {k}"
    by (metis card_mono distinct_card finite.emptyI finite_insert)
  then show ?thesis by (simp add: sql_count_def)
qed

lemma update_by_key_other:
  assumes "\<And>r. key (f r) = key r" and "k' \<noteq> k"
  shows "List.find (\<lambda>r. key r = k') (sql_update (\<lambda>r. key r = k \<and> P r) f t)
       = List.find (\<lambda>r. key r = k') t"
  using assms by (induction t) (auto simp: sql_update_def)

end

subsection \<open>Sorting and pagination by a key\<close>

fun insert_by :: "('k \<Rightarrow> 'k \<Rightarrow> bool) \<Rightarrow> ('r \<Rightarrow> 'k) \<Rightarrow> 'r \<Rightarrow> 'r list \<Rightarrow> 'r list" where
  "insert_by lt key x [] = [x]"
| "insert_by lt key x (y # ys) =
     (if lt (key y) (key x) then y # insert_by lt key x ys else x # y # ys)"

definition order_by :: "('k \<Rightarrow> 'k \<Rightarrow> bool) \<Rightarrow> ('r \<Rightarrow> 'k) \<Rightarrow> 'r list \<Rightarrow> 'r list" where
  "order_by lt key xs = foldr (insert_by lt key) xs []"

definition after_cursor :: "('k \<Rightarrow> 'k \<Rightarrow> bool) \<Rightarrow> ('r \<Rightarrow> 'k) \<Rightarrow> 'k option \<Rightarrow> 'r \<Rightarrow> bool" where
  "after_cursor lt key cur r = (case cur of None \<Rightarrow> True | Some c \<Rightarrow> lt c (key r))"

text \<open>
  What a caller does with a paginated endpoint: fetch pages, following the returned cursor while
  \<open>has_more\<close> is set. The first argument bounds the number of requests.
\<close>

fun walk_pages :: "nat \<Rightarrow> ('c option \<Rightarrow> 'r list \<times> 'c option \<times> bool) \<Rightarrow> 'c option \<Rightarrow> 'r list" where
  "walk_pages 0 fetch cur = []"
| "walk_pages (Suc n) fetch cur =
     (case fetch cur of (items, next_cur, more) \<Rightarrow>
        items @ (if more then walk_pages n fetch next_cur else []))"

lemma set_insert_by [simp]: "set (insert_by lt key x ys) = insert x (set ys)"
  by (induction ys) auto

lemma set_order_by [simp]: "set (order_by lt key xs) = set xs"
  by (induction xs) (auto simp: order_by_def)

lemma length_insert_by [simp]: "length (insert_by lt key x ys) = Suc (length ys)"
  by (induction ys) auto

lemma length_order_by [simp]: "length (order_by lt key xs) = length xs"
  by (induction xs) (auto simp: order_by_def)

lemma order_by_Nil_iff [simp]: "order_by lt key xs = [] \<longleftrightarrow> xs = []"
  by (metis length_0_conv length_order_by)

locale keyset =
  fixes lt :: "'k \<Rightarrow> 'k \<Rightarrow> bool"
  assumes irrefl: "\<not> lt x x"
    and trans: "lt x y \<Longrightarrow> lt y z \<Longrightarrow> lt x z"
    and total: "x \<noteq> y \<Longrightarrow> lt x y \<or> lt y x"
begin

text \<open>Equal keys may be adjacent, so the order of a sorted list is "not after".\<close>

abbreviation le_key :: "('r \<Rightarrow> 'k) \<Rightarrow> 'r \<Rightarrow> 'r \<Rightarrow> bool" where
  "le_key key a b \<equiv> \<not> lt (key b) (key a)"

lemma le_trans: "\<not> lt y x \<Longrightarrow> \<not> lt z y \<Longrightarrow> \<not> lt z x"
  by (metis trans total)

lemma sorted_insert_by:
  "sorted_wrt (le_key key) ys \<Longrightarrow> sorted_wrt (le_key key) (insert_by lt key x ys)"
  by (induction ys) (auto dest: le_trans trans simp: irrefl intro: le_trans)

lemma sorted_order_by: "sorted_wrt (le_key key) (order_by lt key xs)"
  by (induction xs) (auto simp: order_by_def sorted_insert_by)

lemma insert_by_filter:
  assumes "sorted_wrt (le_key key) ys"
  shows "filter P (insert_by lt key x ys)
       = (if P x then insert_by lt key x (filter P ys) else filter P ys)"
  using assms
proof (induction ys)
  case Nil
  then show ?case by simp
next
  case (Cons y ys)
  have low: "insert_by lt key x zs = x # zs" if "\<And>z. z \<in> set zs \<Longrightarrow> \<not> lt (key z) (key x)" for zs
    using that by (cases zs) auto
  show ?case
  proof (cases "lt (key y) (key x)")
    case True
    with Cons show ?thesis by auto
  next
    case False
    then have "\<not> lt (key z) (key x)" if "z \<in> set ys" for z
      using Cons.prems that le_trans by (metis sorted_wrt.simps(2))
    then show ?thesis using False low [of "filter P ys"] by auto
  qed
qed

text \<open>Filtering by a predicate commutes with sorting.\<close>

lemma filter_order_by: "filter P (order_by lt key xs) = order_by lt key (filter P xs)"
proof (induction xs)
  case Nil
  then show ?case by (simp add: order_by_def)
next
  case (Cons x xs)
  have "filter P (order_by lt key (x # xs))
      = filter P (insert_by lt key x (order_by lt key xs))"
    by (simp add: order_by_def)
  also have "\<dots> = (if P x then insert_by lt key x (order_by lt key (filter P xs))
                   else order_by lt key (filter P xs))"
    by (simp add: insert_by_filter [OF sorted_order_by] Cons.IH)
  also have "\<dots> = order_by lt key (filter P (x # xs))"
    by (simp add: order_by_def)
  finally show ?case .
qed

lemma order_by_hd_least:
  assumes "order_by lt key xs = r # rs"
  shows "r \<in> set xs \<and> (\<forall>x\<in>set xs. \<not> lt (key x) (key r))"
proof -
  have "set xs = set (r # rs)" using assms by (metis set_order_by)
  moreover have "sorted_wrt (le_key key) (r # rs)" using sorted_order_by [of key xs] assms by simp
  ultimately show ?thesis by (auto simp: irrefl)
qed

lemma distinct_keys_order_by: "distinct (map key xs) \<Longrightarrow> distinct (map key (order_by lt key xs))"
proof (induction xs)
  case Nil
  then show ?case by (simp add: order_by_def)
next
  case (Cons x xs)
  have "distinct (map key (insert_by lt key x ys)) = distinct (map key (x # ys))" for ys
    by (induction ys) auto
  then show ?case using Cons by (simp add: order_by_def) (simp add: order_by_def [symmetric])
qed

text \<open>
  In a list sorted by distinct keys, the rows after the cursor taken from a prefix's last row are
  exactly the rest of the list.
\<close>

lemma filter_after_last:
  assumes "sorted_wrt (le_key key) (xs @ ys)" and "distinct (map key (xs @ ys))" and "xs \<noteq> []"
  shows "filter (after_cursor lt key (Some (key (last xs)))) (xs @ ys) = ys"
proof -
  have l: "last xs \<in> set xs" using assms(3) by simp
  have "\<not> lt (key (last xs)) (key x)" if "x \<in> set xs" for x
  proof (cases "x = last xs")
    case True
    then show ?thesis by (simp add: irrefl)
  next
    case False
    have b: "xs = butlast xs @ [last xs]" using assms(3) by simp
    with False that have "x \<in> set (butlast xs)"
      by (metis Un_iff empty_iff empty_set insert_iff list.simps(15) set_append)
    moreover have "sorted_wrt (le_key key) (butlast xs @ [last xs])"
      using assms(1) b by (metis sorted_wrt_append)
    ultimately show ?thesis by (auto simp: sorted_wrt_append)
  qed
  then have 1: "filter (after_cursor lt key (Some (key (last xs)))) xs = []"
    by (auto simp: filter_empty_conv after_cursor_def)
  have "lt (key (last xs)) (key y)" if "y \<in> set ys" for y
  proof -
    have "\<not> lt (key y) (key (last xs))" using assms(1) l that by (auto simp: sorted_wrt_append)
    moreover have "key y \<noteq> key (last xs)" using assms(2) l that by auto
    ultimately show ?thesis using total by blast
  qed
  then have 2: "filter (after_cursor lt key (Some (key (last xs)))) ys = ys"
    by (simp add: filter_id_conv after_cursor_def)
  from 1 2 show ?thesis by simp
qed

lemma filter_after_trans:
  assumes "lt c (key r)"
  shows "after_cursor lt key (Some (key r)) x \<Longrightarrow> after_cursor lt key (Some c) x"
  using assms trans by (auto simp: after_cursor_def)

text \<open>
  A walk over the pages of a fixed set of rows with distinct keys returns every row exactly once,
  in order, when each page is the first \<open>n\<close> rows after the cursor and the cursor handed out is the
  key of the page's last row. One request per row is always enough.
\<close>

lemma walk_pages_complete:
  fixes rows :: "'r list" and key :: "'r \<Rightarrow> 'k"
  defines "page cur \<equiv> order_by lt key (filter (after_cursor lt key cur) rows)"
  assumes dist: "distinct (map key rows)" and n: "0 < n"
    and items: "\<And>cur. fst (fetch cur) = take n (page cur)"
    and more: "\<And>cur. snd (snd (fetch cur)) \<longleftrightarrow> n < length (page cur)"
    and nxt: "\<And>cur. n < length (page cur)
                \<Longrightarrow> fst (snd (fetch cur)) = Some (key (last (take n (page cur))))"
    and fuel: "length (page cur) \<le> fuel"
  shows "walk_pages fuel fetch cur = page cur"
  using fuel
proof (induction fuel arbitrary: cur)
  case 0
  then show ?case by simp
next
  case (Suc fuel)
  obtain its c' m where f: "fetch cur = (its, c', m)" by (metis prod_cases3)
  have its: "its = take n (page cur)" and m: "m \<longleftrightarrow> n < length (page cur)"
    using items [of cur] more [of cur] f by auto
  show ?case
  proof (cases m)
    case False
    then show ?thesis using f its m by simp
  next
    case True
    define xs ys where "xs = take n (page cur)" and "ys = drop n (page cur)"
    have xy: "page cur = xs @ ys" by (simp add: xs_def ys_def)
    have ne: "xs \<noteq> []" using True m n by (auto simp: xs_def)
    have c': "c' = Some (key (last xs))" using nxt [of cur] True m f by (simp add: xs_def)
    have pg: "page d = filter (after_cursor lt key d) (order_by lt key rows)" for d
      by (simp add: page_def filter_order_by)
    have "last xs \<in> set (page cur)" using ne xy by simp
    then have "after_cursor lt key cur (last xs)" by (simp add: page_def)
    then have sub: "after_cursor lt key c' x \<Longrightarrow> after_cursor lt key cur x" for x
      using trans unfolding c' by (auto simp: after_cursor_def split: option.splits)
    have "page c' = filter (after_cursor lt key c') (page cur)"
      unfolding pg using sub by (simp only: filter_filter) (rule filter_cong, rule refl, metis sub)
    also have "\<dots> = ys"
      unfolding xy c'
    proof (rule filter_after_last)
      show "sorted_wrt (le_key key) (xs @ ys)"
        using sorted_order_by [of key "filter (after_cursor lt key cur) rows"] xy by (simp add: page_def)
      show "distinct (map key (xs @ ys))"
        using distinct_keys_order_by [of key "filter (after_cursor lt key cur) rows"] dist xy
        by (simp add: page_def distinct_map_filterI)
    qed (rule ne)
    finally have "page c' = ys" .
    moreover have "length ys \<le> fuel" using Suc.prems xy ne by (cases xs) auto
    ultimately have "walk_pages fuel fetch c' = ys" using Suc.IH [of c'] by simp
    moreover have "its = xs" using its by (simp only: xs_def)
    ultimately show ?thesis using f True by (simp add: xy)
  qed
qed

end

end
