(* ===== verification/Models.thy ===== *)
theory Models
  imports Complex_Main Prelude
begin

text \<open>
  The domain models of \<open>crates/kagzi-store/src/models\<close>: the status enumerations with their text
  form in the database, the retry policy and its decisions, the parameter and result structs of the
  repositories.

  \<open>f64\<close> values are rationals, the two infinities and NaN: the code compares them with constants,
  stores them and sends them on. \<open>Uuid::now_v7\<close> and \<open>NOW()\<close> are arguments of the operations that
  use them. The iterator of the crate \<open>backon\<close>, which is not in this repository, is a parameter:
  \<open>bo min max k\<close> is the \<open>k\<close>-th duration it yields (nanoseconds), if it yields that many.
\<close>

subsection \<open>Statuses and their text form\<close>

datatype workflow_status =
  WsPending | WsRunning | WsSleeping | WsCompleted | WsFailed | WsCancelled | WsScheduled | WsPaused

fun is_terminal :: "workflow_status \<Rightarrow> bool" where
  "is_terminal WsCompleted = True"
| "is_terminal WsFailed = True"
| "is_terminal WsCancelled = True"
| "is_terminal _ = False"

fun can_cancel :: "workflow_status \<Rightarrow> bool" where
  "can_cancel WsPending = True"
| "can_cancel WsRunning = True"
| "can_cancel WsSleeping = True"
| "can_cancel _ = False"

fun is_schedule_template :: "workflow_status \<Rightarrow> bool" where
  "is_schedule_template WsScheduled = True"
| "is_schedule_template WsPaused = True"
| "is_schedule_template _ = False"

fun show_status :: "workflow_status \<Rightarrow> string" where
  "show_status WsPending = ''PENDING''"
| "show_status WsRunning = ''RUNNING''"
| "show_status WsSleeping = ''SLEEPING''"
| "show_status WsCompleted = ''COMPLETED''"
| "show_status WsFailed = ''FAILED''"
| "show_status WsCancelled = ''CANCELLED''"
| "show_status WsScheduled = ''SCHEDULED''"
| "show_status WsPaused = ''PAUSED''"

definition all_statuses :: "workflow_status list" where
  "all_statuses = [WsPending, WsRunning, WsSleeping, WsCompleted, WsFailed, WsCancelled,
                   WsScheduled, WsPaused]"

definition parse_status :: "string \<Rightarrow> workflow_status option" where
  "parse_status s = List.find (\<lambda>st. show_status st = s) all_statuses"

datatype step_kind =
  SkFunction | SkSleep | SkWorkflowStarted | SkWorkflowCompleted | SkWorkflowFailed
| SkWorkflowCancelled

fun show_step_kind :: "step_kind \<Rightarrow> string" where
  "show_step_kind SkFunction = ''FUNCTION''"
| "show_step_kind SkSleep = ''SLEEP''"
| "show_step_kind SkWorkflowStarted = ''WORKFLOW_STARTED''"
| "show_step_kind SkWorkflowCompleted = ''WORKFLOW_COMPLETED''"
| "show_step_kind SkWorkflowFailed = ''WORKFLOW_FAILED''"
| "show_step_kind SkWorkflowCancelled = ''WORKFLOW_CANCELLED''"

definition parse_step_kind :: "string \<Rightarrow> step_kind option" where
  "parse_step_kind s = List.find (\<lambda>k. show_step_kind k = s)
     [SkFunction, SkSleep, SkWorkflowStarted, SkWorkflowCompleted, SkWorkflowFailed,
      SkWorkflowCancelled]"

datatype step_status = SsPending | SsRunning | SsCompleted | SsFailed

fun show_step_status :: "step_status \<Rightarrow> string" where
  "show_step_status SsPending = ''PENDING''"
| "show_step_status SsRunning = ''RUNNING''"
| "show_step_status SsCompleted = ''COMPLETED''"
| "show_step_status SsFailed = ''FAILED''"

definition parse_step_status :: "string \<Rightarrow> step_status option" where
  "parse_step_status s = List.find (\<lambda>k. show_step_status k = s)
     [SsPending, SsRunning, SsCompleted, SsFailed]"

datatype worker_status = WkOnline | WkDraining | WkOffline

fun show_worker_status :: "worker_status \<Rightarrow> string" where
  "show_worker_status WkOnline = ''ONLINE''"
| "show_worker_status WkDraining = ''DRAINING''"
| "show_worker_status WkOffline = ''OFFLINE''"

definition parse_worker_status :: "string \<Rightarrow> worker_status option" where
  "parse_worker_status s = List.find (\<lambda>k. show_worker_status k = s) [WkOnline, WkDraining, WkOffline]"

lemma show_status_inj [simp]: "show_status a = show_status b \<longleftrightarrow> a = b"
  by (cases a; cases b) simp_all

lemma show_step_kind_inj [simp]: "show_step_kind a = show_step_kind b \<longleftrightarrow> a = b"
  by (cases a; cases b) simp_all

lemma show_step_status_inj [simp]: "show_step_status a = show_step_status b \<longleftrightarrow> a = b"
  by (cases a; cases b) simp_all

lemma show_worker_status_inj [simp]: "show_worker_status a = show_worker_status b \<longleftrightarrow> a = b"
  by (cases a; cases b) simp_all

lemma parse_show_status [simp]: "parse_status (show_status st) = Some st"
  by (cases st) (simp_all add: parse_status_def all_statuses_def)

lemma parse_show_step_kind [simp]: "parse_step_kind (show_step_kind k) = Some k"
  by (cases k) (simp_all add: parse_step_kind_def)

lemma parse_show_step_status [simp]: "parse_step_status (show_step_status k) = Some k"
  by (cases k) (simp_all add: parse_step_status_def)

lemma parse_show_worker_status [simp]: "parse_worker_status (show_worker_status k) = Some k"
  by (cases k) (simp_all add: parse_worker_status_def)

lemma parse_status_SomeD: "parse_status s = Some st \<Longrightarrow> s = show_status st"
  unfolding parse_status_def by (drule find_Some_in) simp

lemma parse_worker_status_SomeD: "parse_worker_status s = Some st \<Longrightarrow> s = show_worker_status st"
  unfolding parse_worker_status_def by (drule find_Some_in) simp

lemma is_terminal_cases: "is_terminal st \<longleftrightarrow> st \<in> {WsCompleted, WsFailed, WsCancelled}"
  by (cases st) simp_all

text \<open>
  Facts about statuses come from injectivity; the text itself is only unfolded where a concrete
  filter string is compared.
\<close>

declare show_status.simps [simp del] show_step_kind.simps [simp del]
  show_step_status.simps [simp del] show_worker_status.simps [simp del]

subsection \<open>Retry policies\<close>

datatype f64 = Fin rat | PosInf | NegInf | NaN

fun f64_is_zero :: "f64 \<Rightarrow> bool" where
  "f64_is_zero (Fin q) = (q = 0)"
| "f64_is_zero _ = False"

fun f64_is_finite :: "f64 \<Rightarrow> bool" where
  "f64_is_finite (Fin q) = True"
| "f64_is_finite _ = False"

record retry_policy =
  maximum_attempts :: int
  initial_interval_ms :: int
  backoff_coefficient :: f64
  maximum_interval_ms :: int
  non_retryable_errors :: "string list"

definition default_policy :: retry_policy where
  "default_policy = \<lparr>maximum_attempts = 5, initial_interval_ms = 1000,
     backoff_coefficient = Fin 2, maximum_interval_ms = 60000, non_retryable_errors = []\<rparr>"

type_synonym backoff_iter = "int \<Rightarrow> int \<Rightarrow> nat \<Rightarrow> int option"

text \<open>
  \<open>RetryPolicy::calculate_delay_ms\<close>: the iterator is built from the two intervals, advanced
  \<open>attempt - 1\<close> times and read once; \<open>Duration\<close>s are nanoseconds.
\<close>

definition calculate_delay_ms :: "backoff_iter \<Rightarrow> retry_policy \<Rightarrow> int \<Rightarrow> int" where
  "calculate_delay_ms bo p attempt =
     (let mn = as_u64 (initial_interval_ms p) * 1000000;
          mx = as_u64 (maximum_interval_ms p) * 1000000;
          delay = (case bo mn mx (nat (attempt - 1)) of Some d \<Rightarrow> d | None \<Rightarrow> mx)
      in as_i64 (delay div 1000000))"

definition starts_with :: "string \<Rightarrow> string \<Rightarrow> bool" where
  "starts_with s p = (take (length p) s = p)"

definition is_non_retryable :: "retry_policy \<Rightarrow> string \<Rightarrow> bool" where
  "is_non_retryable p err = list_ex (\<lambda>e. starts_with err e) (non_retryable_errors p)"

definition should_retry :: "retry_policy \<Rightarrow> int \<Rightarrow> bool" where
  "should_retry p current_attempt =
     (maximum_attempts p < 0 \<or> current_attempt < maximum_attempts p)"

text \<open>
  The \<open>JSONB\<close> column holds the serialised policy. \<open>serde_json\<close> writes a coefficient that is not a
  finite number as \<open>null\<close>, which \<open>from_value\<close> then refuses, and the code falls back to no policy.
\<close>

definition policy_from_value :: "retry_policy \<Rightarrow> retry_policy option" where
  "policy_from_value p = (if f64_is_finite (backoff_coefficient p) then Some p else None)"

subsection \<open>Structs of the repositories\<close>

record workflow_run =
  w_run_id :: uuid
  w_namespace :: string
  w_external_id :: string
  w_task_queue :: string
  w_workflow_type :: string
  w_status :: workflow_status
  w_input :: bytes
  w_output :: "bytes option"
  w_locked_by :: "string option"
  w_attempts :: int
  w_error :: "string option"
  w_created_at :: "timestamp option"
  w_started_at :: "timestamp option"
  w_finished_at :: "timestamp option"
  w_available_at :: "timestamp option"
  w_version :: "string option"
  w_parent_step_attempt_id :: "string option"
  w_retry_policy :: "retry_policy option"
  w_cron_expr :: "string option"
  w_schedule_id :: "uuid option"
  w_last_fired_at :: "timestamp option"
  w_max_catchup :: int

record create_workflow =
  cw_run_id :: uuid
  cw_external_id :: string
  cw_task_queue :: string
  cw_workflow_type :: string
  cw_input :: bytes
  cw_namespace :: string
  cw_version :: string
  cw_retry_policy :: "retry_policy option"
  cw_cron_expr :: "string option"
  cw_schedule_id :: "uuid option"

type_synonym cursor = "timestamp \<times> uuid"

record list_workflows_params =
  lw_namespace :: string
  lw_filter_status :: "string option"
  lw_page_size :: int
  lw_cursor :: "cursor option"
  lw_schedule_id :: "uuid option"

record claimed_workflow =
  cl_run_id :: uuid
  cl_workflow_type :: string
  cl_input :: bytes
  cl_locked_by :: "string option"

record workflow_exists_result =
  we_exists :: bool
  we_status :: "workflow_status option"
  we_locked_by :: "string option"

record ('t, 'c) paginated_result =
  pr_items :: "'t list"
  pr_next_cursor :: "'c option"
  pr_has_more :: bool

definition empty_page :: "('t, 'c) paginated_result" where
  "empty_page = \<lparr>pr_items = [], pr_next_cursor = None, pr_has_more = False\<rparr>"

record step_run =
  s_attempt_id :: uuid
  s_run_id :: uuid
  s_step_id :: string
  s_namespace :: string
  s_step_kind :: step_kind
  s_attempt_number :: int
  s_status :: step_status
  s_input :: "bytes option"
  s_output :: "bytes option"
  s_error :: "string option"
  s_child_workflow_run_id :: "uuid option"
  s_created_at :: "timestamp option"
  s_started_at :: "timestamp option"
  s_finished_at :: "timestamp option"
  s_retry_policy :: "retry_policy option"

record begin_step_params =
  bs_run_id :: uuid
  bs_step_id :: string
  bs_step_kind :: step_kind
  bs_input :: "bytes option"
  bs_retry_policy :: "retry_policy option"

record begin_step_result =
  br_should_execute :: bool
  br_cached_output :: "bytes option"

record fail_step_params =
  fs_run_id :: uuid
  fs_step_id :: string
  fs_error :: string
  fs_non_retryable :: bool
  fs_retry_after_ms :: "int option"

record fail_step_result =
  fr_scheduled_retry :: bool
  fr_schedule_workflow_retry_ms :: "int option"

record step_retry_info =
  ri_attempt_number :: int
  ri_retry_policy :: "retry_policy option"

record list_steps_params =
  ls_run_id :: uuid
  ls_namespace :: string
  ls_step_id :: "string option"
  ls_page_size :: int
  ls_cursor :: "cursor option"

type_synonym labels = "(string \<times> string) list"

record worker =
  k_worker_id :: uuid
  k_namespace :: string
  k_task_queue :: string
  k_status :: worker_status
  k_hostname :: "string option"
  k_pid :: "int option"
  k_version :: "string option"
  k_workflow_types :: "string list"
  k_registered_at :: timestamp
  k_last_heartbeat_at :: timestamp
  k_deregistered_at :: "timestamp option"
  k_labels :: labels
  k_queue_concurrency_limit :: "int option"
  k_workflow_type_concurrency :: "(string \<times> int) list"

record register_worker_params =
  rw_namespace :: string
  rw_task_queue :: string
  rw_workflow_types :: "string list"
  rw_hostname :: "string option"
  rw_pid :: "int option"
  rw_version :: "string option"
  rw_labels :: labels
  rw_queue_concurrency_limit :: "int option"
  rw_workflow_type_concurrency :: "(string \<times> int) list"

record list_workers_params =
  lk_namespace :: string
  lk_task_queue :: "string option"
  lk_filter_status :: "worker_status option"
  lk_page_size :: int
  lk_cursor :: "uuid option"

record namespace_stats =
  ns_total_workflows :: int
  ns_pending_workflows :: int
  ns_running_workflows :: int
  ns_completed_workflows :: int
  ns_failed_workflows :: int
  ns_total_workers :: int
  ns_online_workers :: int
  ns_total_schedules :: int
  ns_enabled_schedules :: int
  ns_workflows_by_status :: "(string \<times> int) list"
  ns_workflows_by_type :: "(string \<times> int \<times> int \<times> string list) list"

record workflow_type_info =
  ti_workflow_type :: string
  ti_total_runs :: int
  ti_active_runs :: int
  ti_task_queues :: "string list"

subsection \<open>Decisions of the retry policy\<close>

lemma should_retry_bounded:
  "0 \<le> maximum_attempts p \<Longrightarrow> maximum_attempts p \<le> n \<Longrightarrow> \<not> should_retry p n"
  by (simp add: should_retry_def)

lemma should_retry_mono: "should_retry p n \<Longrightarrow> m \<le> n \<Longrightarrow> should_retry p m"
  by (auto simp: should_retry_def)

lemma is_non_retryable_iff:
  "is_non_retryable p err \<longleftrightarrow> (\<exists>e\<in>set (non_retryable_errors p). \<exists>rest. err = e @ rest)"
  unfolding is_non_retryable_def starts_with_def list_ex_iff
  by (metis append_eq_conv_conj append_take_drop_id)

end
