(* ===== verification/Schema.thy ===== *)
theory Schema
  imports Tables Models
begin

text \<open>
  The database the repositories work on: the rows of the five tables, the error type
  (\<open>crates/kagzi-store/src/error.rs\<close>), and the constraints that the files of \<open>migrations/\<close> put on
  the tables. A statement that would break a constraint fails with the error the conversion from
  \<open>sqlx::Error\<close> gives it and changes nothing.

  Message texts are structured values (\<open>msg\<close>): one constructor per \<open>format!\<close> string of the code,
  with the values it interpolates. \<open>PgText\<close> stands for the server's own text about a constraint.

  The constraints are checked on the whole table after the statement; on databases on which they
  held before (\<open>wf_db\<close>) this is what PostgreSQL's row-wise checks decide, but for bulk updates that
  only collide in between.
\<close>

subsection \<open>Errors\<close>

datatype msg =
  Lit string
| PgText string
| FmtPayloadSize string nat nat
| FmtInvalid string string
| FmtStepRef uuid string
| FmtLifecycleKind step_kind
| FmtNamespaceExists string
| FmtInvalidCron uuid string
| FmtNotFound string
| FmtTerminal workflow_status
| FmtCannotCancel "workflow_status option"
| FmtRunNotFound uuid
| FmtRunNotFoundIn uuid string
| FmtNamespaceNotFound string
| FmtRequired string
| FmtUuid uuid
| FmtInvalidUuid string
| FmtCronFields nat
| FmtInvalidCronExpr string

datatype db_error =
  CheckViolation string | NotNullViolation string | NumericOutOfRange | NegativeLimit | UnexpectedNull

datatype store_error =
  Database db_error
| Conflict msg
| InvalidArgument msg
| NotFound string msg
| InvalidState msg
| AlreadyCompleted msg
| Serialization
| LockConflict msg
| PreconditionFailed msg
| Unauthorized msg
| Unavailable msg
| Timeout msg

text \<open>SQL errors by their code, as \<open>From<sqlx::Error>\<close> turns them into store errors.\<close>

datatype sql_error = UniqueViolation string | ForeignKeyViolation string | OtherSql db_error

fun store_error_from :: "sql_error \<Rightarrow> store_error" where
  "store_error_from (UniqueViolation c) = Conflict (PgText c)"
| "store_error_from (ForeignKeyViolation c) = InvalidArgument (PgText c)"
| "store_error_from (OtherSql e) = Database e"

text \<open>
  The fallback of \<open>is_unique_violation\<close> (a \<open>Database\<close> error carrying code 23505) never applies to an
  error made by \<open>store_error_from\<close>.
\<close>

fun is_unique_violation :: "store_error \<Rightarrow> bool" where
  "is_unique_violation (Conflict m) = True"
| "is_unique_violation _ = False"

lemma is_unique_violation_from:
  "is_unique_violation (store_error_from e) \<longleftrightarrow> (\<exists>c. e = UniqueViolation c)"
  by (cases e) auto

subsection \<open>Rows\<close>

record run_row =
  wr_run_id :: uuid
  wr_namespace :: string
  wr_external_id :: string
  wr_task_queue :: string
  wr_workflow_type :: string
  wr_status :: string
  wr_locked_by :: "string option"
  wr_attempts :: int
  wr_error :: "string option"
  wr_created_at :: timestamp
  wr_started_at :: "timestamp option"
  wr_finished_at :: "timestamp option"
  wr_available_at :: "timestamp option"
  wr_version :: "string option"
  wr_parent_step_attempt_id :: "string option"
  wr_retry_policy :: "retry_policy option"
  wr_cron_expr :: "string option"
  wr_schedule_id :: "uuid option"
  wr_last_fired_at :: "timestamp option"
  wr_max_catchup :: int

record payload_row =
  pl_run_id :: uuid
  pl_input :: bytes
  pl_output :: "bytes option"

record step_row =
  sr_attempt_id :: uuid
  sr_run_id :: uuid
  sr_step_id :: string
  sr_namespace :: string
  sr_step_kind :: string
  sr_attempt_number :: int
  sr_status :: string
  sr_input :: "bytes option"
  sr_output :: "bytes option"
  sr_error :: "string option"
  sr_child_workflow_run_id :: "uuid option"
  sr_created_at :: timestamp
  sr_started_at :: "timestamp option"
  sr_finished_at :: "timestamp option"
  sr_retry_policy :: "retry_policy option"
  sr_is_latest :: bool

record worker_row =
  kr_worker_id :: uuid
  kr_namespace :: string
  kr_task_queue :: string
  kr_status :: string
  kr_hostname :: "string option"
  kr_pid :: "int option"
  kr_version :: "string option"
  kr_workflow_types :: "string list"
  kr_registered_at :: timestamp
  kr_last_heartbeat_at :: timestamp
  kr_deregistered_at :: "timestamp option"
  kr_labels :: labels

record namespace_row =
  nr_id :: uuid
  nr_namespace :: string
  nr_display_name :: string
  nr_description :: "string option"
  nr_enabled :: bool
  nr_created_at :: timestamp
  nr_updated_at :: timestamp

record db =
  runs :: "run_row list"
  payloads :: "payload_row list"
  steps :: "step_row list"
  workers :: "worker_row list"
  namespaces :: "namespace_row list"

type_synonym 'a store_op = "(db, store_error, 'a) op"

record store_config =
  payload_warn_threshold_bytes :: nat
  payload_max_size_bytes :: nat

definition default_store_config :: store_config where
  "default_store_config = \<lparr>payload_warn_threshold_bytes = 1024 * 1024,
     payload_max_size_bytes = 2 * 1024 * 1024\<rparr>"

abbreviation run_ids :: "db \<Rightarrow> uuid list" where
  "run_ids s \<equiv> map wr_run_id (runs s)"

abbreviation ns_names :: "db \<Rightarrow> string list" where
  "ns_names s \<equiv> map nr_namespace (namespaces s)"

subsection \<open>Arithmetic of the server\<close>

text \<open>
  The range of \<open>TIMESTAMPTZ\<close> and of \<open>INTEGER\<close>. The code passes intervals as \<open>f64\<close>; every number
  of seconds whose sum with a timestamp is in range is below \<open>2^53\<close>, so it is exact.
\<close>

definition pg_ts_min :: timestamp where
  "pg_ts_min = - 210866803200000000"

definition pg_ts_end :: timestamp where
  "pg_ts_end = 9224318016000000000"

definition pg_ts_add :: "timestamp \<Rightarrow> int \<Rightarrow> timestamp option" where
  "pg_ts_add t us = (if pg_ts_min \<le> t + us \<and> t + us < pg_ts_end then Some (t + us) else None)"

definition pg_int4 :: "int \<Rightarrow> int option" where
  "pg_int4 x = (if - (2 ^ 31) \<le> x \<and> x < 2 ^ 31 then Some x else None)"

definition out_of_range :: store_error where
  "out_of_range = Database NumericOutOfRange"

lemma pg_ts_add_SomeD: "pg_ts_add t us = Some t' \<Longrightarrow> t' = t + us"
  by (auto simp: pg_ts_add_def split: if_splits)

text \<open>\<open>LIMIT\<close> with a negative argument is an error.\<close>

definition sql_limit :: "int \<Rightarrow> 'r list \<Rightarrow> store_error + 'r list" where
  "sql_limit n xs = (if n < 0 then Inl (Database NegativeLimit) else Inr (take (nat n) xs))"

subsection \<open>Constraints of \<open>workflow_runs\<close>\<close>

definition active_text :: "string \<Rightarrow> bool" where
  "active_text st = (st \<noteq> show_status WsCompleted \<and> st \<noteq> show_status WsFailed
     \<and> st \<noteq> show_status WsCancelled)"

definition is_active :: "run_row \<Rightarrow> bool" where
  "is_active r = active_text (wr_status r)"

definition chk_available_at :: "run_row \<Rightarrow> bool" where
  "chk_available_at r = (\<not> is_active r \<or> wr_available_at r \<noteq> None)"

definition active_key :: "run_row \<Rightarrow> string \<times> string" where
  "active_key r = (wr_namespace r, wr_external_id r)"

definition is_firing :: "run_row \<Rightarrow> bool" where
  "is_firing r = (wr_schedule_id r \<noteq> None \<and> wr_available_at r \<noteq> None)"

definition firing_key :: "run_row \<Rightarrow> uuid option \<times> timestamp option" where
  "firing_key r = (wr_schedule_id r, wr_available_at r)"

definition schedule_fk :: "uuid list \<Rightarrow> run_row \<Rightarrow> bool" where
  "schedule_fk ids r = (case wr_schedule_id r of None \<Rightarrow> True | Some i \<Rightarrow> i \<in> set ids)"

definition runs_violation :: "string list \<Rightarrow> run_row list \<Rightarrow> sql_error option" where
  "runs_violation ns rs =
     (if \<not> list_all chk_available_at rs then Some (OtherSql (CheckViolation ''chk_available_at''))
      else if \<not> distinct (map wr_run_id rs) then Some (UniqueViolation ''workflow_runs_pkey'')
      else if \<not> distinct (map active_key (filter is_active rs))
        then Some (UniqueViolation ''uq_active_workflow'')
      else if \<not> distinct (map firing_key (filter is_firing rs))
        then Some (UniqueViolation ''idx_schedule_firing_unique'')
      else if \<not> list_all (schedule_fk (map wr_run_id rs)) rs
        then Some (ForeignKeyViolation ''fk_schedule_id'')
      else if \<not> list_all (\<lambda>r. wr_namespace r \<in> set ns) rs
        then Some (ForeignKeyViolation ''fk_workflow_namespace'')
      else None)"

definition put_runs :: "run_row list \<Rightarrow> unit store_op" where
  "put_runs rs s = (case runs_violation (ns_names s) rs of
       Some e \<Rightarrow> (Inl (store_error_from e), s)
     | None \<Rightarrow> (Inr (), s\<lparr>runs := rs\<rparr>))"

definition update_runs :: "(run_row \<Rightarrow> bool) \<Rightarrow> (run_row \<Rightarrow> run_row) \<Rightarrow> unit store_op" where
  "update_runs P f s = put_runs (sql_update P f (runs s)) s"

definition insert_run :: "run_row \<Rightarrow> unit store_op" where
  "insert_run r s = put_runs (runs s @ [r]) s"

subsection \<open>Constraints of the other tables\<close>

definition payloads_violation :: "uuid list \<Rightarrow> payload_row list \<Rightarrow> sql_error option" where
  "payloads_violation ids ps =
     (if \<not> distinct (map pl_run_id ps) then Some (UniqueViolation ''workflow_payloads_pkey'')
      else if \<not> list_all (\<lambda>p. pl_run_id p \<in> set ids) ps
        then Some (ForeignKeyViolation ''workflow_payloads_run_id_fkey'')
      else None)"

definition insert_payload :: "payload_row \<Rightarrow> unit store_op" where
  "insert_payload p s = (case payloads_violation (run_ids s) (payloads s @ [p]) of
       Some e \<Rightarrow> (Inl (store_error_from e), s)
     | None \<Rightarrow> (Inr (), s\<lparr>payloads := payloads s @ [p]\<rparr>))"

definition step_key :: "step_row \<Rightarrow> uuid \<times> string" where
  "step_key r = (sr_run_id r, sr_step_id r)"

definition steps_violation :: "uuid list \<Rightarrow> string list \<Rightarrow> step_row list \<Rightarrow> sql_error option" where
  "steps_violation ids ns rs =
     (if \<not> distinct (map sr_attempt_id rs) then Some (UniqueViolation ''step_runs_pkey'')
      else if \<not> distinct (map step_key (filter sr_is_latest rs))
        then Some (UniqueViolation ''idx_step_runs_latest'')
      else if \<not> list_all (\<lambda>r. sr_run_id r \<in> set ids) rs
        then Some (ForeignKeyViolation ''step_runs_run_id_fkey'')
      else if \<not> list_all (\<lambda>r. sr_namespace r \<in> set ns) rs
        then Some (ForeignKeyViolation ''fk_step_namespace'')
      else None)"

definition put_steps :: "step_row list \<Rightarrow> unit store_op" where
  "put_steps rs s = (case steps_violation (run_ids s) (ns_names s) rs of
       Some e \<Rightarrow> (Inl (store_error_from e), s)
     | None \<Rightarrow> (Inr (), s\<lparr>steps := rs\<rparr>))"

definition update_steps :: "(step_row \<Rightarrow> bool) \<Rightarrow> (step_row \<Rightarrow> step_row) \<Rightarrow> unit store_op" where
  "update_steps P f s = put_steps (sql_update P f (steps s)) s"

definition worker_online_text :: "string \<Rightarrow> bool" where
  "worker_online_text st = (st \<noteq> show_worker_status WkOffline)"

text \<open>Rows with a NULL host name or process id never collide in the partial unique index.\<close>

definition in_worker_index :: "worker_row \<Rightarrow> bool" where
  "in_worker_index r = (worker_online_text (kr_status r) \<and> kr_hostname r \<noteq> None \<and> kr_pid r \<noteq> None)"

definition worker_key :: "worker_row \<Rightarrow> string \<times> string \<times> string option \<times> int option" where
  "worker_key r = (kr_namespace r, kr_task_queue r, kr_hostname r, kr_pid r)"

definition workers_violation :: "string list \<Rightarrow> worker_row list \<Rightarrow> sql_error option" where
  "workers_violation ns rs =
     (if \<not> distinct (map kr_worker_id rs) then Some (UniqueViolation ''workers_pkey'')
      else if \<not> distinct (map worker_key (filter in_worker_index rs))
        then Some (UniqueViolation ''idx_workers_active_unique'')
      else if \<not> list_all (\<lambda>r. kr_namespace r \<in> set ns) rs
        then Some (ForeignKeyViolation ''fk_worker_namespace'')
      else None)"

definition put_workers :: "worker_row list \<Rightarrow> unit store_op" where
  "put_workers rs s = (case workers_violation (ns_names s) rs of
       Some e \<Rightarrow> (Inl (store_error_from e), s)
     | None \<Rightarrow> (Inr (), s\<lparr>workers := rs\<rparr>))"

definition update_workers :: "(worker_row \<Rightarrow> bool) \<Rightarrow> (worker_row \<Rightarrow> worker_row) \<Rightarrow> unit store_op" where
  "update_workers P f s = put_workers (sql_update P f (workers s)) s"

definition namespaces_violation :: "namespace_row list \<Rightarrow> sql_error option" where
  "namespaces_violation rs =
     (if \<not> distinct (map nr_namespace rs) then Some (UniqueViolation ''namespaces_namespace_key'')
      else if \<not> distinct (map nr_id rs) then Some (UniqueViolation ''namespaces_pkey'')
      else None)"

subsection \<open>Databases on which every constraint holds\<close>

definition wf_db :: "db \<Rightarrow> bool" where
  "wf_db s \<longleftrightarrow> runs_violation (ns_names s) (runs s) = None
     \<and> payloads_violation (run_ids s) (payloads s) = None
     \<and> steps_violation (run_ids s) (ns_names s) (steps s) = None
     \<and> workers_violation (ns_names s) (workers s) = None
     \<and> namespaces_violation (namespaces s) = None"

lemma runs_violation_None:
  "runs_violation ns rs = None \<longleftrightarrow>
     (\<forall>r\<in>set rs. chk_available_at r) \<and> distinct (map wr_run_id rs)
     \<and> distinct (map active_key (filter is_active rs))
     \<and> distinct (map firing_key (filter is_firing rs))
     \<and> (\<forall>r\<in>set rs. schedule_fk (map wr_run_id rs) r) \<and> (\<forall>r\<in>set rs. wr_namespace r \<in> set ns)"
  by (simp add: runs_violation_def list_all_iff)

lemma payloads_violation_None:
  "payloads_violation ids ps = None \<longleftrightarrow>
     distinct (map pl_run_id ps) \<and> (\<forall>p\<in>set ps. pl_run_id p \<in> set ids)"
  by (simp add: payloads_violation_def list_all_iff)

lemma steps_violation_None:
  "steps_violation ids ns rs = None \<longleftrightarrow>
     distinct (map sr_attempt_id rs) \<and> distinct (map step_key (filter sr_is_latest rs))
     \<and> (\<forall>r\<in>set rs. sr_run_id r \<in> set ids) \<and> (\<forall>r\<in>set rs. sr_namespace r \<in> set ns)"
  by (simp add: steps_violation_def list_all_iff)

lemma workers_violation_None:
  "workers_violation ns rs = None \<longleftrightarrow>
     distinct (map kr_worker_id rs) \<and> distinct (map worker_key (filter in_worker_index rs))
     \<and> (\<forall>r\<in>set rs. kr_namespace r \<in> set ns)"
  by (simp add: workers_violation_def list_all_iff)

lemma namespaces_violation_None:
  "namespaces_violation rs = None \<longleftrightarrow> distinct (map nr_namespace rs) \<and> distinct (map nr_id rs)"
  by (simp add: namespaces_violation_def)

lemmas violation_None = runs_violation_None payloads_violation_None steps_violation_None
  workers_violation_None namespaces_violation_None

text \<open>The contract "the key column is a key" on each table.\<close>

interpretation runs_tbl: keyed_table wr_run_id "\<lambda>t. \<exists>ns. runs_violation ns t = None"
  by unfold_locales (auto simp: runs_violation_None)

interpretation payloads_tbl: keyed_table pl_run_id "\<lambda>t. \<exists>ids. payloads_violation ids t = None"
  by unfold_locales (auto simp: payloads_violation_None)

interpretation steps_tbl: keyed_table sr_attempt_id "\<lambda>t. \<exists>ids ns. steps_violation ids ns t = None"
  by unfold_locales (auto simp: steps_violation_None)

interpretation workers_tbl: keyed_table kr_worker_id "\<lambda>t. \<exists>ns. workers_violation ns t = None"
  by unfold_locales (auto simp: workers_violation_None)

interpretation namespaces_tbl: keyed_table nr_namespace "\<lambda>t. namespaces_violation t = None"
  by unfold_locales (auto simp: namespaces_violation_None)

lemma wf_db_runs: "wf_db s \<Longrightarrow> \<exists>ns. runs_violation ns (runs s) = None"
  by (auto simp: wf_db_def)

lemma wf_db_payloads: "wf_db s \<Longrightarrow> \<exists>ids. payloads_violation ids (payloads s) = None"
  by (auto simp: wf_db_def)

lemma wf_db_steps: "wf_db s \<Longrightarrow> \<exists>ids ns. steps_violation ids ns (steps s) = None"
  by (auto simp: wf_db_def)

lemma wf_db_workers: "wf_db s \<Longrightarrow> \<exists>ns. workers_violation ns (workers s) = None"
  by (auto simp: wf_db_def)

lemmas find_run = runs_tbl.find_key [OF wf_db_runs]
lemmas find_run_and = runs_tbl.find_key_and [OF wf_db_runs]
lemmas run_unique = runs_tbl.row_unique [OF wf_db_runs]
lemmas find_worker = workers_tbl.find_key [OF wf_db_workers]
lemmas find_worker_and = workers_tbl.find_key_and [OF wf_db_workers]
lemmas worker_unique = workers_tbl.row_unique [OF wf_db_workers]

lemma latest_unique:
  assumes "wf_db s" and "r \<in> set (steps s)" and "r' \<in> set (steps s)"
    and "sr_is_latest r" and "sr_is_latest r'" and "step_key r = step_key r'"
  shows "r = r'"
proof -
  have "inj_on step_key (set (filter sr_is_latest (steps s)))"
    using assms(1) by (auto simp: wf_db_def steps_violation_None distinct_map)
  then show ?thesis using assms(2-) by (auto dest: inj_onD)
qed

subsection \<open>Statements keep the constraints\<close>

lemma put_runs_wf:
  assumes "wf_db s" and "set (run_ids s) \<subseteq> set (map wr_run_id rs)"
  shows "wf_db (snd (put_runs rs s))"
  using assms by (auto simp: put_runs_def wf_db_def violation_None split: option.splits)

lemma keeps_update_runs [keeps_rules]:
  "(\<And>r. wr_run_id (f r) = wr_run_id r) \<Longrightarrow> keeps wf_db (update_runs P f)"
  unfolding update_runs_def
  by (intro keepsI put_runs_wf) (simp_all add: map_sql_update)

lemma keeps_insert_run [keeps_rules]: "keeps wf_db (insert_run r)"
  unfolding insert_run_def by (intro keepsI put_runs_wf) auto

lemma keeps_insert_payload [keeps_rules]: "keeps wf_db (insert_payload p)"
  by (intro keepsI) (auto simp: insert_payload_def wf_db_def split: option.splits)

lemma keeps_put_steps [keeps_rules]: "keeps wf_db (put_steps rs)"
  by (intro keepsI) (auto simp: put_steps_def wf_db_def split: option.splits)

lemma keeps_update_steps [keeps_rules]: "keeps wf_db (update_steps P f)"
  by (intro keepsI) (auto simp: update_steps_def put_steps_def wf_db_def split: option.splits)

lemma keeps_update_workers [keeps_rules]: "keeps wf_db (update_workers P f)"
  by (intro keepsI) (auto simp: update_workers_def put_workers_def wf_db_def split: option.splits)

lemma put_runs_Inr: "put_runs rs s = (Inr (), s') \<Longrightarrow> s' = s\<lparr>runs := rs\<rparr>"
  by (auto simp: put_runs_def split: option.splits)

lemma put_runs_Inl: "put_runs rs s = (Inl e, s') \<Longrightarrow> s' = s"
  by (auto simp: put_runs_def split: option.splits)

lemma update_runs_Inr: "update_runs P f s = (Inr (), s') \<Longrightarrow> s' = s\<lparr>runs := sql_update P f (runs s)\<rparr>"
  by (auto simp: update_runs_def dest: put_runs_Inr)

lemma update_runs_Inl: "update_runs P f s = (Inl e, s') \<Longrightarrow> s' = s"
  by (auto simp: update_runs_def dest: put_runs_Inl)

text \<open>
  A statement never fails when it leaves the indexed columns alone or takes rows out of the partial
  indexes: what finishing, parking and rescheduling a run do.
\<close>

definition narrows :: "run_row \<Rightarrow> run_row \<Rightarrow> bool" where
  "narrows r r' \<longleftrightarrow> wr_run_id r' = wr_run_id r \<and> wr_namespace r' = wr_namespace r
     \<and> wr_external_id r' = wr_external_id r \<and> wr_schedule_id r' = wr_schedule_id r
     \<and> chk_available_at r' \<and> (is_active r' \<longrightarrow> is_active r)
     \<and> (wr_available_at r' = None \<or> wr_schedule_id r = None \<or> wr_available_at r' = wr_available_at r)"

lemma update_runs_narrow:
  assumes wf: "wf_db s" and id: "\<And>r. wr_run_id (f r) = wr_run_id r"
    and narrow: "\<And>r. r \<in> set (runs s) \<Longrightarrow> P r \<Longrightarrow> narrows r (f r)"
  shows "update_runs P f s = (Inr (), s\<lparr>runs := sql_update P f (runs s)\<rparr>)"
proof -
  let ?rs = "sql_update P f (runs s)"
  have ids: "map wr_run_id ?rs = run_ids s" using id by (simp add: map_sql_update)
  have old: "runs_violation (ns_names s) (runs s) = None" using wf by (simp add: wf_db_def)
  have n: "narrows r (f r)" if "r \<in> set (runs s)" "P r" for r using narrow that by blast
  have "runs_violation (ns_names s) ?rs = None"
    unfolding runs_violation_None ids
  proof (intro conjI)
    show "\<forall>r\<in>set ?rs. chk_available_at r"
      using old n by (auto simp: runs_violation_None in_sql_update narrows_def)
    show "distinct (run_ids s)" using old by (simp add: runs_violation_None)
    show "distinct (map active_key (filter is_active ?rs))"
      using old n by (intro distinct_map_filter_sql_update)
        (auto simp: runs_violation_None narrows_def active_key_def)
    show "distinct (map firing_key (filter is_firing ?rs))"
    proof (rule distinct_map_filter_sql_update)
      show "distinct (map firing_key (filter is_firing (runs s)))"
        using old by (simp add: runs_violation_None)
      fix r assume "r \<in> set (runs s)" "P r" "is_firing (f r)"
      with n [of r] show "is_firing r \<and> firing_key (f r) = firing_key r"
        unfolding narrows_def firing_key_def is_firing_def by auto
    qed
    show "\<forall>r\<in>set ?rs. schedule_fk (run_ids s) r"
      using old n by (auto simp: runs_violation_None in_sql_update narrows_def schedule_fk_def)
    show "\<forall>r\<in>set ?rs. wr_namespace r \<in> set (ns_names s)"
      using old n by (auto simp: runs_violation_None in_sql_update narrows_def)
  qed
  then show ?thesis by (simp add: update_runs_def put_runs_def)
qed

text \<open>Likewise for step rows whose key columns and \<open>is_latest\<close> mark stay or are cleared.\<close>

lemma update_steps_narrow:
  assumes wf: "wf_db s"
    and narrow: "\<And>r. sr_attempt_id (f r) = sr_attempt_id r \<and> step_key (f r) = step_key r
                   \<and> sr_namespace (f r) = sr_namespace r \<and> (sr_is_latest (f r) \<longrightarrow> sr_is_latest r)"
  shows "update_steps P f s = (Inr (), s\<lparr>steps := sql_update P f (steps s)\<rparr>)"
proof -
  have old: "steps_violation (run_ids s) (ns_names s) (steps s) = None" using wf by (simp add: wf_db_def)
  have rid: "sr_run_id (f r) = sr_run_id r" for r using narrow [of r] by (simp add: step_key_def)
  have "steps_violation (run_ids s) (ns_names s) (sql_update P f (steps s)) = None"
    unfolding steps_violation_None
  proof (intro conjI)
    show "distinct (map sr_attempt_id (sql_update P f (steps s)))"
      using old narrow by (simp add: map_sql_update steps_violation_None)
    show "distinct (map step_key (filter sr_is_latest (sql_update P f (steps s))))"
      using old narrow by (intro distinct_map_filter_sql_update) (auto simp: steps_violation_None)
    show "\<forall>r\<in>set (sql_update P f (steps s)). sr_run_id r \<in> set (run_ids s)"
      using old rid by (auto simp: steps_violation_None in_sql_update)
    show "\<forall>r\<in>set (sql_update P f (steps s)). sr_namespace r \<in> set (ns_names s)"
      using old narrow by (auto simp: steps_violation_None in_sql_update)
  qed
  then show ?thesis by (simp add: update_steps_def put_steps_def)
qed

end
