(* ===== verification/WorkflowStore.thy ===== *)
theory WorkflowStore
  imports Schema
begin

text \<open>
  The workflow repository: \<open>crates/kagzi-store/src/postgres/workflow/\<close> (\<open>state.rs\<close>, \<open>queue.rs\<close>,
  \<open>helpers.rs\<close>, \<open>mod.rs\<close>). One definition per method, named after it with the prefix \<open>wf_\<close>; every
  SQL statement is one call of \<open>update_runs\<close>, \<open>insert_run\<close>, \<open>insert_payload\<close> or a query on the rows.

  Arguments that are not in the source: \<open>now\<close> is what \<open>NOW()\<close> returns in the transaction, \<open>new_id\<close> what
  \<open>Uuid::now_v7()\<close> returns, \<open>show_uuid\<close> the \<open>Display\<close> instance of \<open>Uuid\<close>, and \<open>locked\<close> says which rows
  another transaction has locked (\<open>FOR UPDATE SKIP LOCKED\<close>). \<open>ORDER BY\<close> keeps the order of the table
  on equal keys, where PostgreSQL may return any order.

  The lemmas: every method keeps the constraints (\<open>wf_db\<close>) and, but for \<open>update\<close>, the lifecycle
  invariant \<open>run_ok\<close>; methods that take a run out of the active set never break a constraint; \<open>poll\<close>
  claims a claimable row with the least \<open>available_at\<close>.
\<close>

subsection \<open>Reading rows\<close>

definition validate_payload_size :: "store_config \<Rightarrow> bytes \<Rightarrow> string \<Rightarrow> store_error + unit" where
  "validate_payload_size cfg b ctx =
     (if payload_max_size_bytes cfg < length b
      then Inl (InvalidArgument (FmtPayloadSize ctx (payload_max_size_bytes cfg) (length b)))
      else Inr ())"

definition run_into_model :: "run_row \<times> payload_row \<Rightarrow> store_error + workflow_run" where
  "run_into_model = (\<lambda>(w, p). case parse_status (wr_status w) of
       None \<Rightarrow> Inl (InvalidState (FmtInvalid ''workflow status'' (wr_status w)))
     | Some st \<Rightarrow> Inr \<lparr>
         w_run_id = wr_run_id w, w_namespace = wr_namespace w, w_external_id = wr_external_id w,
         w_task_queue = wr_task_queue w, w_workflow_type = wr_workflow_type w, w_status = st,
         w_input = pl_input p, w_output = pl_output p, w_locked_by = wr_locked_by w,
         w_attempts = wr_attempts w, w_error = wr_error w, w_created_at = Some (wr_created_at w),
         w_started_at = wr_started_at w, w_finished_at = wr_finished_at w,
         w_available_at = wr_available_at w, w_version = wr_version w,
         w_parent_step_attempt_id = wr_parent_step_attempt_id w,
         w_retry_policy = Option.bind (wr_retry_policy w) policy_from_value,
         w_cron_expr = wr_cron_expr w, w_schedule_id = wr_schedule_id w,
         w_last_fired_at = wr_last_fired_at w, w_max_catchup = wr_max_catchup w\<rparr>)"

definition runs_with_payload :: "db \<Rightarrow> (run_row \<times> payload_row) list" where
  "runs_with_payload s =
     concat (map (\<lambda>w. map (Pair w) (filter (\<lambda>p. pl_run_id p = wr_run_id w) (payloads s))) (runs s))"

definition wf_find_by_id :: "uuid \<Rightarrow> string \<Rightarrow> workflow_run option store_op" where
  "wf_find_by_id run_id ns = query_op (\<lambda>s.
     case List.find (\<lambda>(w, p). wr_run_id w = run_id \<and> wr_namespace w = ns) (runs_with_payload s) of
       None \<Rightarrow> Inr None
     | Some r \<Rightarrow> map_sum id Some (run_into_model r))"

definition wf_get_retry_policy :: "uuid \<Rightarrow> retry_policy option store_op" where
  "wf_get_retry_policy run_id = get_op (\<lambda>s.
     Option.bind (Option.bind (List.find (\<lambda>w. wr_run_id w = run_id) (runs s)) wr_retry_policy)
       policy_from_value)"

definition wf_find_active_by_external_id :: "string \<Rightarrow> string \<Rightarrow> uuid option store_op" where
  "wf_find_active_by_external_id ns ext = get_op (\<lambda>s.
     map_option wr_run_id (List.find (\<lambda>w. wr_namespace w = ns \<and> wr_external_id w = ext
       \<and> wr_status w \<notin> {show_status WsCompleted, show_status WsFailed, show_status WsCancelled})
       (runs s)))"

definition wf_get_namespace :: "uuid \<Rightarrow> string option store_op" where
  "wf_get_namespace run_id = get_op (\<lambda>s.
     map_option wr_namespace (List.find (\<lambda>w. wr_run_id w = run_id) (runs s)))"

definition wf_count :: "string \<Rightarrow> string option \<Rightarrow> int store_op" where
  "wf_count ns filter_status = get_op (\<lambda>s. int (case filter_status of
       Some st \<Rightarrow> sql_count (\<lambda>w. wr_namespace w = ns \<and> wr_status w = st) (runs s)
     | None \<Rightarrow> sql_count (\<lambda>w. wr_namespace w = ns) (runs s)))"

definition check_workflow_state :: "uuid \<Rightarrow> string \<Rightarrow> workflow_exists_result store_op" where
  "check_workflow_state run_id ns = query_op (\<lambda>s.
     case List.find (\<lambda>w. wr_run_id w = run_id \<and> wr_namespace w = ns) (runs s) of
       Some r \<Rightarrow> (case parse_status (wr_status r) of
           None \<Rightarrow> Inl (InvalidState (FmtInvalid ''workflow status'' (wr_status r)))
         | Some st \<Rightarrow> Inr \<lparr>we_exists = True, we_status = Some st, we_locked_by = wr_locked_by r\<rparr>)
     | None \<Rightarrow> Inr \<lparr>we_exists = False, we_status = None, we_locked_by = None\<rparr>)"

text \<open>
  \<open>list\<close> orders by \<open>(created_at, run_id)\<close> descending; \<open>page_size + 1\<close> is computed in \<open>i32\<close> and
  \<open>page_size as usize\<close> in 64 bits.
\<close>

definition newest_first :: "cursor \<Rightarrow> cursor \<Rightarrow> bool" where
  "newest_first a b = (b < a)"

definition run_cursor :: "run_row \<times> payload_row \<Rightarrow> cursor" where
  "run_cursor = (\<lambda>(w, p). (wr_created_at w, wr_run_id w))"

definition list_filter :: "list_workflows_params \<Rightarrow> run_row \<times> payload_row \<Rightarrow> bool" where
  "list_filter ps = (\<lambda>(w, p). wr_namespace w = lw_namespace ps
     \<and> (case lw_filter_status ps of None \<Rightarrow> True | Some st \<Rightarrow> wr_status w = st)
     \<and> (case lw_schedule_id ps of None \<Rightarrow> True | Some i \<Rightarrow> wr_schedule_id w = Some i))"

definition wf_list ::
  "list_workflows_params \<Rightarrow> (workflow_run, cursor) paginated_result store_op" where
  "wf_list ps = query_op (\<lambda>s.
     let limit = as_i32 (lw_page_size ps + 1);
         size = nat (as_u64 (lw_page_size ps));
         found = order_by newest_first run_cursor
                   (filter (\<lambda>r. list_filter ps r \<and> after_cursor newest_first run_cursor (lw_cursor ps) r)
                     (runs_with_payload s))
     in res_bind (sql_limit limit found) (\<lambda>rows.
        res_bind (collect_results (map run_into_model (take size rows))) (\<lambda>items.
        Inr \<lparr>pr_items = items,
             pr_next_cursor = (if items = [] then None
               else map_option (\<lambda>t. (t, w_run_id (last items))) (w_created_at (last items))),
             pr_has_more = size < length rows\<rparr>)))"

subsection \<open>Creating runs\<close>

definition run_defaults :: "timestamp \<Rightarrow> uuid \<Rightarrow> run_row" where
  "run_defaults now run_id = \<lparr>
     wr_run_id = run_id, wr_namespace = ''default'', wr_external_id = [], wr_task_queue = [],
     wr_workflow_type = [], wr_status = show_status WsPending, wr_locked_by = None, wr_attempts = 0,
     wr_error = None, wr_created_at = now, wr_started_at = None, wr_finished_at = None,
     wr_available_at = Some now, wr_version = None, wr_parent_step_attempt_id = None,
     wr_retry_policy = None, wr_cron_expr = None, wr_schedule_id = None, wr_last_fired_at = None,
     wr_max_catchup = 50\<rparr>"

definition new_run :: "timestamp \<Rightarrow> create_workflow \<Rightarrow> run_row" where
  "new_run now p = (run_defaults now (cw_run_id p))\<lparr>
     wr_external_id := cw_external_id p, wr_task_queue := cw_task_queue p,
     wr_workflow_type := cw_workflow_type p, wr_namespace := cw_namespace p,
     wr_version := Some (cw_version p), wr_retry_policy := cw_retry_policy p,
     wr_available_at := Some now, wr_cron_expr := cw_cron_expr p,
     wr_schedule_id := cw_schedule_id p\<rparr>"

definition insert_workflow :: "timestamp \<Rightarrow> create_workflow \<Rightarrow> uuid store_op" where
  "insert_workflow now p =
     bind_op (insert_run (new_run now p)) (\<lambda>_.
     bind_op (insert_payload \<lparr>pl_run_id = cw_run_id p, pl_input = cw_input p, pl_output = None\<rparr>) (\<lambda>_.
     ret_op (cw_run_id p)))"

definition wf_create :: "store_config \<Rightarrow> timestamp \<Rightarrow> create_workflow \<Rightarrow> uuid store_op" where
  "wf_create cfg now p =
     bind_op (lift_op (validate_payload_size cfg (cw_input p) ''Workflow input'')) (\<lambda>_.
     transact (insert_workflow now p))"

fun create_all :: "store_config \<Rightarrow> timestamp \<Rightarrow> create_workflow list \<Rightarrow> uuid list store_op" where
  "create_all cfg now [] = ret_op []"
| "create_all cfg now (p # ps) =
     bind_op (lift_op (validate_payload_size cfg (cw_input p) ''Workflow input'')) (\<lambda>_.
     bind_op (insert_workflow now p) (\<lambda>i.
     bind_op (create_all cfg now ps) (\<lambda>is. ret_op (i # is))))"

definition wf_create_batch :: "store_config \<Rightarrow> timestamp \<Rightarrow> create_workflow list \<Rightarrow> uuid list store_op" where
  "wf_create_batch cfg now ps = (if ps = [] then ret_op [] else transact (create_all cfg now ps))"

subsection \<open>Finishing runs\<close>

text \<open>\<open>UPDATE \<dots> RETURNING\<close>: the number of rows returned.\<close>

definition update_runs_count ::
  "(run_row \<Rightarrow> bool) \<Rightarrow> (run_row \<Rightarrow> run_row) \<Rightarrow> nat store_op" where
  "update_runs_count P f s = bind_op (update_runs P f) (\<lambda>_. ret_op (sql_count P (runs s))) s"

definition set_cancelled :: "timestamp \<Rightarrow> run_row \<Rightarrow> run_row" where
  "set_cancelled now r = r\<lparr>wr_status := show_status WsCancelled, wr_finished_at := Some now,
     wr_locked_by := None, wr_available_at := None\<rparr>"

definition wf_cancel :: "timestamp \<Rightarrow> uuid \<Rightarrow> string \<Rightarrow> bool store_op" where
  "wf_cancel now run_id ns = transact (
     bind_op (update_runs_count (\<lambda>r. wr_run_id r = run_id \<and> wr_namespace r = ns
                \<and> wr_status r = show_status WsRunning) (set_cancelled now)) (\<lambda>running.
     if 0 < running then ret_op True
     else bind_op (update_runs_count (\<lambda>r. wr_run_id r = run_id \<and> wr_namespace r = ns
                \<and> wr_status r \<in> {show_status WsPending, show_status WsSleeping}) (set_cancelled now))
          (\<lambda>non_running. ret_op (0 < non_running))))"

definition set_completed :: "timestamp \<Rightarrow> run_row \<Rightarrow> run_row" where
  "set_completed now r = r\<lparr>wr_status := show_status WsCompleted, wr_finished_at := Some now,
     wr_locked_by := None, wr_available_at := None\<rparr>"

text \<open>Writing an output touches no constrained column of \<open>workflow_payloads\<close>.\<close>

definition set_output :: "uuid \<Rightarrow> bytes \<Rightarrow> unit store_op" where
  "set_output run_id out s = (Inr (), s\<lparr>payloads :=
     sql_update (\<lambda>p. pl_run_id p = run_id) (\<lambda>p. p\<lparr>pl_output := Some out\<rparr>) (payloads s)\<rparr>)"

abbreviation running_row :: "uuid \<Rightarrow> run_row \<Rightarrow> bool" where
  "running_row run_id r \<equiv> wr_run_id r = run_id \<and> wr_status r = show_status WsRunning"

definition wf_complete :: "store_config \<Rightarrow> timestamp \<Rightarrow> uuid \<Rightarrow> bytes \<Rightarrow> unit store_op" where
  "wf_complete cfg now run_id out =
     bind_op (lift_op (validate_payload_size cfg out ''Workflow output'')) (\<lambda>_.
     transact (
       bind_op (update_runs (running_row run_id) (set_completed now)) (\<lambda>_.
       set_output run_id out)))"

definition set_failed :: "timestamp \<Rightarrow> string \<Rightarrow> run_row \<Rightarrow> run_row" where
  "set_failed now err r = r\<lparr>wr_status := show_status WsFailed, wr_error := Some err,
     wr_finished_at := Some now, wr_locked_by := None, wr_available_at := None\<rparr>"

definition set_failed_tx ::
  "timestamp \<Rightarrow> uuid \<Rightarrow> string \<Rightarrow> (string \<times> string \<times> string) option store_op" where
  "set_failed_tx now run_id err s =
     bind_op (update_runs (running_row run_id) (set_failed now err)) (\<lambda>_. ret_op
       (map_option (\<lambda>r. (wr_namespace r, wr_task_queue r, wr_workflow_type r))
         (List.find (running_row run_id) (runs s)))) s"

definition wf_fail :: "timestamp \<Rightarrow> uuid \<Rightarrow> string \<Rightarrow> unit store_op" where
  "wf_fail now run_id err = transact (bind_op (set_failed_tx now run_id err) (\<lambda>_. ret_op ()))"

definition wf_mark_exhausted :: "timestamp \<Rightarrow> uuid \<Rightarrow> string \<Rightarrow> unit store_op" where
  "wf_mark_exhausted now run_id err =
     transact (bind_op (set_failed_tx now run_id err) (\<lambda>_. ret_op ()))"

definition wf_mark_exhausted_with_increment :: "timestamp \<Rightarrow> uuid \<Rightarrow> string \<Rightarrow> unit store_op" where
  "wf_mark_exhausted_with_increment now run_id err s =
     (if list_ex (\<lambda>r. running_row run_id r \<and> pg_int4 (wr_attempts r + 1) = None) (runs s)
      then (Inl out_of_range, s)
      else update_runs (running_row run_id)
             (\<lambda>r. (set_failed now err r)\<lparr>wr_attempts := wr_attempts r + 1\<rparr>) s)"

subsection \<open>Parking and rescheduling runs\<close>

text \<open>The delay is in microseconds; a timestamp out of range is an error only if a row matches.\<close>

definition park_run :: "timestamp \<Rightarrow> uuid \<Rightarrow> workflow_status \<Rightarrow> int \<Rightarrow> unit store_op" where
  "park_run now run_id st us s = (case pg_ts_add now us of
       None \<Rightarrow> (if list_ex (running_row run_id) (runs s) then (Inl out_of_range, s) else (Inr (), s))
     | Some t \<Rightarrow> update_runs (running_row run_id) (\<lambda>r. r\<lparr>wr_status := show_status st,
                   wr_available_at := Some t, wr_locked_by := None\<rparr>) s)"

definition wf_schedule_sleep :: "timestamp \<Rightarrow> uuid \<Rightarrow> int \<Rightarrow> unit store_op" where
  "wf_schedule_sleep now run_id duration_secs =
     transact (park_run now run_id WsSleeping (duration_secs * 1000000))"

definition wf_schedule_retry :: "timestamp \<Rightarrow> uuid \<Rightarrow> int \<Rightarrow> unit store_op" where
  "wf_schedule_retry now run_id delay_ms =
     transact (park_run now run_id WsPending (delay_ms * 1000))"

text \<open>\<open>GREATEST\<close> ignores a NULL argument.\<close>

definition extended_from :: "timestamp \<Rightarrow> run_row \<Rightarrow> timestamp" where
  "extended_from now r = (case wr_available_at r of None \<Rightarrow> now | Some t \<Rightarrow> max t now)"

definition locked_by_worker :: "string \<Rightarrow> run_row \<Rightarrow> bool" where
  "locked_by_worker worker_id r =
     (wr_locked_by r = Some worker_id \<and> wr_status r = show_status WsRunning)"

definition wf_extend_visibility :: "timestamp \<Rightarrow> string \<Rightarrow> int \<Rightarrow> nat store_op" where
  "wf_extend_visibility now worker_id extension_secs s =
     (if list_ex (\<lambda>r. locked_by_worker worker_id r
                    \<and> pg_ts_add (extended_from now r) (extension_secs * 1000000) = None) (runs s)
      then (Inl out_of_range, s)
      else update_runs_count (locked_by_worker worker_id)
             (\<lambda>r. r\<lparr>wr_available_at := Some (extended_from now r + extension_secs * 1000000)\<rparr>) s)"

subsection \<open>Polling\<close>

definition claimable_text :: "string \<Rightarrow> bool" where
  "claimable_text st = (st \<in> {show_status WsPending, show_status WsSleeping, show_status WsRunning})"

definition claimable :: "timestamp \<Rightarrow> string \<Rightarrow> string \<Rightarrow> string list \<Rightarrow> run_row \<Rightarrow> bool" where
  "claimable now ns queue types r =
     (wr_namespace r = ns \<and> wr_task_queue r = queue \<and> claimable_text (wr_status r)
      \<and> (case wr_available_at r of None \<Rightarrow> False | Some t \<Rightarrow> t \<le> now)
      \<and> (types = [] \<or> wr_workflow_type r \<in> set types))"

definition available_key :: "run_row \<Rightarrow> timestamp" where
  "available_key r = (case wr_available_at r of None \<Rightarrow> 0 | Some t \<Rightarrow> t)"

definition claim_run :: "timestamp \<Rightarrow> string \<Rightarrow> timestamp \<Rightarrow> run_row \<Rightarrow> run_row" where
  "claim_run now worker_id until r = r\<lparr>wr_status := show_status WsRunning,
     wr_locked_by := Some worker_id, wr_available_at := Some until,
     wr_started_at := (case wr_started_at r of None \<Rightarrow> Some now | Some t \<Rightarrow> Some t),
     wr_attempts := wr_attempts r + 1\<rparr>"

text \<open>
  The statement commits before its row is decoded: a run without a payload row is claimed and the
  caller still gets an error (\<open>input!\<close> is decoded as non-null).
\<close>

definition wf_poll_workflow ::
  "(uuid \<Rightarrow> bool) \<Rightarrow> timestamp \<Rightarrow> string \<Rightarrow> string \<Rightarrow> string \<Rightarrow> string list \<Rightarrow> int
    \<Rightarrow> claimed_workflow option store_op" where
  "wf_poll_workflow locked now ns queue worker_id types visibility_timeout_secs s =
     (case order_by (<) available_key
             (filter (\<lambda>r. claimable now ns queue types r \<and> \<not> locked (wr_run_id r)) (runs s)) of
        [] \<Rightarrow> (Inr None, s)
      | r # _ \<Rightarrow> (case (pg_ts_add now (visibility_timeout_secs * 1000000), pg_int4 (wr_attempts r + 1)) of
            (Some until, Some _) \<Rightarrow>
              (case update_runs (\<lambda>w. wr_run_id w = wr_run_id r) (claim_run now worker_id until) s of
                 (Inl e, s') \<Rightarrow> (Inl e, s')
               | (Inr _, s') \<Rightarrow>
                   (case List.find (\<lambda>p. pl_run_id p = wr_run_id r) (payloads s') of
                      None \<Rightarrow> (Inl (Database UnexpectedNull), s')
                    | Some p \<Rightarrow> (Inr (Some \<lparr>cl_run_id = wr_run_id r,
                        cl_workflow_type = wr_workflow_type r, cl_input = pl_input p,
                        cl_locked_by = Some worker_id\<rparr>), s')))
          | _ \<Rightarrow> (Inl out_of_range, s)))"

subsection \<open>Schedules\<close>

definition wf_find_due_schedules :: "string \<Rightarrow> timestamp \<Rightarrow> int \<Rightarrow> workflow_run list store_op" where
  "wf_find_due_schedules ns now limit = query_op (\<lambda>s.
     res_bind (sql_limit limit (order_by (<) (available_key \<circ> fst)
       (filter (\<lambda>(w, p). (ns = ''*'' \<or> wr_namespace w = ns) \<and> wr_status w = show_status WsScheduled
          \<and> (case wr_available_at w of None \<Rightarrow> False | Some t \<Rightarrow> t \<le> now)) (runs_with_payload s))))
     (\<lambda>rows. collect_results (map run_into_model rows)))"

definition instance_run ::
  "(uuid \<Rightarrow> string) \<Rightarrow> timestamp \<Rightarrow> uuid \<Rightarrow> timestamp \<Rightarrow> run_row \<Rightarrow> run_row" where
  "instance_run show_uuid now new_id fire_at t = (run_defaults now new_id)\<lparr>
     wr_namespace := wr_namespace t, wr_external_id := ''schedule-instance-'' @ show_uuid new_id,
     wr_task_queue := wr_task_queue t, wr_workflow_type := wr_workflow_type t,
     wr_status := show_status WsPending, wr_available_at := Some fire_at,
     wr_schedule_id := Some (wr_run_id t), wr_version := wr_version t,
     wr_retry_policy := wr_retry_policy t\<rparr>"

text \<open>
  One statement with three CTEs: the run is inserted even when the template has no payload row, and
  then no identifier is returned.
\<close>

definition wf_create_schedule_instance ::
  "(uuid \<Rightarrow> string) \<Rightarrow> timestamp \<Rightarrow> uuid \<Rightarrow> uuid \<Rightarrow> timestamp \<Rightarrow> uuid option store_op" where
  "wf_create_schedule_instance show_uuid now new_id template_run_id fire_at s =
     (case List.find (\<lambda>r. wr_run_id r = template_run_id) (runs s) of
        None \<Rightarrow> (Inr None, s)
      | Some t \<Rightarrow>
          if list_ex (\<lambda>r. wr_schedule_id r = Some template_run_id \<and> wr_available_at r = Some fire_at)
               (runs s)
          then (Inr None, s)
          else transact (bind_op (insert_run (instance_run show_uuid now new_id fire_at t)) (\<lambda>_.
                 case List.find (\<lambda>p. pl_run_id p = template_run_id) (payloads s) of
                   None \<Rightarrow> ret_op None
                 | Some p \<Rightarrow> bind_op (insert_payload
                     \<lparr>pl_run_id = new_id, pl_input = pl_input p, pl_output = None\<rparr>)
                     (\<lambda>_. ret_op (Some new_id)))) s)"

definition wf_update_next_fire :: "uuid \<Rightarrow> timestamp \<Rightarrow> timestamp option \<Rightarrow> unit store_op" where
  "wf_update_next_fire run_id next_fire_at last_fired_at = (case last_fired_at of
       Some l \<Rightarrow> update_runs (\<lambda>r. wr_run_id r = run_id)
         (\<lambda>r. r\<lparr>wr_available_at := Some next_fire_at, wr_last_fired_at := Some l\<rparr>)
     | None \<Rightarrow> update_runs (\<lambda>r. wr_run_id r = run_id) (\<lambda>r. r\<lparr>wr_available_at := Some next_fire_at\<rparr>))"

definition wf_update :: "uuid \<Rightarrow> workflow_run \<Rightarrow> unit store_op" where
  "wf_update run_id w = update_runs (\<lambda>r. wr_run_id r = run_id) (\<lambda>r. r\<lparr>
     wr_status := show_status (w_status w), wr_available_at := w_available_at w,
     wr_cron_expr := w_cron_expr w, wr_schedule_id := w_schedule_id w,
     wr_max_catchup := w_max_catchup w, wr_last_fired_at := w_last_fired_at w\<rparr>)"

text \<open>
  \<open>delete\<close> runs two statements, each in its own transaction. Deleting a run clears the
  \<open>schedule_id\<close> of its instances, deletes its payload, and is refused while steps refer to it.
\<close>

definition delete_payload :: "uuid \<Rightarrow> unit store_op" where
  "delete_payload run_id s =
     (Inr (), s\<lparr>payloads := filter (\<lambda>p. pl_run_id p \<noteq> run_id) (payloads s)\<rparr>)"

definition delete_run :: "uuid \<Rightarrow> unit store_op" where
  "delete_run run_id s =
     (if \<not> list_ex (\<lambda>r. wr_run_id r = run_id) (runs s) then (Inr (), s)
      else if list_ex (\<lambda>r. sr_run_id r = run_id) (steps s)
        then (Inl (store_error_from (ForeignKeyViolation ''step_runs_run_id_fkey'')), s)
      else (Inr (), s\<lparr>
        runs := sql_update (\<lambda>r. wr_schedule_id r = Some run_id) (\<lambda>r. r\<lparr>wr_schedule_id := None\<rparr>)
                  (filter (\<lambda>r. wr_run_id r \<noteq> run_id) (runs s)),
        payloads := filter (\<lambda>p. pl_run_id p \<noteq> run_id) (payloads s)\<rparr>))"

definition wf_delete :: "uuid \<Rightarrow> unit store_op" where
  "wf_delete run_id = bind_op (delete_payload run_id) (\<lambda>_. delete_run run_id)"

subsection \<open>Every method keeps the constraints of the schema\<close>

lemmas wf_read_defs = wf_find_by_id_def wf_get_retry_policy_def wf_find_active_by_external_id_def
  wf_get_namespace_def wf_count_def check_workflow_state_def wf_list_def wf_find_due_schedules_def

lemma reads_keep [keeps_rules]:
  "keeps I (wf_find_by_id i ns)" "keeps I (wf_get_retry_policy i)"
  "keeps I (wf_find_active_by_external_id ns ext)" "keeps I (wf_get_namespace i)"
  "keeps I (wf_count ns st)" "keeps I (check_workflow_state i ns)" "keeps I (wf_list ps)"
  "keeps I (wf_find_due_schedules ns t n)"
  by (simp_all add: wf_read_defs keeps_rules)

lemma keeps_update_count [keeps_rules]:
  "keeps I (update_runs P f) \<Longrightarrow> keeps I (update_runs_count P f)"
  by (auto simp: keeps_def update_runs_count_def bind_op_def split: prod.splits sum.splits)

lemma keeps_set_failed_tx [keeps_rules]:
  "keeps I (update_runs (running_row i) (set_failed now err)) \<Longrightarrow> keeps I (set_failed_tx now i err)"
  by (auto simp: keeps_def set_failed_tx_def bind_op_def split: prod.splits sum.splits)

lemma keeps_insert_workflow [keeps_rules]: "keeps wf_db (insert_workflow now p)"
  unfolding insert_workflow_def by (intro keeps_rules)

lemma keeps_create [keeps_rules]: "keeps wf_db (wf_create cfg now p)"
  unfolding wf_create_def by (intro keeps_rules)

lemma keeps_create_all [keeps_rules]: "keeps wf_db (create_all cfg now ps)"
proof (induction ps)
  case Nil
  show ?case unfolding create_all.simps by (rule keeps_rules)
next
  case (Cons p ps)
  show ?case unfolding create_all.simps by (intro keeps_rules Cons)
qed

lemma keeps_create_batch [keeps_rules]: "keeps wf_db (wf_create_batch cfg now ps)"
  unfolding wf_create_batch_def by (intro keeps_rules)

lemma keeps_set_output [keeps_rules]: "keeps wf_db (set_output i out)"
  by (rule keepsI)
    (auto simp: set_output_def wf_db_def payloads_violation_None map_sql_update in_sql_update)

lemma keeps_cancel [keeps_rules]: "keeps wf_db (wf_cancel now i ns)"
  unfolding wf_cancel_def by (intro keeps_rules) (simp_all add: set_cancelled_def)

lemma keeps_complete [keeps_rules]: "keeps wf_db (wf_complete cfg now i out)"
  unfolding wf_complete_def by (intro keeps_rules) (simp_all add: set_completed_def)

lemma keeps_wf_fail [keeps_rules]:
  "keeps wf_db (wf_fail now i err)" "keeps wf_db (wf_mark_exhausted now i err)"
  unfolding wf_fail_def wf_mark_exhausted_def
  by (intro keeps_rules; simp add: set_failed_def)+

lemma keeps_guarded: "keeps I m \<Longrightarrow> keeps I (\<lambda>s. if b s then (Inl e, s) else m s)"
  by (simp add: keeps_def)

lemma keeps_exhausted_increment [keeps_rules]:
  "keeps wf_db (wf_mark_exhausted_with_increment now i err)"
  unfolding wf_mark_exhausted_with_increment_def
  by (intro keeps_guarded keeps_rules) (simp add: set_failed_def)

lemma keeps_park [keeps_rules]: "keeps wf_db (park_run now i st us)"
proof (rule keepsI)
  fix s assume "wf_db s"
  then show "wf_db (snd (park_run now i st us s))"
    unfolding park_run_def
    by (auto split: option.splits intro!: keepsD [OF keeps_update_runs])
qed

lemma keeps_sleep_retry [keeps_rules]:
  "keeps wf_db (wf_schedule_sleep now i n)" "keeps wf_db (wf_schedule_retry now i n)"
  unfolding wf_schedule_sleep_def wf_schedule_retry_def by (intro keeps_rules)+

lemma keeps_extend [keeps_rules]: "keeps wf_db (wf_extend_visibility now w n)"
  unfolding wf_extend_visibility_def
  by (intro keeps_guarded keeps_rules) simp

lemma poll_snd:
  "snd (wf_poll_workflow locked now ns queue worker_id types vt s) = s
   \<or> (\<exists>r until. r \<in> set (runs s) \<and> claimable now ns queue types r \<and> \<not> locked (wr_run_id r)
        \<and> pg_ts_add now (vt * 1000000) = Some until
        \<and> snd (wf_poll_workflow locked now ns queue worker_id types vt s)
            = snd (update_runs (\<lambda>w. wr_run_id w = wr_run_id r) (claim_run now worker_id until) s))"
proof (cases "order_by (<) available_key
                (filter (\<lambda>r. claimable now ns queue types r \<and> \<not> locked (wr_run_id r)) (runs s))")
  case Nil
  show ?thesis unfolding wf_poll_workflow_def Nil by simp
next
  case (Cons r rs)
  have "r \<in> set (order_by (<) available_key
          (filter (\<lambda>r. claimable now ns queue types r \<and> \<not> locked (wr_run_id r)) (runs s)))"
    unfolding Cons by simp
  then have "r \<in> set (runs s) \<and> claimable now ns queue types r \<and> \<not> locked (wr_run_id r)" by simp
  with Cons show ?thesis
    unfolding wf_poll_workflow_def
    by (auto split: option.splits prod.splits sum.splits)
qed

lemma keeps_poll [keeps_rules]: "keeps wf_db (wf_poll_workflow locked now ns queue w types vt)"
proof (rule keepsI)
  fix s assume wf: "wf_db s"
  show "wf_db (snd (wf_poll_workflow locked now ns queue w types vt s))"
    using poll_snd [of locked now ns queue w types vt s]
  proof (elim disjE exE conjE)
    assume "snd (wf_poll_workflow locked now ns queue w types vt s) = s"
    then show ?thesis using wf by simp
  next
    fix r until
    assume "snd (wf_poll_workflow locked now ns queue w types vt s)
              = snd (update_runs (\<lambda>x. wr_run_id x = wr_run_id r) (claim_run now w until) s)"
    then show ?thesis using wf by (simp add: keepsD [OF keeps_update_runs] claim_run_def)
  qed
qed

lemma keeps_instance [keeps_rules]:
  "keeps wf_db (wf_create_schedule_instance show_uuid now new_id i t)"
proof (rule keepsI)
  fix s assume "wf_db s"
  then show "wf_db (snd (wf_create_schedule_instance show_uuid now new_id i t s))"
    unfolding wf_create_schedule_instance_def
    by (auto split: option.splits intro!: keepsD [of wf_db] keeps_rules)
qed

lemma keeps_next_fire [keeps_rules]: "keeps wf_db (wf_update_next_fire i t l)"
  unfolding wf_update_next_fire_def by (intro keeps_rules) simp_all

lemma keeps_update [keeps_rules]: "keeps wf_db (wf_update i w)"
  unfolding wf_update_def by (intro keeps_rules) simp

lemma delete_run_wf:
  assumes wf: "wf_db s"
  shows "wf_db (snd (delete_run i s))"
proof (cases "list_ex (\<lambda>r. wr_run_id r = i) (runs s) \<and> \<not> list_ex (\<lambda>r. sr_run_id r = i) (steps s)")
  case False
  then show ?thesis using wf by (auto simp: delete_run_def)
next
  case True
  let ?keep = "filter (\<lambda>r. wr_run_id r \<noteq> i) (runs s)"
  let ?rs = "sql_update (\<lambda>r. wr_schedule_id r = Some i) (\<lambda>r. r\<lparr>wr_schedule_id := None\<rparr>) ?keep"
  have ids: "map wr_run_id ?rs = map wr_run_id ?keep" by (simp add: map_sql_update)
  have old: "runs_violation (ns_names s) (runs s) = None" using wf by (simp add: wf_db_def)
  have "runs_violation (ns_names s) ?rs = None"
    unfolding runs_violation_None ids
  proof (intro conjI)
    show "\<forall>r\<in>set ?rs. chk_available_at r"
      using old by (auto simp: runs_violation_None in_sql_update chk_available_at_def is_active_def
          split: if_splits)
    show "distinct (map wr_run_id ?keep)"
      using old by (simp add: runs_violation_None distinct_map_filterI)
    show "distinct (map active_key (filter is_active ?rs))"
    proof (rule distinct_map_filter_sql_update)
      show "distinct (map active_key (filter is_active ?keep))"
        using old distinct_map_filterI [of active_key "filter is_active (runs s)" "\<lambda>r. wr_run_id r \<noteq> i"]
        by (simp add: runs_violation_None conj_commute)
    qed (simp add: is_active_def active_key_def)
    show "distinct (map firing_key (filter is_firing ?rs))"
    proof (rule distinct_map_filter_sql_update)
      show "distinct (map firing_key (filter is_firing ?keep))"
        using old distinct_map_filterI [of firing_key "filter is_firing (runs s)" "\<lambda>r. wr_run_id r \<noteq> i"]
        by (simp add: runs_violation_None conj_commute)
    qed (simp add: is_firing_def)
    show "\<forall>r\<in>set ?rs. schedule_fk (map wr_run_id ?keep) r"
    proof
      fix r assume "r \<in> set ?rs"
      then obtain r0 where r0: "r0 \<in> set (runs s)"
        and r: "r = (if wr_schedule_id r0 = Some i then r0\<lparr>wr_schedule_id := None\<rparr> else r0)"
        by (auto simp: in_sql_update)
      have "schedule_fk (run_ids s) r0" using old r0 by (simp add: runs_violation_None)
      then show "schedule_fk (map wr_run_id ?keep) r"
        unfolding r schedule_fk_def by (auto split: option.splits)
    qed
    show "\<forall>r\<in>set ?rs. wr_namespace r \<in> set (ns_names s)"
      using old by (auto simp: runs_violation_None in_sql_update)
  qed
  moreover have "payloads_violation (map wr_run_id ?rs) (filter (\<lambda>p. pl_run_id p \<noteq> i) (payloads s)) = None"
    unfolding ids using wf by (auto simp: wf_db_def payloads_violation_None distinct_map_filterI)
  moreover have "steps_violation (map wr_run_id ?rs) (ns_names s) (steps s) = None"
  proof -
    have "sr_run_id r \<in> set (map wr_run_id ?keep)" if "r \<in> set (steps s)" for r
    proof -
      have "sr_run_id r \<in> set (run_ids s)" using wf that by (simp add: wf_db_def steps_violation_None)
      moreover have "sr_run_id r \<noteq> i" using True that by (auto simp: list_ex_iff)
      ultimately show ?thesis by auto
    qed
    then show ?thesis unfolding ids using wf by (simp add: wf_db_def steps_violation_None)
  qed
  ultimately show ?thesis using wf True by (simp add: delete_run_def wf_db_def)
qed

lemma keeps_delete [keeps_rules]: "keeps wf_db (wf_delete i)"
  unfolding wf_delete_def
proof (intro keeps_rules)
  show "keeps wf_db (delete_payload i)"
    by (rule keepsI) (auto simp: delete_payload_def wf_db_def payloads_violation_None distinct_map_filterI)
  show "keeps wf_db (delete_run i)"
    by (rule keepsI) (rule delete_run_wf)
qed

subsection \<open>The orders of the queries\<close>

interpretation by_time: keyset "(<) :: timestamp \<Rightarrow> timestamp \<Rightarrow> bool"
  by unfold_locales auto

interpretation by_newest: keyset newest_first
  by unfold_locales (auto simp: newest_first_def)

lemma available_key_le: "available_key r = t" if "wr_available_at r = Some t"
  using that by (simp add: available_key_def)

subsection \<open>Finishing a run cannot break a constraint\<close>

lemma narrows_finish:
  "narrows r (set_cancelled now r)" "narrows r (set_completed now r)" "narrows r (set_failed now err r)"
  by (simp_all add: narrows_def set_cancelled_def set_completed_def set_failed_def is_active_def
      active_text_def chk_available_at_def)

lemma update_finish:
  assumes "wf_db s"
  shows "update_runs P (set_cancelled now) s
           = (Inr (), s\<lparr>runs := sql_update P (set_cancelled now) (runs s)\<rparr>)"
    and "update_runs P (set_completed now) s
           = (Inr (), s\<lparr>runs := sql_update P (set_completed now) (runs s)\<rparr>)"
    and "update_runs P (set_failed now err) s
           = (Inr (), s\<lparr>runs := sql_update P (set_failed now err) (runs s)\<rparr>)"
  using assms
  by (auto intro!: update_runs_narrow narrows_finish
      simp: set_cancelled_def set_completed_def set_failed_def)

lemma cancel_run:
  assumes wf: "wf_db s"
  shows "wf_cancel now i ns s =
     (Inr (list_ex (\<lambda>r. wr_run_id r = i \<and> wr_namespace r = ns
             \<and> wr_status r \<in> {show_status WsPending, show_status WsRunning, show_status WsSleeping}) (runs s)),
      s\<lparr>runs := sql_update (\<lambda>r. wr_run_id r = i \<and> wr_namespace r = ns
             \<and> wr_status r \<in> {show_status WsPending, show_status WsRunning, show_status WsSleeping})
           (set_cancelled now) (runs s)\<rparr>)"
proof -
  let ?on = "\<lambda>r. wr_run_id r = i \<and> wr_namespace r = ns"
  let ?run = "\<lambda>r. wr_run_id r = i \<and> wr_namespace r = ns \<and> wr_status r = show_status WsRunning"
  let ?oth = "\<lambda>r. wr_run_id r = i \<and> wr_namespace r = ns
                \<and> wr_status r \<in> {show_status WsPending, show_status WsSleeping}"
  let ?any = "\<lambda>r. wr_run_id r = i \<and> wr_namespace r = ns
             \<and> wr_status r \<in> {show_status WsPending, show_status WsRunning, show_status WsSleeping}"
  show ?thesis
  proof (cases "\<exists>r\<in>set (runs s). ?run r")
    case True
    then obtain r where r: "r \<in> set (runs s)" "?run r" by blast
    have same: "sql_update ?run (set_cancelled now) (runs s) = sql_update ?any (set_cancelled now) (runs s)"
      unfolding sql_update_def
    proof (rule map_cong [OF refl])
      fix x assume "x \<in> set (runs s)"
      moreover have "x = r" if "x \<in> set (runs s)" "wr_run_id x = i"
        using that run_unique [OF wf, of x r] r by simp
      ultimately show "(if ?run x then set_cancelled now x else x) = (if ?any x then set_cancelled now x else x)"
        using r(2) by (metis insertCI)
    qed
    have "sql_count ?run (runs s) \<noteq> 0" unfolding sql_count_0 using r by blast
    then have "0 < sql_count ?run (runs s)" by simp
    moreover have "list_ex ?any (runs s)" using r by (auto simp: list_ex_iff)
    ultimately show ?thesis
      unfolding wf_cancel_def
      by (simp add: transact_def bind_op_def update_runs_count_def update_finish [OF wf] same)
  next
    case False
    then have none: "sql_count ?run (runs s) = 0" "sql_update ?run (set_cancelled now) (runs s) = runs s"
      by (auto simp: sql_count_0 intro!: sql_update_none)
    have same: "sql_update ?oth (set_cancelled now) (runs s) = sql_update ?any (set_cancelled now) (runs s)"
      using False by (auto simp: sql_update_def)
    have "0 < sql_count ?oth (runs s) \<longleftrightarrow> list_ex ?any (runs s)"
      using False by (auto simp: list_ex_iff sql_count_def filter_empty_conv)
    then show ?thesis
      unfolding wf_cancel_def
      by (simp add: transact_def bind_op_def update_runs_count_def update_finish [OF wf] none same [simplified])
  qed
qed

lemma complete_run:
  assumes "wf_db s" and "length out \<le> payload_max_size_bytes cfg"
  shows "wf_complete cfg now i out s = (Inr (),
     s\<lparr>runs := sql_update (running_row i) (set_completed now) (runs s),
       payloads := sql_update (\<lambda>p. pl_run_id p = i) (\<lambda>p. p\<lparr>pl_output := Some out\<rparr>) (payloads s)\<rparr>)"
  using assms
  by (simp add: wf_complete_def validate_payload_size_def transact_def bind_op_def update_finish
      set_output_def)

lemma fail_run:
  assumes "wf_db s"
  shows "wf_fail now i err s = (Inr (), s\<lparr>runs := sql_update (running_row i) (set_failed now err) (runs s)\<rparr>)"
    and "wf_mark_exhausted now i err s
           = (Inr (), s\<lparr>runs := sql_update (running_row i) (set_failed now err) (runs s)\<rparr>)"
  using assms
  by (simp_all add: wf_fail_def wf_mark_exhausted_def set_failed_tx_def transact_def bind_op_def
      update_finish)

subsection \<open>What a poll does\<close>

lemma poll_Some:
  assumes "wf_poll_workflow locked now ns queue worker types vt s = (Inr (Some c), s')"
  obtains r p where "r \<in> set (runs s)" and "claimable now ns queue types r" and "\<not> locked (wr_run_id r)"
    and "\<And>x. x \<in> set (runs s) \<Longrightarrow> claimable now ns queue types x \<Longrightarrow> \<not> locked (wr_run_id x)
           \<Longrightarrow> available_key r \<le> available_key x"
    and "pg_ts_add now (vt * 1000000) = Some (now + vt * 1000000)"
    and "s' = s\<lparr>runs := sql_update (\<lambda>w. wr_run_id w = wr_run_id r)
                 (claim_run now worker (now + vt * 1000000)) (runs s)\<rparr>"
    and "List.find (\<lambda>p. pl_run_id p = wr_run_id r) (payloads s) = Some p"
    and "c = \<lparr>cl_run_id = wr_run_id r, cl_workflow_type = wr_workflow_type r,
              cl_input = pl_input p, cl_locked_by = Some worker\<rparr>"
proof (cases "order_by (<) available_key
                (filter (\<lambda>r. claimable now ns queue types r \<and> \<not> locked (wr_run_id r)) (runs s))")
  case Nil
  then show ?thesis using assms unfolding wf_poll_workflow_def Nil by simp
next
  case (Cons r rs)
  have least: "r \<in> set (runs s) \<and> claimable now ns queue types r \<and> \<not> locked (wr_run_id r)"
    "\<And>x. x \<in> set (runs s) \<Longrightarrow> claimable now ns queue types x \<Longrightarrow> \<not> locked (wr_run_id x)
       \<Longrightarrow> available_key r \<le> available_key x"
    using by_time.order_by_hd_least [OF Cons] by force+
  obtain until where until: "pg_ts_add now (vt * 1000000) = Some until"
    using assms unfolding wf_poll_workflow_def Cons by (auto split: option.splits)
  then have u: "until = now + vt * 1000000" by (rule pg_ts_add_SomeD)
  obtain s1 where s1: "update_runs (\<lambda>w. wr_run_id w = wr_run_id r) (claim_run now worker until) s
                         = (Inr (), s1)"
    and find: "(case List.find (\<lambda>p. pl_run_id p = wr_run_id r) (payloads s1) of
                  None \<Rightarrow> (Inl (Database UnexpectedNull), s1)
                | Some p \<Rightarrow> (Inr (Some \<lparr>cl_run_id = wr_run_id r, cl_workflow_type = wr_workflow_type r,
                    cl_input = pl_input p, cl_locked_by = Some worker\<rparr>), s1)) = (Inr (Some c), s')"
    using assms until unfolding wf_poll_workflow_def Cons
    by (auto split: option.splits prod.splits sum.splits)
  note s1' = update_runs_Inr [OF s1]
  from find show ?thesis
    using least until s1' that u by (auto split: option.splits)
qed

text \<open>A poll that finds something claims the first of what it finds.\<close>

lemma poll_claims:
  assumes wf: "wf_db s"
    and ord: "order_by (<) available_key
      (filter (\<lambda>r. claimable now ns queue types r \<and> \<not> locked (wr_run_id r)) (runs s)) = x # xs"
    and u: "pg_ts_add now (vt * 1000000) = Some until" "pg_int4 (wr_attempts x + 1) = Some n"
    and free: "wr_schedule_id x = None" and pay: "List.find (\<lambda>p. pl_run_id p = wr_run_id x) (payloads s) = Some p"
  shows "wf_poll_workflow locked now ns queue worker types vt s =
    (Inr (Some \<lparr>cl_run_id = wr_run_id x, cl_workflow_type = wr_workflow_type x, cl_input = pl_input p,
       cl_locked_by = Some worker\<rparr>),
     s\<lparr>runs := sql_update (\<lambda>w. wr_run_id w = wr_run_id x) (claim_run now worker until) (runs s)\<rparr>)"
proof -
  have x: "x \<in> set (runs s)" "claimable now ns queue types x"
    using ord by_time.order_by_hd_least by force+
  have "update_runs (\<lambda>w. wr_run_id w = wr_run_id x) (claim_run now worker until) s
      = (Inr (), s\<lparr>runs := sql_update (\<lambda>w. wr_run_id w = wr_run_id x) (claim_run now worker until) (runs s)\<rparr>)"
  proof (rule update_runs_narrow [OF wf])
    fix y assume y: "y \<in> set (runs s)" "wr_run_id y = wr_run_id x"
    then have "y = x" using run_unique [OF wf] x(1) by blast
    moreover from this have "active_text (wr_status y)"
      using x(2) by (auto simp: claimable_def claimable_text_def active_text_def)
    ultimately show "narrows y (claim_run now worker until y)"
      using free by (simp add: narrows_def claim_run_def chk_available_at_def is_active_def)
  qed (simp add: claim_run_def)
  then show ?thesis unfolding wf_poll_workflow_def ord using u pay by simp
qed

lemma poll_only:
  assumes wf: "wf_db s" and r: "r \<in> set (runs s)" "claimable now ns queue types r" "\<not> locked (wr_run_id r)"
    and only: "\<And>x. x \<in> set (runs s) \<Longrightarrow> claimable now ns queue types x \<Longrightarrow> \<not> locked (wr_run_id x) \<Longrightarrow> x = r"
    and u: "pg_ts_add now (vt * 1000000) = Some until" "pg_int4 (wr_attempts r + 1) = Some n"
    and free: "wr_schedule_id r = None" and pay: "List.find (\<lambda>p. pl_run_id p = wr_run_id r) (payloads s) = Some p"
  shows "wf_poll_workflow locked now ns queue worker types vt s =
    (Inr (Some \<lparr>cl_run_id = wr_run_id r, cl_workflow_type = wr_workflow_type r, cl_input = pl_input p,
       cl_locked_by = Some worker\<rparr>),
     s\<lparr>runs := sql_update (\<lambda>w. wr_run_id w = wr_run_id r) (claim_run now worker until) (runs s)\<rparr>)"
proof (cases "order_by (<) available_key
                (filter (\<lambda>r. claimable now ns queue types r \<and> \<not> locked (wr_run_id r)) (runs s))")
  case Nil
  then have "filter (\<lambda>r. claimable now ns queue types r \<and> \<not> locked (wr_run_id r)) (runs s) = []" by simp
  then show ?thesis using r by (simp add: filter_empty_conv)
next
  case (Cons x xs)
  then have "x \<in> set (runs s) \<and> claimable now ns queue types x \<and> \<not> locked (wr_run_id x)"
    using by_time.order_by_hd_least by force
  then have "x = r" using only by blast
  then show ?thesis using poll_claims [OF wf Cons u(1), of n p worker] u(2) free pay by simp
qed

lemma poll_None_iff:
  "fst (wf_poll_workflow locked now ns queue worker types vt s) = Inr None
   \<longleftrightarrow> \<not> (\<exists>r\<in>set (runs s). claimable now ns queue types r \<and> \<not> locked (wr_run_id r))"
proof (cases "order_by (<) available_key
                (filter (\<lambda>r. claimable now ns queue types r \<and> \<not> locked (wr_run_id r)) (runs s))")
  case Nil
  then have "filter (\<lambda>r. claimable now ns queue types r \<and> \<not> locked (wr_run_id r)) (runs s) = []"
    by simp
  then show ?thesis unfolding wf_poll_workflow_def Nil by (simp add: filter_empty_conv)
next
  case (Cons r rs)
  have "r \<in> set (runs s) \<and> claimable now ns queue types r \<and> \<not> locked (wr_run_id r)"
    using by_time.order_by_hd_least [OF Cons] by force
  then have "\<exists>r\<in>set (runs s). claimable now ns queue types r \<and> \<not> locked (wr_run_id r)" by blast
  then show ?thesis unfolding wf_poll_workflow_def Cons
    by (auto split: option.splits prod.splits sum.splits)
qed

lemma poll_None_state:
  "wf_poll_workflow locked now ns queue worker types vt s = (Inr None, s') \<Longrightarrow> s' = s"
  unfolding wf_poll_workflow_def
  by (auto split: list.splits option.splits prod.splits sum.splits)

subsection \<open>What the models and the pages hold\<close>

lemma model_fields:
  assumes "run_into_model (r, p) = Inr w"
  shows "w_run_id w = wr_run_id r" "w_available_at w = wr_available_at r" "w_cron_expr w = wr_cron_expr r"
    "w_max_catchup w = wr_max_catchup r" "w_last_fired_at w = wr_last_fired_at r"
    "w_created_at w = Some (wr_created_at r)" "show_status (w_status w) = wr_status r"
    "w_schedule_id w = wr_schedule_id r" "w_namespace w = wr_namespace r"
  using assms by (auto simp: run_into_model_def split: option.splits dest: parse_status_SomeD)

lemma sql_limit_Inr: "sql_limit n xs = Inr ys \<Longrightarrow> set ys \<subseteq> set xs"
  by (auto simp: sql_limit_def split: if_splits dest: in_set_takeD)

lemma collected:
  assumes "collect_results (map f xs) = Inr ys" and "y \<in> set ys"
  obtains x where "x \<in> set xs" and "f x = Inr y"
proof -
  have "list_all2 (\<lambda>x y. f x = Inr y) xs ys" using assms(1) by (simp only: collect_results_Inr)
  then obtain k where "k < length xs" "f (xs ! k) = Inr y"
    using assms(2) unfolding list_all2_conv_all_nth by (metis in_set_conv_nth)
  then show ?thesis using that nth_mem by blast
qed

lemma list_items:
  assumes "wf_list ps s = (Inr res, s')" and "w \<in> set (pr_items res)"
  obtains r p where "(r, p) \<in> set (runs_with_payload s)" and "r \<in> set (runs s)"
    and "run_into_model (r, p) = Inr w" and "list_filter ps (r, p)"
    and "after_cursor newest_first run_cursor (lw_cursor ps) (r, p)"
proof -
  let ?found = "order_by newest_first run_cursor
     (filter (\<lambda>r. list_filter ps r \<and> after_cursor newest_first run_cursor (lw_cursor ps) r) (runs_with_payload s))"
  obtain rows where rows: "sql_limit (as_i32 (lw_page_size ps + 1)) ?found = Inr rows"
    and items: "collect_results (map run_into_model (take (nat (as_u64 (lw_page_size ps))) rows)) = Inr (pr_items res)"
    using assms(1) unfolding wf_list_def query_op_simp Let_def
    by (cases "sql_limit (as_i32 (lw_page_size ps + 1)) ?found")
      (auto simp: res_bind_def split: sum.splits)
  obtain x where x: "x \<in> set (take (nat (as_u64 (lw_page_size ps))) rows)" "run_into_model x = Inr w"
    using collected [OF items assms(2)] by blast
  then have "x \<in> set ?found" using sql_limit_Inr [OF rows] by (auto dest: in_set_takeD)
  then have "x \<in> set (runs_with_payload s)" "list_filter ps x"
    "after_cursor newest_first run_cursor (lw_cursor ps) x" by auto
  moreover have "fst x \<in> set (runs s)" using calculation(1) by (auto simp: runs_with_payload_def)
  moreover obtain r p where "x = (r, p)" by (cases x)
  ultimately show ?thesis using that x(2) by simp
qed

end
