(* ===== verification/StepStore.thy ===== *)
theory StepStore
  imports WorkflowStore
begin

text \<open>
  The step repository, \<open>crates/kagzi-store/src/postgres/step.rs\<close>: the attempts of the steps of a run.
  One definition per method, with the prefix \<open>st_\<close>. \<open>now\<close> and \<open>new_id\<close> are as in \<open>WorkflowStore\<close>.
  Strings are their UTF-8 bytes, so \<open>String::from_utf8\<close> is the check \<open>utf8_valid\<close>.

  The lemmas: every method keeps the constraints; the latest attempt of a step is unique and what
  \<open>begin\<close>, \<open>complete\<close> and \<open>fail\<close> do to it. The memoisation contract of the replay is the locale
  \<open>memo_store\<close>.
\<close>

subsection \<open>Rows\<close>

definition step_into_model :: "step_row \<Rightarrow> store_error + step_run" where
  "step_into_model r = (case parse_step_kind (sr_step_kind r) of
       None \<Rightarrow> Inl (InvalidState (FmtInvalid ''step kind'' (sr_step_kind r)))
     | Some kind \<Rightarrow> (case parse_step_status (sr_status r) of
         None \<Rightarrow> Inl (InvalidState (FmtInvalid ''step status'' (sr_status r)))
       | Some st \<Rightarrow> Inr \<lparr>
           s_attempt_id = sr_attempt_id r, s_run_id = sr_run_id r, s_step_id = sr_step_id r,
           s_namespace = sr_namespace r, s_step_kind = kind, s_attempt_number = sr_attempt_number r,
           s_status = st, s_input = sr_input r, s_output = sr_output r, s_error = sr_error r,
           s_child_workflow_run_id = sr_child_workflow_run_id r,
           s_created_at = Some (sr_created_at r), s_started_at = sr_started_at r,
           s_finished_at = sr_finished_at r,
           s_retry_policy = Option.bind (sr_retry_policy r) policy_from_value\<rparr>))"

definition step_validate_payload_size :: "store_config \<Rightarrow> bytes \<Rightarrow> string \<Rightarrow> store_error + unit" where
  "step_validate_payload_size cfg b ctx =
     (if payload_max_size_bytes cfg < length b
      then Inl (InvalidArgument (FmtPayloadSize ctx (payload_max_size_bytes cfg) (length b)))
      else Inr ())"

definition validate_optional :: "store_config \<Rightarrow> bytes option \<Rightarrow> string \<Rightarrow> store_error + unit" where
  "validate_optional cfg b ctx = (case b of None \<Rightarrow> Inr () | Some x \<Rightarrow> step_validate_payload_size cfg x ctx)"

definition latest_of :: "uuid \<Rightarrow> string \<Rightarrow> step_row \<Rightarrow> bool" where
  "latest_of run_id step_id r = (sr_run_id r = run_id \<and> sr_step_id r = step_id \<and> sr_is_latest r)"

definition find_latest :: "uuid \<Rightarrow> string \<Rightarrow> db \<Rightarrow> step_row option" where
  "find_latest run_id step_id s = List.find (latest_of run_id step_id) (steps s)"

definition clear_latest :: "uuid \<Rightarrow> string \<Rightarrow> unit store_op" where
  "clear_latest run_id step_id =
     update_steps (latest_of run_id step_id) (\<lambda>r. r\<lparr>sr_is_latest := False\<rparr>)"

text \<open>\<open>COALESCE((SELECT MAX(attempt_number) \<dots>), 0) + 1\<close>.\<close>

definition max_attempt :: "uuid \<Rightarrow> string \<Rightarrow> step_row list \<Rightarrow> int" where
  "max_attempt run_id step_id rs =
     (case map sr_attempt_number (filter (\<lambda>r. sr_run_id r = run_id \<and> sr_step_id r = step_id) rs) of
        [] \<Rightarrow> 0
      | n # ns \<Rightarrow> foldl max n ns)"

text \<open>The insert fills in the attempt number and the namespace of the run.\<close>

definition insert_step_row :: "step_row \<Rightarrow> unit store_op" where
  "insert_step_row r s =
     (case pg_int4 (max_attempt (sr_run_id r) (sr_step_id r) (steps s) + 1) of
        None \<Rightarrow> (Inl out_of_range, s)
      | Some n \<Rightarrow> (case List.find (\<lambda>w. wr_run_id w = sr_run_id r) (runs s) of
          None \<Rightarrow> (Inl (Database (NotNullViolation ''namespace'')), s)
        | Some w \<Rightarrow> put_steps (steps s @ [r\<lparr>sr_attempt_number := n, sr_namespace := wr_namespace w\<rparr>]) s))"

definition step_defaults :: "timestamp \<Rightarrow> uuid \<Rightarrow> uuid \<Rightarrow> string \<Rightarrow> step_kind \<Rightarrow> step_status \<Rightarrow> step_row" where
  "step_defaults now new_id run_id step_id kind st = \<lparr>
     sr_attempt_id = new_id, sr_run_id = run_id, sr_step_id = step_id, sr_namespace = [],
     sr_step_kind = show_step_kind kind, sr_attempt_number = 1, sr_status = show_step_status st,
     sr_input = None, sr_output = None, sr_error = None, sr_child_workflow_run_id = None,
     sr_created_at = now, sr_started_at = None, sr_finished_at = None, sr_retry_policy = None,
     sr_is_latest = True\<rparr>"

definition insert_step_result ::
  "timestamp \<Rightarrow> uuid \<Rightarrow> uuid \<Rightarrow> string \<Rightarrow> step_kind \<Rightarrow> step_status \<Rightarrow> bytes option \<Rightarrow> string option
    \<Rightarrow> unit store_op" where
  "insert_step_result now new_id run_id step_id kind st out err =
     insert_step_row ((step_defaults now new_id run_id step_id kind st)\<lparr>
       sr_output := out, sr_error := err, sr_finished_at := Some now\<rparr>)"

subsection \<open>Reads\<close>

definition st_get_retry_info :: "uuid \<Rightarrow> string \<Rightarrow> step_retry_info option store_op" where
  "st_get_retry_info run_id step_id = get_op (\<lambda>s.
     Option.bind (find_latest run_id step_id s) (\<lambda>r.
     map_option (\<lambda>w. \<lparr>ri_attempt_number = sr_attempt_number r,
         ri_retry_policy = Option.bind
           (case sr_retry_policy r of Some p \<Rightarrow> Some p | None \<Rightarrow> wr_retry_policy w) policy_from_value\<rparr>)
       (List.find (\<lambda>w. wr_run_id w = run_id) (runs s))))"

definition latest_step_kind_impl :: "uuid \<Rightarrow> string \<Rightarrow> bool \<Rightarrow> step_kind store_op" where
  "latest_step_kind_impl run_id step_id strict = query_op (\<lambda>s.
     case map_option sr_step_kind (find_latest run_id step_id s) of
       Some k \<Rightarrow> Inr (if k = show_step_kind SkSleep then SkSleep else SkFunction)
     | None \<Rightarrow> if strict then Inl (NotFound ''step_run'' (FmtStepRef run_id step_id))
               else Inr SkFunction)"

definition latest_step_kind_strict :: "uuid \<Rightarrow> string \<Rightarrow> step_kind store_op" where
  "latest_step_kind_strict run_id step_id = latest_step_kind_impl run_id step_id True"

definition st_find_by_id :: "uuid \<Rightarrow> step_run option store_op" where
  "st_find_by_id attempt_id = query_op (\<lambda>s.
     case List.find (\<lambda>r. sr_attempt_id r = attempt_id) (steps s) of
       None \<Rightarrow> Inr None
     | Some r \<Rightarrow> map_sum id Some (step_into_model r))"

definition step_cursor :: "step_row \<Rightarrow> cursor" where
  "step_cursor r = (sr_created_at r, sr_attempt_id r)"

definition step_filter :: "list_steps_params \<Rightarrow> step_row \<Rightarrow> bool" where
  "step_filter ps r = (sr_run_id r = ls_run_id ps \<and> sr_namespace r = ls_namespace ps
     \<and> (case ls_step_id ps of None \<Rightarrow> True | Some i \<Rightarrow> sr_step_id r = i))"

definition st_list :: "list_steps_params \<Rightarrow> (step_run, cursor) paginated_result store_op" where
  "st_list ps = query_op (\<lambda>s.
     let page_size = nat (max (ls_page_size ps) 1);
         limit = as_i64 (int page_size + 1);
         found = order_by (<) step_cursor
                   (filter (\<lambda>r. step_filter ps r \<and> after_cursor (<) step_cursor (ls_cursor ps) r) (steps s))
     in res_bind (sql_limit limit found) (\<lambda>rows.
        let has_more = page_size < length rows
        in res_bind (collect_results (map step_into_model (take page_size rows))) (\<lambda>items.
           Inr \<lparr>pr_items = items,
                pr_next_cursor = (if has_more \<and> items \<noteq> []
                   then map_option (\<lambda>t. (t, s_attempt_id (last items))) (s_created_at (last items))
                   else None),
                pr_has_more = has_more\<rparr>)))"

subsection \<open>Beginning and completing a step\<close>

definition st_begin :: "store_config \<Rightarrow> timestamp \<Rightarrow> uuid \<Rightarrow> begin_step_params \<Rightarrow> begin_step_result store_op" where
  "st_begin cfg now new_id p = transact (
     bind_op (lift_op (validate_optional cfg (bs_input p) ''Step input'')) (\<lambda>_.
     bind_op (get_op (find_latest (bs_run_id p) (bs_step_id p))) (\<lambda>existing.
     let insert_attempt =
       bind_op (clear_latest (bs_run_id p) (bs_step_id p)) (\<lambda>_.
       bind_op (insert_step_row ((step_defaults now new_id (bs_run_id p) (bs_step_id p) (bs_step_kind p)
                  SsRunning)\<lparr>sr_input := bs_input p, sr_started_at := Some now,
                  sr_retry_policy := bs_retry_policy p\<rparr>)) (\<lambda>_.
       ret_op \<lparr>br_should_execute = True, br_cached_output = None\<rparr>))
     in case existing of
          Some r \<Rightarrow> if sr_status r = show_step_status SsCompleted
            then ret_op \<lparr>br_should_execute = False, br_cached_output = sr_output r\<rparr>
            else insert_attempt
        | None \<Rightarrow> insert_attempt)))"

definition running_latest :: "uuid \<Rightarrow> string \<Rightarrow> step_row \<Rightarrow> bool" where
  "running_latest run_id step_id r =
     (latest_of run_id step_id r \<and> sr_status r = show_step_status SsRunning)"

definition update_steps_count ::
  "(step_row \<Rightarrow> bool) \<Rightarrow> (step_row \<Rightarrow> step_row) \<Rightarrow> nat store_op" where
  "update_steps_count P f s = bind_op (update_steps P f) (\<lambda>_. ret_op (sql_count P (steps s))) s"

definition completed_step :: "timestamp \<Rightarrow> bytes \<Rightarrow> step_row \<Rightarrow> step_row" where
  "completed_step now out r = r\<lparr>sr_status := show_step_status SsCompleted, sr_output := Some out,
     sr_finished_at := Some now\<rparr>"

definition st_complete :: "store_config \<Rightarrow> timestamp \<Rightarrow> uuid \<Rightarrow> uuid \<Rightarrow> string \<Rightarrow> bytes \<Rightarrow> unit store_op" where
  "st_complete cfg now new_id run_id step_id out = transact (
     bind_op (lift_op (step_validate_payload_size cfg out ''Step output'')) (\<lambda>_.
     bind_op (latest_step_kind_strict run_id step_id) (\<lambda>kind.
     bind_op (update_steps_count (running_latest run_id step_id) (completed_step now out)) (\<lambda>affected.
     if affected \<noteq> 0 then ret_op ()
     else bind_op (get_op (find_latest run_id step_id)) (\<lambda>existing.
       let insert_result =
         bind_op (clear_latest run_id step_id) (\<lambda>_.
         insert_step_result now new_id run_id step_id kind SsCompleted (Some out) None)
       in case existing of
            Some r \<Rightarrow> if sr_status r = show_step_status SsCompleted then ret_op () else insert_result
          | None \<Rightarrow> insert_result)))))"

subsection \<open>Failing a step\<close>

definition failed_step :: "timestamp \<Rightarrow> string \<Rightarrow> step_row \<Rightarrow> step_row" where
  "failed_step now err r = r\<lparr>sr_status := show_step_status SsFailed, sr_error := Some err,
     sr_finished_at := Some now\<rparr>"

text \<open>The retry branch has no transaction and does not look at the status of the attempt.\<close>

definition retry_delay :: "backoff_iter \<Rightarrow> fail_step_params \<Rightarrow> step_retry_info \<Rightarrow> int option" where
  "retry_delay bo p info =
     (let policy = (case ri_retry_policy info of Some q \<Rightarrow> q | None \<Rightarrow> default_policy)
      in if \<not> fs_non_retryable p \<and> \<not> is_non_retryable policy (fs_error p)
            \<and> should_retry policy (ri_attempt_number info)
         then Some (case fs_retry_after_ms p of Some d \<Rightarrow> d
                    | None \<Rightarrow> calculate_delay_ms bo policy (ri_attempt_number info))
         else None)"

definition fail_permanently ::
  "timestamp \<Rightarrow> uuid \<Rightarrow> fail_step_params \<Rightarrow> fail_step_result store_op" where
  "fail_permanently now new_id p = transact (
     bind_op (latest_step_kind_strict (fs_run_id p) (fs_step_id p)) (\<lambda>kind.
     bind_op (update_steps_count (running_latest (fs_run_id p) (fs_step_id p))
                (failed_step now (fs_error p))) (\<lambda>affected.
     bind_op (if affected = 0
              then bind_op (clear_latest (fs_run_id p) (fs_step_id p)) (\<lambda>_.
                   insert_step_result now new_id (fs_run_id p) (fs_step_id p) kind SsFailed None
                     (Some (fs_error p)))
              else ret_op ()) (\<lambda>_.
     ret_op \<lparr>fr_scheduled_retry = False, fr_schedule_workflow_retry_ms = None\<rparr>))))"

definition st_fail ::
  "backoff_iter \<Rightarrow> timestamp \<Rightarrow> uuid \<Rightarrow> fail_step_params \<Rightarrow> fail_step_result store_op" where
  "st_fail bo now new_id p =
     bind_op (st_get_retry_info (fs_run_id p) (fs_step_id p)) (\<lambda>info.
     case Option.bind info (retry_delay bo p) of
       Some delay_ms \<Rightarrow>
         bind_op (update_steps (latest_of (fs_run_id p) (fs_step_id p))
                    (failed_step now (fs_error p))) (\<lambda>_.
         ret_op \<lparr>fr_scheduled_retry = True, fr_schedule_workflow_retry_ms = Some (as_u64 delay_ms)\<rparr>)
     | None \<Rightarrow> fail_permanently now new_id p)"

subsection \<open>Sleeps and lifecycle events\<close>

definition pending_sleep :: "uuid \<Rightarrow> step_row \<Rightarrow> bool" where
  "pending_sleep run_id r = (sr_run_id r = run_id \<and> sr_step_kind r = show_step_kind SkSleep
     \<and> sr_status r = show_step_status SsRunning \<and> sr_is_latest r)"

definition st_complete_pending_sleeps :: "timestamp \<Rightarrow> uuid \<Rightarrow> nat store_op" where
  "st_complete_pending_sleeps now run_id =
     update_steps_count (pending_sleep run_id)
       (\<lambda>r. r\<lparr>sr_status := show_step_status SsCompleted, sr_finished_at := Some now\<rparr>)"

definition to_lower :: "char \<Rightarrow> char" where
  "to_lower c = (if 65 \<le> (of_char c :: nat) \<and> (of_char c :: nat) \<le> 90
                 then char_of ((of_char c :: nat) + 32) else c)"

definition cont_byte :: "8 word \<Rightarrow> bool" where
  "cont_byte b = (0x80 \<le> b \<and> b < 0xC0)"

fun utf8_valid :: "bytes \<Rightarrow> bool" where
  "utf8_valid [] = True"
| "utf8_valid (a # bs) =
     (if a < 0x80 then utf8_valid bs
      else case bs of
        [] \<Rightarrow> False
      | b # cs \<Rightarrow>
          if 0xC2 \<le> a \<and> a < 0xE0 then cont_byte b \<and> utf8_valid cs
          else case cs of
            [] \<Rightarrow> False
          | c # ds \<Rightarrow>
              if 0xE0 \<le> a \<and> a < 0xF0
              then cont_byte b \<and> (a = 0xE0 \<longrightarrow> 0xA0 \<le> b) \<and> (a = 0xED \<longrightarrow> b < 0xA0)
                   \<and> cont_byte c \<and> utf8_valid ds
              else case ds of
                [] \<Rightarrow> False
              | d # es \<Rightarrow> 0xF0 \<le> a \<and> a < 0xF5 \<and> cont_byte b \<and> (a = 0xF0 \<longrightarrow> 0x90 \<le> b)
                   \<and> (a = 0xF4 \<longrightarrow> b < 0x90) \<and> cont_byte c \<and> cont_byte d \<and> utf8_valid es)"

definition string_of_bytes :: "bytes \<Rightarrow> string" where
  "string_of_bytes = map (\<lambda>b. char_of (unat b))"

definition bytes_of_string :: "string \<Rightarrow> bytes" where
  "bytes_of_string = map (\<lambda>c. of_nat (of_char c))"

definition from_utf8 :: "bytes \<Rightarrow> string option" where
  "from_utf8 b = (if utf8_valid b then Some (string_of_bytes b) else None)"

definition lifecycle_kind :: "step_kind \<Rightarrow> bool" where
  "lifecycle_kind k =
     (k \<in> {SkWorkflowStarted, SkWorkflowCompleted, SkWorkflowFailed, SkWorkflowCancelled})"

definition lifecycle_step_id :: "step_kind \<Rightarrow> string" where
  "lifecycle_step_id k = ''__lifecycle:'' @ map to_lower (show_step_kind k)"

definition st_record_lifecycle_event ::
  "store_config \<Rightarrow> timestamp \<Rightarrow> uuid \<Rightarrow> uuid \<Rightarrow> step_kind \<Rightarrow> bytes option \<Rightarrow> unit store_op" where
  "st_record_lifecycle_event cfg now new_id run_id kind out =
     (if \<not> lifecycle_kind kind then fail_op (InvalidArgument (FmtLifecycleKind kind))
      else
        let step_id = lifecycle_step_id kind;
            status = (if kind = SkWorkflowFailed then SsFailed else SsCompleted);
            err = (if kind = SkWorkflowFailed then Option.bind out from_utf8 else None)
        in bind_op (lift_op (validate_optional cfg out ''Lifecycle output'')) (\<lambda>_.
           transact (
             bind_op (update_steps_count (latest_of run_id step_id)
               (\<lambda>r. r\<lparr>sr_status := show_step_status status, sr_output := out, sr_error := err,
                      sr_finished_at := Some now,
                      sr_started_at := (case sr_started_at r of None \<Rightarrow> Some now | Some t \<Rightarrow> Some t)\<rparr>))
               (\<lambda>updated.
             if updated \<noteq> 0 then ret_op ()
             else bind_op (clear_latest run_id step_id) (\<lambda>_.
               insert_step_row ((step_defaults now new_id run_id step_id kind status)\<lparr>
                 sr_output := out, sr_error := err, sr_started_at := Some now,
                 sr_finished_at := Some now\<rparr>))))))"

subsection \<open>Every method keeps the constraints of the schema\<close>

lemma step_reads_keep [keeps_rules]:
  "keeps I (st_get_retry_info i k)" "keeps I (latest_step_kind_strict i k)" "keeps I (st_find_by_id a)"
  "keeps I (st_list ps)"
  by (simp_all add: st_get_retry_info_def latest_step_kind_strict_def latest_step_kind_impl_def
      st_find_by_id_def st_list_def keeps_rules)

lemma keeps_steps_count [keeps_rules]:
  "keeps I (update_steps P f) \<Longrightarrow> keeps I (update_steps_count P f)"
  by (auto simp: keeps_def update_steps_count_def bind_op_def split: prod.splits sum.splits)

lemma keeps_insert_step_row [keeps_rules]: "keeps wf_db (insert_step_row r)"
  by (rule keepsI) (auto simp: insert_step_row_def split: option.splits intro!: keepsD [OF keeps_put_steps])

lemma keeps_let [keeps_rules]: "(\<And>x. keeps I (f x)) \<Longrightarrow> keeps I (let x = a in f x)"
  by simp

lemma keeps_begin [keeps_rules]: "keeps wf_db (st_begin cfg now new_id p)"
  unfolding st_begin_def Let_def clear_latest_def by (intro keeps_rules)

lemma keeps_step_complete [keeps_rules]: "keeps wf_db (st_complete cfg now new_id i k out)"
  unfolding st_complete_def Let_def clear_latest_def insert_step_result_def by (intro keeps_rules)

lemma keeps_step_fail [keeps_rules]: "keeps wf_db (st_fail bo now new_id p)"
  unfolding st_fail_def fail_permanently_def clear_latest_def insert_step_result_def
  by (intro keeps_rules)

lemma keeps_pending_sleeps [keeps_rules]: "keeps wf_db (st_complete_pending_sleeps now i)"
  unfolding st_complete_pending_sleeps_def by (intro keeps_rules)

lemma keeps_lifecycle_event [keeps_rules]:
  "keeps wf_db (st_record_lifecycle_event cfg now new_id i kind out)"
  unfolding st_record_lifecycle_event_def Let_def clear_latest_def by (intro keeps_rules)

end
