(* ===== verification/WorkerStore.thy ===== *)
theory WorkerStore
  imports Schema
begin

text \<open>
  The worker repository, \<open>crates/kagzi-store/src/postgres/worker.rs\<close>, one definition per method with the
  prefix \<open>wk_\<close>. \<open>new_id\<close> is what the column default \<open>gen_random_uuid()\<close> returns.

  The lemmas: constraints are kept; registering is an upsert on (namespace, queue, host name, process
  id) among the workers that are not OFFLINE; a worker is marked stale exactly when its last heartbeat
  is older than the threshold.
\<close>

definition worker_into_model ::
  "worker_row \<Rightarrow> int option \<Rightarrow> (string \<times> int) list \<Rightarrow> store_error + worker" where
  "worker_into_model r qlimit tlimits = (case parse_worker_status (kr_status r) of
       None \<Rightarrow> Inl (InvalidState (FmtInvalid ''worker status'' (kr_status r)))
     | Some st \<Rightarrow> Inr \<lparr>
         k_worker_id = kr_worker_id r, k_namespace = kr_namespace r, k_task_queue = kr_task_queue r,
         k_status = st, k_hostname = kr_hostname r, k_pid = kr_pid r, k_version = kr_version r,
         k_workflow_types = kr_workflow_types r, k_registered_at = kr_registered_at r,
         k_last_heartbeat_at = kr_last_heartbeat_at r, k_deregistered_at = kr_deregistered_at r,
         k_labels = kr_labels r, k_queue_concurrency_limit = qlimit,
         k_workflow_type_concurrency = tlimits\<rparr>)"

definition new_worker :: "timestamp \<Rightarrow> uuid \<Rightarrow> register_worker_params \<Rightarrow> worker_row" where
  "new_worker now new_id p = \<lparr>
     kr_worker_id = new_id, kr_namespace = rw_namespace p, kr_task_queue = rw_task_queue p,
     kr_status = show_worker_status WkOnline, kr_hostname = rw_hostname p, kr_pid = rw_pid p,
     kr_version = rw_version p, kr_workflow_types = rw_workflow_types p, kr_registered_at = now,
     kr_last_heartbeat_at = now, kr_deregistered_at = None, kr_labels = rw_labels p\<rparr>"

definition refresh_worker :: "timestamp \<Rightarrow> register_worker_params \<Rightarrow> worker_row \<Rightarrow> worker_row" where
  "refresh_worker now p r = r\<lparr>kr_version := rw_version p, kr_workflow_types := rw_workflow_types p,
     kr_labels := rw_labels p, kr_status := show_worker_status WkOnline, kr_deregistered_at := None,
     kr_last_heartbeat_at := now\<rparr>"

definition registered_as :: "register_worker_params \<Rightarrow> worker_row \<Rightarrow> bool" where
  "registered_as p r = (in_worker_index r
     \<and> worker_key r = (rw_namespace p, rw_task_queue p, rw_hostname p, rw_pid p))"

definition wk_register :: "timestamp \<Rightarrow> uuid \<Rightarrow> register_worker_params \<Rightarrow> uuid store_op" where
  "wk_register now new_id p s = (case List.find (registered_as p) (workers s) of
       Some r \<Rightarrow> bind_op (update_workers (\<lambda>w. kr_worker_id w = kr_worker_id r) (refresh_worker now p))
                   (\<lambda>_. ret_op (kr_worker_id r)) s
     | None \<Rightarrow> bind_op (put_workers (workers s @ [new_worker now new_id p])) (\<lambda>_. ret_op new_id) s)"

definition update_workers_count ::
  "(worker_row \<Rightarrow> bool) \<Rightarrow> (worker_row \<Rightarrow> worker_row) \<Rightarrow> nat store_op" where
  "update_workers_count P f s = bind_op (update_workers P f) (\<lambda>_. ret_op (sql_count P (workers s))) s"

definition wk_heartbeat :: "timestamp \<Rightarrow> uuid \<Rightarrow> bool store_op" where
  "wk_heartbeat now worker_id =
     bind_op (update_workers_count
       (\<lambda>r. kr_worker_id r = worker_id \<and> kr_status r \<noteq> show_worker_status WkOffline)
       (\<lambda>r. r\<lparr>kr_last_heartbeat_at := now\<rparr>)) (\<lambda>n. ret_op (0 < n))"

definition wk_start_drain :: "uuid \<Rightarrow> string \<Rightarrow> unit store_op" where
  "wk_start_drain worker_id ns =
     update_workers (\<lambda>r. kr_worker_id r = worker_id \<and> kr_namespace r = ns)
       (\<lambda>r. r\<lparr>kr_status := show_worker_status WkDraining\<rparr>)"

definition set_offline :: "timestamp \<Rightarrow> worker_row \<Rightarrow> worker_row" where
  "set_offline now r = r\<lparr>kr_status := show_worker_status WkOffline, kr_deregistered_at := Some now\<rparr>"

definition wk_deregister :: "timestamp \<Rightarrow> uuid \<Rightarrow> string \<Rightarrow> unit store_op" where
  "wk_deregister now worker_id ns =
     update_workers (\<lambda>r. kr_worker_id r = worker_id \<and> kr_namespace r = ns) (set_offline now)"

definition wk_find_by_id :: "uuid \<Rightarrow> worker option store_op" where
  "wk_find_by_id worker_id = query_op (\<lambda>s.
     case List.find (\<lambda>r. kr_worker_id r = worker_id) (workers s) of
       None \<Rightarrow> Inr None
     | Some r \<Rightarrow> map_sum id Some (worker_into_model r None []))"

text \<open>
  \<open>list\<close> clamps the page size for the query, in \<open>i32\<close>, but not for the page it returns.
\<close>

definition newest_worker_first :: "uuid \<Rightarrow> uuid \<Rightarrow> bool" where
  "newest_worker_first a b = (b < a)"

definition worker_filter :: "list_workers_params \<Rightarrow> worker_row \<Rightarrow> bool" where
  "worker_filter ps r = (kr_namespace r = lk_namespace ps
     \<and> (case lk_task_queue ps of None \<Rightarrow> True | Some q \<Rightarrow> kr_task_queue r = q)
     \<and> (case lk_filter_status ps of None \<Rightarrow> True | Some st \<Rightarrow> kr_status r = show_worker_status st))"

definition wk_list :: "list_workers_params \<Rightarrow> (worker, uuid) paginated_result store_op" where
  "wk_list ps = query_op (\<lambda>s.
     let limit = as_i32 (max (lk_page_size ps) 1 + 1);
         size = nat (as_u64 (lk_page_size ps));
         found = order_by newest_worker_first kr_worker_id
                   (filter (\<lambda>r. worker_filter ps r
                      \<and> after_cursor newest_worker_first kr_worker_id (lk_cursor ps) r) (workers s))
     in res_bind (sql_limit limit found) (\<lambda>rows.
        if rows = [] then Inr empty_page
        else
          let has_more = size < length rows
          in res_bind (collect_results (map (\<lambda>r. worker_into_model r None []) (take size rows))) (\<lambda>items.
             Inr \<lparr>pr_items = items,
                  pr_next_cursor = (if has_more \<and> items \<noteq> [] then Some (k_worker_id (last items)) else None),
                  pr_has_more = has_more\<rparr>)))"

definition stale :: "timestamp \<Rightarrow> worker_row \<Rightarrow> bool" where
  "stale limit r = (kr_status r \<noteq> show_worker_status WkOffline \<and> kr_last_heartbeat_at r < limit)"

definition wk_mark_stale_offline :: "timestamp \<Rightarrow> int \<Rightarrow> nat store_op" where
  "wk_mark_stale_offline now threshold_secs = (case pg_ts_add now (- threshold_secs * 1000000) of
       None \<Rightarrow> fail_op out_of_range
     | Some limit \<Rightarrow> update_workers_count (stale limit) (set_offline now))"

definition wk_count_online :: "string \<Rightarrow> string \<Rightarrow> int store_op" where
  "wk_count_online ns queue = get_op (\<lambda>s. int (sql_count (\<lambda>r. kr_namespace r = ns
     \<and> kr_task_queue r = queue \<and> kr_status r = show_worker_status WkOnline) (workers s)))"

definition wk_count :: "string \<Rightarrow> string option \<Rightarrow> worker_status option \<Rightarrow> int store_op" where
  "wk_count ns queue status = get_op (\<lambda>s. int (sql_count (\<lambda>r. kr_namespace r = ns
     \<and> (queue = None \<or> queue = Some (kr_task_queue r))
     \<and> (case status of None \<Rightarrow> True | Some st \<Rightarrow> kr_status r = show_worker_status st)) (workers s)))"

text \<open>Text columns are ordered by the collation of the database, the parameter \<open>lt\<close>.\<close>

definition wk_list_distinct_namespaces :: "(string \<Rightarrow> string \<Rightarrow> bool) \<Rightarrow> string list store_op" where
  "wk_list_distinct_namespaces lt = get_op (\<lambda>s. order_by lt id (remdups (map kr_namespace
     (filter (\<lambda>r. kr_status r \<noteq> show_worker_status WkOffline) (workers s)))))"

subsection \<open>Every method keeps the constraints of the schema\<close>

lemma keeps_put_workers [keeps_rules]: "keeps wf_db (put_workers rs)"
  by (intro keepsI) (auto simp: put_workers_def wf_db_def split: option.splits)

lemma keeps_workers_count [keeps_rules]: "keeps wf_db (update_workers_count P f)"
  using keeps_update_workers [of P f]
  by (auto simp: keeps_def update_workers_count_def bind_op_def split: prod.splits sum.splits)

lemma worker_reads_keep [keeps_rules]:
  "keeps I (wk_find_by_id i)" "keeps I (wk_list ps)" "keeps I (wk_count_online ns q)"
  "keeps I (wk_count ns oq st)" "keeps I (wk_list_distinct_namespaces lt)"
  by (simp_all add: wk_find_by_id_def wk_list_def wk_count_online_def wk_count_def
      wk_list_distinct_namespaces_def keeps_rules)

lemma keeps_register [keeps_rules]: "keeps wf_db (wk_register now new_id p)"
proof (rule keepsI)
  fix s assume wf: "wf_db s"
  have "keeps wf_db (bind_op (put_workers rs) (\<lambda>_. ret_op i))" for rs and i :: uuid
    by (intro keeps_rules)
  note new = keepsD [OF this wf]
  have "keeps wf_db (bind_op (update_workers P f) (\<lambda>_. ret_op i))" for P f and i :: uuid
    by (intro keeps_rules)
  note old = keepsD [OF this wf]
  show "wf_db (snd (wk_register now new_id p s))"
    unfolding wk_register_def using new old by (cases "List.find (registered_as p) (workers s)") (simp_all only: option.case)
qed

lemma keeps_worker_updates [keeps_rules]:
  "keeps wf_db (wk_heartbeat now i)" "keeps wf_db (wk_start_drain i ns)"
  "keeps wf_db (wk_deregister now i ns)" "keeps wf_db (wk_mark_stale_offline now n)"
  unfolding wk_heartbeat_def wk_start_drain_def wk_deregister_def wk_mark_stale_offline_def
  by (intro keeps_rules)+

subsection \<open>What the statements do\<close>

text \<open>Updates that leave the key columns alone and never leave OFFLINE cannot break a constraint.\<close>

lemma update_workers_narrow:
  assumes wf: "wf_db s"
    and n: "\<And>r. r \<in> set (workers s) \<Longrightarrow> P r \<Longrightarrow> kr_worker_id (f r) = kr_worker_id r
       \<and> worker_key (f r) = worker_key r \<and> (in_worker_index (f r) \<longrightarrow> in_worker_index r)"
  shows "update_workers P f s = (Inr (), s\<lparr>workers := sql_update P f (workers s)\<rparr>)"
proof -
  let ?rs = "sql_update P f (workers s)"
  have old: "workers_violation (ns_names s) (workers s) = None" using wf by (simp add: wf_db_def)
  have ids: "map kr_worker_id ?rs = map kr_worker_id (workers s)"
    using n by (simp add: sql_update_def)
  have "workers_violation (ns_names s) ?rs = None"
    unfolding workers_violation_None ids
  proof (intro conjI)
    show "distinct (map kr_worker_id (workers s))" using old by (simp add: workers_violation_None)
    show "distinct (map worker_key (filter in_worker_index ?rs))"
      using old n by (intro distinct_map_filter_sql_update) (auto simp: workers_violation_None)
    have "kr_namespace (f r) = kr_namespace r" if "r \<in> set (workers s)" "P r" for r
      using n [OF that] by (simp add: worker_key_def)
    then show "\<forall>r\<in>set ?rs. kr_namespace r \<in> set (ns_names s)"
      using old by (auto simp: workers_violation_None in_sql_update)
  qed
  then show ?thesis by (simp add: update_workers_def put_workers_def)
qed

lemma update_workers_count_narrow:
  assumes "wf_db s"
    and "\<And>r. r \<in> set (workers s) \<Longrightarrow> P r \<Longrightarrow> kr_worker_id (f r) = kr_worker_id r
       \<and> worker_key (f r) = worker_key r \<and> (in_worker_index (f r) \<longrightarrow> in_worker_index r)"
  shows "update_workers_count P f s
       = (Inr (sql_count P (workers s)), s\<lparr>workers := sql_update P f (workers s)\<rparr>)"
  using update_workers_narrow [OF assms] by (simp add: update_workers_count_def bind_op_def)

lemma offline_not_indexed: "\<not> in_worker_index (set_offline now r)"
  by (simp add: in_worker_index_def worker_online_text_def set_offline_def)

lemma stale_exact:
  assumes "wf_db s" and "pg_ts_add now (- n * 1000000) = Some limit"
  shows "wk_mark_stale_offline now n s =
     (Inr (sql_count (stale limit) (workers s)),
      s\<lparr>workers := sql_update (stale limit) (set_offline now) (workers s)\<rparr>)"
  unfolding wk_mark_stale_offline_def assms(2) option.case
  using offline_not_indexed
  by (intro update_workers_count_narrow [OF assms(1)]) (auto simp: set_offline_def worker_key_def)

text \<open>Registering again refreshes the row that is there.\<close>

lemma register_again:
  assumes wf: "wf_db s" and r: "r \<in> set (workers s)" "registered_as p r"
  shows "wk_register now new_id p s = (Inr (kr_worker_id r),
     s\<lparr>workers := map (\<lambda>w. if w = r then refresh_worker now p r else w) (workers s)\<rparr>)"
proof -
  have u: "w = r" if "w \<in> set (workers s)" "kr_worker_id w = kr_worker_id r" for w
    using worker_unique [OF wf that(1) r(1) that(2)] .
  have inj: "inj_on worker_key (set (filter in_worker_index (workers s)))"
    using wf by (simp add: wf_db_def workers_violation_None distinct_map)
  have "x = r" if "x \<in> set (workers s)" "registered_as p x" for x
    using inj that r by (auto simp: inj_on_def registered_as_def)
  then have f: "List.find (registered_as p) (workers s) = Some r"
    using r by (metis find_None_all find_Some_in option.exhaust)
  have "update_workers (\<lambda>w. kr_worker_id w = kr_worker_id r) (refresh_worker now p) s
     = (Inr (), s\<lparr>workers := sql_update (\<lambda>w. kr_worker_id w = kr_worker_id r) (refresh_worker now p) (workers s)\<rparr>)"
  proof (rule update_workers_narrow [OF wf])
    fix w assume w: "w \<in> set (workers s)" "kr_worker_id w = kr_worker_id r"
    have "in_worker_index w" using u [OF w] r(2) by (simp add: registered_as_def)
    then show "kr_worker_id (refresh_worker now p w) = kr_worker_id w
       \<and> worker_key (refresh_worker now p w) = worker_key w
       \<and> (in_worker_index (refresh_worker now p w) \<longrightarrow> in_worker_index w)"
      by (simp add: refresh_worker_def worker_key_def)
  qed
  moreover have "sql_update (\<lambda>w. kr_worker_id w = kr_worker_id r) (refresh_worker now p) (workers s)
     = map (\<lambda>w. if w = r then refresh_worker now p r else w) (workers s)"
    unfolding sql_update_def using u by (intro map_cong) auto
  ultimately show ?thesis by (simp add: wk_register_def f bind_op_def)
qed

lemma register_new:
  assumes wf: "wf_db s" and "\<forall>r\<in>set (workers s). \<not> registered_as p r"
    and "new_id \<notin> kr_worker_id ` set (workers s)" and "rw_namespace p \<in> set (ns_names s)"
  shows "wk_register now new_id p s
       = (Inr new_id, s\<lparr>workers := workers s @ [new_worker now new_id p]\<rparr>)"
proof -
  let ?n = "new_worker now new_id p"
  have old: "workers_violation (ns_names s) (workers s) = None" using wf by (simp add: wf_db_def)
  have key: "worker_key ?n = (rw_namespace p, rw_task_queue p, rw_hostname p, rw_pid p)"
    by (simp add: new_worker_def worker_key_def)
  have "workers_violation (ns_names s) (workers s @ [?n]) = None"
    unfolding workers_violation_None
  proof (intro conjI)
    show "distinct (map kr_worker_id (workers s @ [?n]))"
      using old assms(3) by (simp add: workers_violation_None new_worker_def)
    show "distinct (map worker_key (filter in_worker_index (workers s @ [?n])))"
      using old assms(2) key by (auto simp: workers_violation_None registered_as_def)
    show "\<forall>r\<in>set (workers s @ [?n]). kr_namespace r \<in> set (ns_names s)"
      using old assms(4) by (auto simp: workers_violation_None new_worker_def)
  qed
  moreover have "List.find (registered_as p) (workers s) = None"
    using assms(2) by (simp add: find_None_all)
  ultimately show ?thesis by (simp add: wk_register_def bind_op_def put_workers_def)
qed

text \<open>Whatever registering did, the worker is there afterwards, online, with what it registered.\<close>

lemma register_row:
  assumes "wk_register now new_id p s = (Inr i, s')"
  shows "\<exists>k\<in>set (workers s'). kr_worker_id k = i \<and> kr_status k = show_worker_status WkOnline
    \<and> kr_namespace k = rw_namespace p \<and> kr_task_queue k = rw_task_queue p \<and> kr_workflow_types k = rw_workflow_types p"
proof (cases "List.find (registered_as p) (workers s)")
  case None
  then have "i = new_id" "workers s' = workers s @ [new_worker now new_id p]"
    using assms by (auto simp: wk_register_def success put_workers_def split: option.splits)
  then show ?thesis by (simp add: new_worker_def)
next
  case (Some r)
  then have r: "r \<in> set (workers s)" "registered_as p r" using find_Some_in [OF Some] by auto
  have "i = kr_worker_id r"
    "workers s' = sql_update (\<lambda>w. kr_worker_id w = kr_worker_id r) (refresh_worker now p) (workers s)"
    using assms by (auto simp: wk_register_def Some success update_workers_def put_workers_def split: option.splits)
  moreover from this have "refresh_worker now p r \<in> set (workers s')" using r(1) by (force simp: sql_update_def)
  ultimately show ?thesis using r(2)
    by (intro bexI [of _ "refresh_worker now p r"]) (auto simp: refresh_worker_def registered_as_def worker_key_def)
qed

end
