(* ===== verification/NamespaceStore.thy ===== *)
theory NamespaceStore
  imports WorkflowStore
begin

text \<open>
  The namespace repository, \<open>crates/kagzi-store/src/postgres/namespace.rs\<close>, one definition per method
  with the prefix \<open>np_\<close>. \<open>now\<close> is \<open>Utc::now()\<close>, \<open>new_id\<close> the default of the column \<open>id\<close>, \<open>lt\<close> the
  collation by which text columns are ordered. Groups without \<open>ORDER BY\<close> come in the order of the
  table. The row type is the model type, as in the source (\<open>query_as!(Namespace, \<dots>)\<close>).

  The lemmas: constraints are kept, names stay unique, the totals of \<open>get_stats\<close> are the counts of
  the tables.
\<close>

record create_namespace =
  cn_namespace :: string
  cn_display_name :: string
  cn_description :: "string option"

record update_namespace =
  un_display_name :: "string option"
  un_description :: "string option"

definition find_namespace :: "string \<Rightarrow> db \<Rightarrow> namespace_row option" where
  "find_namespace ns s = List.find (\<lambda>r. nr_namespace r = ns) (namespaces s)"

definition new_namespace :: "timestamp \<Rightarrow> uuid \<Rightarrow> string \<Rightarrow> string \<Rightarrow> string option \<Rightarrow> namespace_row" where
  "new_namespace now new_id ns display descr = \<lparr>nr_id = new_id, nr_namespace = ns,
     nr_display_name = display, nr_description = descr, nr_enabled = True, nr_created_at = now,
     nr_updated_at = now\<rparr>"

definition insert_namespace :: "namespace_row \<Rightarrow> (db, sql_error, unit) op" where
  "insert_namespace r s = (case namespaces_violation (namespaces s @ [r]) of
       Some e \<Rightarrow> (Inl e, s)
     | None \<Rightarrow> (Inr (), s\<lparr>namespaces := namespaces s @ [r]\<rparr>))"

definition np_create :: "timestamp \<Rightarrow> uuid \<Rightarrow> create_namespace \<Rightarrow> namespace_row store_op" where
  "np_create now new_id p =
     (let r = new_namespace now new_id (cn_namespace p) (cn_display_name p) (cn_description p)
      in bind_op (map_err_op (\<lambda>e. case e of
             UniqueViolation c \<Rightarrow> Conflict (FmtNamespaceExists (cn_namespace p))
           | e \<Rightarrow> store_error_from e) (insert_namespace r)) (\<lambda>_. ret_op r))"

definition np_find_by_id :: "string \<Rightarrow> namespace_row option store_op" where
  "np_find_by_id ns = get_op (find_namespace ns)"

definition np_find_by_internal_id :: "uuid \<Rightarrow> namespace_row option store_op" where
  "np_find_by_internal_id i = get_op (\<lambda>s. List.find (\<lambda>r. nr_id r = i) (namespaces s))"

definition clamp :: "int \<Rightarrow> int \<Rightarrow> int \<Rightarrow> int" where
  "clamp lo hi x = (if x < lo then lo else if hi < x then hi else x)"

definition np_list ::
  "(string \<Rightarrow> string \<Rightarrow> bool) \<Rightarrow> int \<Rightarrow> string option \<Rightarrow> (namespace_row, string) paginated_result store_op" where
  "np_list lt page_size cur = query_op (\<lambda>s.
     let limit = clamp 1 100 page_size
     in res_bind (sql_limit limit (order_by lt nr_namespace
          (filter (after_cursor lt nr_namespace cur) (namespaces s)))) (\<lambda>rows.
        Inr \<lparr>pr_items = rows,
             pr_next_cursor = (if rows = [] then None else Some (nr_namespace (last rows))),
             pr_has_more = (int (length rows) = limit)\<rparr>))"

text \<open>\<open>UPDATE \<dots> RETURNING\<close> on a key column: the updated row, or "not found".\<close>

definition update_namespaces ::
  "string \<Rightarrow> (namespace_row \<Rightarrow> namespace_row) \<Rightarrow> namespace_row option store_op" where
  "update_namespaces ns f s = (Inr (map_option f (find_namespace ns s)),
     s\<lparr>namespaces := sql_update (\<lambda>r. nr_namespace r = ns) f (namespaces s)\<rparr>)"

definition require_found :: "string \<Rightarrow> 'a option \<Rightarrow> 'a store_op" where
  "require_found ns r = (case r of Some x \<Rightarrow> ret_op x
     | None \<Rightarrow> fail_op (NotFound ''namespace'' (Lit ns)))"

definition np_update :: "timestamp \<Rightarrow> string \<Rightarrow> update_namespace \<Rightarrow> namespace_row store_op" where
  "np_update now ns p = (case (un_display_name p, un_description p) of
       (Some name, Some desc) \<Rightarrow> bind_op (update_namespaces ns (\<lambda>r. r\<lparr>nr_display_name := name,
            nr_description := Some desc, nr_updated_at := now\<rparr>)) (require_found ns)
     | (Some name, None) \<Rightarrow> bind_op (update_namespaces ns (\<lambda>r. r\<lparr>nr_display_name := name,
            nr_updated_at := now\<rparr>)) (require_found ns)
     | (None, Some desc) \<Rightarrow> bind_op (update_namespaces ns (\<lambda>r. r\<lparr>nr_description := Some desc,
            nr_updated_at := now\<rparr>)) (require_found ns)
     | (None, None) \<Rightarrow> bind_op (np_find_by_id ns) (require_found ns))"

definition np_set_enabled :: "bool \<Rightarrow> timestamp \<Rightarrow> string \<Rightarrow> bool store_op" where
  "np_set_enabled b now ns s = (Inr (0 < sql_count (\<lambda>r. nr_namespace r = ns) (namespaces s)),
     s\<lparr>namespaces := sql_update (\<lambda>r. nr_namespace r = ns)
         (\<lambda>r. r\<lparr>nr_enabled := b, nr_updated_at := now\<rparr>) (namespaces s)\<rparr>)"

definition np_enable :: "timestamp \<Rightarrow> string \<Rightarrow> bool store_op" where
  "np_enable = np_set_enabled True"

definition np_disable :: "timestamp \<Rightarrow> string \<Rightarrow> bool store_op" where
  "np_disable = np_set_enabled False"

text \<open>
  \<open>get_or_create\<close> reads and inserts in two statements; the insert meets a row that another caller has
  created in between with \<open>ON CONFLICT \<dots> DO UPDATE SET updated_at\<close>.
\<close>

definition upsert_namespace :: "timestamp \<Rightarrow> uuid \<Rightarrow> string \<Rightarrow> namespace_row store_op" where
  "upsert_namespace now new_id ns s = (case find_namespace ns s of
       Some r \<Rightarrow> bind_op (update_namespaces ns (\<lambda>r. r\<lparr>nr_updated_at := now\<rparr>))
                   (\<lambda>_. ret_op (r\<lparr>nr_updated_at := now\<rparr>)) s
     | None \<Rightarrow> bind_op (map_err_op store_error_from
           (insert_namespace (new_namespace now new_id ns ns None)))
           (\<lambda>_. ret_op (new_namespace now new_id ns ns None)) s)"

definition np_get_or_create :: "timestamp \<Rightarrow> uuid \<Rightarrow> string \<Rightarrow> namespace_row store_op" where
  "np_get_or_create now new_id ns =
     bind_op (np_find_by_id ns) (\<lambda>found. case found of
       Some r \<Rightarrow> ret_op r
     | None \<Rightarrow> upsert_namespace now new_id ns)"

definition np_list_distinct_namespaces :: "(string \<Rightarrow> string \<Rightarrow> bool) \<Rightarrow> string list store_op" where
  "np_list_distinct_namespaces lt = get_op (\<lambda>s. order_by lt id (remdups (map nr_namespace (namespaces s))))"

subsection \<open>Statistics\<close>

definition runs_in :: "string \<Rightarrow> db \<Rightarrow> run_row list" where
  "runs_in ns s = filter (\<lambda>r. wr_namespace r = ns) (runs s)"

text \<open>\<open>GROUP BY\<close> with \<open>COUNT(*)\<close>: one group per value that occurs.\<close>

definition count_by :: "('r \<Rightarrow> 'k) \<Rightarrow> 'r list \<Rightarrow> ('k \<times> int) list" where
  "count_by key rs = map (\<lambda>k. (k, int (sql_count (\<lambda>r. key r = k) rs))) (remdups (map key rs))"

definition type_counts ::
  "(string \<Rightarrow> string \<Rightarrow> bool) \<Rightarrow> run_row list \<Rightarrow> (string \<times> int \<times> int \<times> string list) list" where
  "type_counts lt rs = map (\<lambda>t. let of_type = filter (\<lambda>r. wr_workflow_type r = t) rs in
       (t, int (length of_type), int (sql_count is_active of_type),
        order_by lt id (remdups (map wr_task_queue of_type))))
     (order_by lt id (remdups (map wr_workflow_type rs)))"

definition count_of :: "string \<Rightarrow> (string \<times> int) list \<Rightarrow> int" where
  "count_of st counts = (case List.find (\<lambda>(k, n). k = st) counts of None \<Rightarrow> 0 | Some (k, n) \<Rightarrow> n)"

definition np_get_stats :: "(string \<Rightarrow> string \<Rightarrow> bool) \<Rightarrow> string \<Rightarrow> namespace_stats store_op" where
  "np_get_stats lt ns = get_op (\<lambda>s.
     let by_status = count_by wr_status (runs_in ns s);
         by_type = type_counts lt (runs_in ns s);
         ws = filter (\<lambda>r. kr_namespace r = ns) (workers s);
         schedules = sql_count (\<lambda>r. wr_status r = show_status WsScheduled \<and> wr_schedule_id r \<noteq> None)
                       (runs_in ns s)
     in \<lparr>ns_total_workflows = sum_list (map (\<lambda>(t, total, active, queues). total) by_type),
         ns_pending_workflows = count_of (show_status WsPending) by_status,
         ns_running_workflows = count_of (show_status WsRunning) by_status,
         ns_completed_workflows = count_of (show_status WsCompleted) by_status,
         ns_failed_workflows = count_of (show_status WsFailed) by_status,
         ns_total_workers = int (sql_count (\<lambda>r. kr_status r \<noteq> show_worker_status WkOffline) ws),
         ns_online_workers = int (sql_count (\<lambda>r. kr_status r = show_worker_status WkOnline) ws),
         ns_total_schedules = int schedules, ns_enabled_schedules = int schedules,
         ns_workflows_by_status = by_status, ns_workflows_by_type = by_type\<rparr>)"

text \<open>The queues of a type are read by one query per type, at most 50 of them, in table order.\<close>

definition np_list_workflow_types ::
  "(string \<Rightarrow> string \<Rightarrow> bool) \<Rightarrow> string \<Rightarrow> int \<Rightarrow> string option
    \<Rightarrow> (workflow_type_info, string) paginated_result store_op" where
  "np_list_workflow_types lt ns page_size cur = query_op (\<lambda>s.
     let limit = clamp 1 100 page_size;
         types = order_by lt id (filter (after_cursor lt id cur)
                   (remdups (map wr_workflow_type (runs_in ns s))))
     in res_bind (sql_limit limit types) (\<lambda>ts.
        let items = map (\<lambda>t. let of_type = filter (\<lambda>r. wr_workflow_type r = t) (runs_in ns s) in
              \<lparr>ti_workflow_type = t, ti_total_runs = int (length of_type),
               ti_active_runs = int (sql_count is_active of_type),
               ti_task_queues = take 50 (remdups (map wr_task_queue of_type))\<rparr>) ts
        in Inr \<lparr>pr_items = items,
                pr_next_cursor = (if items = [] then None else Some (ti_workflow_type (last items))),
                pr_has_more = (int (length items) = limit)\<rparr>))"

subsection \<open>Every method keeps the constraints of the schema\<close>

lemma namespace_reads_keep [keeps_rules]:
  "keeps I (np_find_by_id ns)" "keeps I (np_find_by_internal_id i)" "keeps I (np_list lt n c)"
  "keeps I (np_list_distinct_namespaces lt)" "keeps I (np_get_stats lt ns)"
  "keeps I (np_list_workflow_types lt ns n c)" "keeps I (require_found ns r)"
  by (simp_all add: np_find_by_id_def np_find_by_internal_id_def np_list_def
      np_list_distinct_namespaces_def np_get_stats_def np_list_workflow_types_def require_found_def
      keeps_rules split: option.split)

lemma wf_more_namespaces:
  assumes "wf_db s" and "namespaces_violation ns = None"
    and "set (ns_names s) \<subseteq> set (map nr_namespace ns)"
  shows "wf_db (s\<lparr>namespaces := ns\<rparr>)"
proof -
  have *: "x \<in> nr_namespace ` set (namespaces s) \<Longrightarrow> x \<in> nr_namespace ` set ns" for x
    using assms(3) by auto
  show ?thesis using assms(1,2) * by (simp add: wf_db_def violation_None)
qed

lemma keeps_insert_namespace [keeps_rules]: "keeps wf_db (insert_namespace r)"
  by (rule keepsI) (auto simp: insert_namespace_def split: option.splits intro!: wf_more_namespaces)

lemma keeps_namespace_create [keeps_rules]: "keeps wf_db (np_create now new_id p)"
  unfolding np_create_def Let_def by (intro keeps_rules)

lemma wf_update_namespaces:
  assumes "wf_db s" and "\<And>r. nr_namespace (f r) = nr_namespace r \<and> nr_id (f r) = nr_id r"
  shows "wf_db (s\<lparr>namespaces := sql_update P f (namespaces s)\<rparr>)"
proof (rule wf_more_namespaces [OF assms(1)])
  have "map nr_namespace (sql_update P f (namespaces s)) = ns_names s"
    "map nr_id (sql_update P f (namespaces s)) = map nr_id (namespaces s)"
    using assms(2) by (simp_all add: map_sql_update)
  then show "namespaces_violation (sql_update P f (namespaces s)) = None"
    and "set (ns_names s) \<subseteq> set (map nr_namespace (sql_update P f (namespaces s)))"
    using assms(1) by (simp_all add: wf_db_def namespaces_violation_None)
qed

lemma keeps_update_namespaces:
  "(\<And>r. nr_namespace (f r) = nr_namespace r \<and> nr_id (f r) = nr_id r) \<Longrightarrow> keeps wf_db (update_namespaces ns f)"
  by (rule keepsI) (simp add: update_namespaces_def wf_update_namespaces)

lemma keeps_upsert_namespace [keeps_rules]: "keeps wf_db (upsert_namespace now new_id ns)"
proof (rule keepsI)
  fix s assume wf: "wf_db s"
  have "keeps wf_db (bind_op (map_err_op store_error_from (insert_namespace r)) (\<lambda>_. ret_op r'))"
    for r and r' :: namespace_row
    by (intro keeps_rules)
  note new = keepsD [OF this wf]
  have "keeps wf_db (bind_op (update_namespaces ns (\<lambda>r. r\<lparr>nr_updated_at := now\<rparr>)) (\<lambda>_. ret_op r'))"
    for r' :: namespace_row
    by (intro keeps_rules keeps_update_namespaces) simp
  note old = keepsD [OF this wf]
  show "wf_db (snd (upsert_namespace now new_id ns s))"
    unfolding upsert_namespace_def using new old by (cases "find_namespace ns s") (simp_all only: option.case)
qed

lemma keeps_get_or_create [keeps_rules]: "keeps wf_db (np_get_or_create now new_id ns)"
  unfolding np_get_or_create_def by (intro keeps_rules)

lemma keeps_namespace_update [keeps_rules]: "keeps wf_db (np_update now ns p)"
  unfolding np_update_def
  by (auto split: option.splits intro!: keeps_rules keeps_update_namespaces)

lemma keeps_set_enabled [keeps_rules]:
  "keeps wf_db (np_enable now ns)" "keeps wf_db (np_disable now ns)"
  by (auto simp: keeps_def np_enable_def np_disable_def np_set_enabled_def wf_update_namespaces)

subsection \<open>Counts\<close>

lemma count_of_count_by:
  "count_of k (count_by key rs) = int (sql_count (\<lambda>r. key r = k) rs)"
proof -
  have *: "List.find (\<lambda>(k', n). k' = k) (map (\<lambda>k. (k, g k)) ks) = (if k \<in> set ks then Some (k, g k) else None)"
    for ks :: "string list" and g :: "string \<Rightarrow> int"
    by (induction ks) auto
  have "sql_count (\<lambda>r. key r = k) rs = 0" if "k \<notin> key ` set rs"
    using that by (auto simp: sql_count_0)
  then show ?thesis by (auto simp: count_of_def count_by_def *)
qed

lemma sum_list_order_by:
  fixes g :: "'a \<Rightarrow> int"
  shows "sum_list (map g (order_by lt key xs)) = sum_list (map g xs)"
proof (induction xs)
  case (Cons x xs)
  have "sum_list (map g (insert_by lt key x ys)) = g x + sum_list (map g ys)" for ys
    by (induction ys) auto
  with Cons show ?case by (simp add: order_by_def)
qed (simp add: order_by_def)

lemma sum_group_sizes:
  "sum_list (map (\<lambda>k. int (length (filter (\<lambda>r. key r = k) rs))) (remdups (map key rs))) = int (length rs)"
proof -
  have "sum_list (map (\<lambda>k. int (length (filter (\<lambda>r. key r = k) rs))) ks) = int (length (filter (\<lambda>r. key r \<in> set ks) rs))"
    if "distinct ks" for ks
    using that
  proof (induction ks)
    case (Cons k ks)
    have "length (filter (\<lambda>r. key r \<in> set (k # ks)) rs)
        = length (filter (\<lambda>r. key r = k) rs) + length (filter (\<lambda>r. key r \<in> set ks) rs)"
      using Cons.prems by (induction rs) auto
    with Cons show ?case by simp
  qed simp
  from this [of "remdups (map key rs)"] show ?thesis by (simp add: filter_True)
qed

end
