(* ===== verification/Helpers.thy ===== *)
theory Helpers
  imports StepStore WorkerStore NamespaceStore
begin

text \<open>
  \<open>crates/kagzi-server/src/helpers.rs\<close>: gRPC errors, payloads, the merge of retry policies, page sizes,
  page cursors, and the mapping of store errors.

  What the server takes from outside the repository is gathered in the record \<open>env\<close>: the text form
  of \<open>Uuid\<close>, Base64, the range of \<open>chrono\<close>'s millisecond timestamps, the crate \<open>backon\<close>, the collation
  of the database, the conversion of a protobuf duration (whole seconds, nothing when it is negative), the texts that
  \<open>format!\<close> builds. \<open>env_ok\<close> names the documented laws that theorems use. A
  \<open>Status\<close> keeps its detail message decoded.
\<close>

subsection \<open>What comes from outside\<close>

record env =
  show_uuid :: "uuid \<Rightarrow> string"
  parse_uuid_str :: "string \<Rightarrow> uuid option"
  b64_encode :: "bytes \<Rightarrow> string"
  b64_decode :: "string \<Rightarrow> bytes option"
  millis_ok :: "int \<Rightarrow> bool"
  backoff :: backoff_iter
  collate :: "string \<Rightarrow> string \<Rightarrow> bool"
  duration_secs :: "int \<times> int \<Rightarrow> int option"
  render :: "msg \<Rightarrow> string"

definition ascii :: "string \<Rightarrow> bool" where
  "ascii s = list_all (\<lambda>c. (of_char c :: nat) < 128) s"

definition env_ok :: "env \<Rightarrow> bool" where
  "env_ok E \<longleftrightarrow> (\<forall>u. parse_uuid_str E (show_uuid E u) = Some u \<and> ascii (show_uuid E u))
     \<and> (\<forall>b. b64_decode E (b64_encode E b) = Some b \<and> (b64_encode E b = [] \<longrightarrow> b = []))"

subsection \<open>Errors\<close>

text \<open>The codes of \<open>tonic::Code\<close>; the server itself answers with the first eight.\<close>

datatype grpc_code =
  CInvalidArgument | CNotFound | CFailedPrecondition | CAborted | CUnavailable | CDeadlineExceeded
| CPermissionDenied | CInternal | COk | CCancelled | CUnknown | CAlreadyExists | CResourceExhausted
| COutOfRange | CUnimplemented | CDataLoss | CUnauthenticated

datatype error_code =
  EcUnspecified | EcNotFound | EcInvalidArgument | EcPreconditionFailed | EcConflict | EcUnauthorized
| EcUnavailable | EcInternal | EcTimeout

record error_detail =
  ed_code :: error_code
  ed_message :: msg
  ed_non_retryable :: bool
  ed_retry_after_ms :: int
  ed_subject :: string
  ed_subject_id :: msg
  ed_metadata :: "(string \<times> string) list"

record status =
  st_code :: grpc_code
  st_message :: msg
  st_detail :: error_detail

definition err_detail ::
  "error_code \<Rightarrow> msg \<Rightarrow> bool \<Rightarrow> int \<Rightarrow> string \<Rightarrow> msg \<Rightarrow> error_detail" where
  "err_detail code message non_retryable retry_after subject subject_id = \<lparr>
     ed_code = code, ed_message = message, ed_non_retryable = non_retryable,
     ed_retry_after_ms = retry_after, ed_subject = subject, ed_subject_id = subject_id,
     ed_metadata = []\<rparr>"

definition status_with_detail :: "grpc_code \<Rightarrow> error_detail \<Rightarrow> status" where
  "status_with_detail code d = \<lparr>st_code = code, st_message = ed_message d, st_detail = d\<rparr>"

definition invalid_argument_error :: "msg \<Rightarrow> status" where
  "invalid_argument_error m =
     status_with_detail CInvalidArgument (err_detail EcInvalidArgument m True 0 [] (Lit []))"

definition not_found_error :: "msg \<Rightarrow> string \<Rightarrow> msg \<Rightarrow> status" where
  "not_found_error m subject i = status_with_detail CNotFound (err_detail EcNotFound m True 0 subject i)"

definition precondition_failed_error :: "msg \<Rightarrow> status" where
  "precondition_failed_error m =
     status_with_detail CFailedPrecondition (err_detail EcPreconditionFailed m True 0 [] (Lit []))"

definition conflict_error :: "msg \<Rightarrow> status" where
  "conflict_error m = status_with_detail CAborted (err_detail EcConflict m False 0 [] (Lit []))"

definition unavailable_error :: "msg \<Rightarrow> status" where
  "unavailable_error m = status_with_detail CUnavailable (err_detail EcUnavailable m False 0 [] (Lit []))"

definition deadline_exceeded_error :: "msg \<Rightarrow> status" where
  "deadline_exceeded_error m =
     status_with_detail CDeadlineExceeded (err_detail EcTimeout m False 0 [] (Lit []))"

definition permission_denied_error :: "msg \<Rightarrow> status" where
  "permission_denied_error m =
     status_with_detail CPermissionDenied (err_detail EcUnauthorized m True 0 [] (Lit []))"

definition internal_error :: "msg \<Rightarrow> status" where
  "internal_error m = status_with_detail CInternal (err_detail EcInternal m True 0 [] (Lit []))"

definition string_error_detail :: "string option \<Rightarrow> error_detail" where
  "string_error_detail m = err_detail EcUnspecified
     (Lit (case m of None \<Rightarrow> [] | Some s \<Rightarrow> s)) False 0 [] (Lit [])"

fun map_store_error :: "store_error \<Rightarrow> status" where
  "map_store_error (NotFound entity i) = not_found_error (FmtNotFound entity) entity i"
| "map_store_error (InvalidArgument m) = invalid_argument_error m"
| "map_store_error (InvalidState m) = precondition_failed_error m"
| "map_store_error (AlreadyCompleted m) = precondition_failed_error m"
| "map_store_error (Conflict m) = conflict_error m"
| "map_store_error (LockConflict m) = conflict_error m"
| "map_store_error (PreconditionFailed m) = precondition_failed_error m"
| "map_store_error (Unauthorized m) = permission_denied_error m"
| "map_store_error (Unavailable m) = unavailable_error m"
| "map_store_error (Timeout m) = deadline_exceeded_error m"
| "map_store_error (Database e) = internal_error (Lit ''Database error'')"
| "map_store_error Serialization = internal_error (Lit ''Serialization error'')"

text \<open>A handler, and a call of the store from it.\<close>

type_synonym 'a handler = "(db, status, 'a) op"

definition call_store :: "'a store_op \<Rightarrow> 'a handler" where
  "call_store m = map_err_op map_store_error m"

definition require_some :: "status \<Rightarrow> 'a option \<Rightarrow> 'a handler" where
  "require_some e x = (case x of Some a \<Rightarrow> ret_op a | None \<Rightarrow> fail_op e)"

definition ensure :: "bool \<Rightarrow> status \<Rightarrow> unit handler" where
  "ensure b e = (if b then ret_op () else fail_op e)"

lemma keeps_call_store [keeps_rules]: "keeps I m \<Longrightarrow> keeps I (call_store m)"
  unfolding call_store_def by (rule keeps_rules)

lemma keeps_require_some [keeps_rules]: "keeps I (require_some e x)"
  unfolding require_some_def by (cases x) (simp_all only: option.case keeps_rules)

lemma keeps_ensure [keeps_rules]: "keeps I (ensure b e)"
  unfolding ensure_def by (intro keeps_rules)

lemma call_store_success [success]: "call_store m s = (Inr b, s') \<longleftrightarrow> m s = (Inr b, s')"
  unfolding call_store_def by (rule map_err_success)

lemma require_some_success [success]: "require_some e x s = (Inr a, s') \<longleftrightarrow> x = Some a \<and> s' = s"
  by (auto simp: require_some_def split: option.split)

lemma ensure_success [success]: "ensure c e s = (Inr b, s') \<longleftrightarrow> c \<and> s' = s"
  by (auto simp: ensure_def)

lemma call_store_Inr [simp]: "m s = (Inr a, s') \<Longrightarrow> call_store m s = (Inr a, s')"
  by (simp add: call_store_def map_err_op_def)

lemma call_store_Inl [simp]: "m s = (Inl e, s') \<Longrightarrow> call_store m s = (Inl (map_store_error e), s')"
  by (simp add: call_store_def map_err_op_def)

lemma call_store_InrD: "call_store m s = (Inr a, s') \<Longrightarrow> m s = (Inr a, s')"
  by (auto simp: call_store_def map_err_op_def split: prod.splits sum.splits)

subsection \<open>Payloads\<close>

record payload =
  p_data :: bytes
  p_metadata :: "(string \<times> bytes) list"

definition payload_to_bytes :: "payload option \<Rightarrow> bytes" where
  "payload_to_bytes p = (case p of None \<Rightarrow> [] | Some x \<Rightarrow> p_data x)"

definition payload_to_optional_bytes :: "payload option \<Rightarrow> bytes option" where
  "payload_to_optional_bytes p =
     Option.bind (map_option p_data p) (\<lambda>d. if d = [] then None else Some d)"

definition bytes_to_payload :: "bytes option \<Rightarrow> payload" where
  "bytes_to_payload d = \<lparr>p_data = (case d of None \<Rightarrow> [] | Some x \<Rightarrow> x), p_metadata = []\<rparr>"

text \<open>\<open>to_vec\<close> is \<open>serde_json::to_vec\<close> for the JSON values \<open>'j\<close>.\<close>

definition json_to_payload :: "('j \<Rightarrow> string + bytes) \<Rightarrow> 'j option \<Rightarrow> status + payload" where
  "json_to_payload to_vec v = (case v of
       None \<Rightarrow> Inr \<lparr>p_data = [], p_metadata = []\<rparr>
     | Some j \<Rightarrow> (case to_vec j of
         Inl e \<Rightarrow> Inl (internal_error (Lit (''Failed to serialize payload: '' @ e)))
       | Inr d \<Rightarrow> Inr \<lparr>p_data = d, p_metadata = []\<rparr>))"

definition default_payload_settings :: store_config where
  "default_payload_settings = \<lparr>payload_warn_threshold_bytes = 1024 * 1024, payload_max_size_bytes = 2 * 1024 * 1024\<rparr>"

subsection \<open>Retry policies, page sizes\<close>

text \<open>The protobuf policy has the same fields; zero means "not set".\<close>

definition merge_proto_policy ::
  "retry_policy option \<Rightarrow> retry_policy option \<Rightarrow> retry_policy option" where
  "merge_proto_policy proto fallback = (case proto of
       None \<Rightarrow> fallback
     | Some p \<Rightarrow>
         let base = (case fallback of Some q \<Rightarrow> q | None \<Rightarrow> default_policy)
         in Some \<lparr>
           maximum_attempts = (if maximum_attempts p \<noteq> 0 then maximum_attempts p else maximum_attempts base),
           initial_interval_ms = (if initial_interval_ms p \<noteq> 0 then initial_interval_ms p
                                  else initial_interval_ms base),
           backoff_coefficient = (if \<not> f64_is_zero (backoff_coefficient p) then backoff_coefficient p
                                  else backoff_coefficient base),
           maximum_interval_ms = (if maximum_interval_ms p \<noteq> 0 then maximum_interval_ms p
                                  else maximum_interval_ms base),
           non_retryable_errors = (if non_retryable_errors p \<noteq> [] then non_retryable_errors p
                                   else non_retryable_errors base)\<rparr>)"

definition require_non_empty :: "string \<Rightarrow> string \<Rightarrow> status + string" where
  "require_non_empty v field =
     (if v = [] then Inl (invalid_argument_error (FmtRequired field)) else Inr v)"

definition normalize_page_size :: "int \<Rightarrow> int \<Rightarrow> int \<Rightarrow> int" where
  "normalize_page_size requested dflt mx = (if requested \<le> 0 then dflt else min requested mx)"

definition parse_uuid :: "env \<Rightarrow> string \<Rightarrow> status + uuid" where
  "parse_uuid E s = (case parse_uuid_str E s of
       None \<Rightarrow> Inl (invalid_argument_error (FmtInvalidUuid s)) | Some u \<Rightarrow> Inr u)"

lemma require_non_empty_success [success]: "require_non_empty v f = Inr x \<longleftrightarrow> v \<noteq> [] \<and> x = v"
  by (auto simp: require_non_empty_def)

subsection \<open>Page cursors\<close>

text \<open>Decimal text of an \<open>i64\<close>, and \<open>str::parse::<i64>\<close>: an optional sign, then digits, in range.\<close>

fun show_nat :: "nat \<Rightarrow> string" where
  "show_nat n = (if n < 10 then [char_of (48 + n)] else show_nat (n div 10) @ [char_of (48 + n mod 10)])"

declare show_nat.simps [simp del]

definition show_int :: "int \<Rightarrow> string" where
  "show_int i = (if i < 0 then CHR ''-'' # show_nat (nat (- i)) else show_nat (nat i))"

definition digit :: "char \<Rightarrow> nat option" where
  "digit c = (let n = (of_char c :: nat) in if 48 \<le> n \<and> n \<le> 57 then Some (n - 48) else None)"

fun parse_digits :: "nat \<Rightarrow> string \<Rightarrow> nat option" where
  "parse_digits acc [] = Some acc"
| "parse_digits acc (c # cs) = (case digit c of None \<Rightarrow> None | Some d \<Rightarrow> parse_digits (acc * 10 + d) cs)"

definition parse_nat :: "string \<Rightarrow> nat option" where
  "parse_nat s = (if s = [] then None else parse_digits 0 s)"

definition parse_i64 :: "string \<Rightarrow> int option" where
  "parse_i64 s =
     (let v = (case s of
          [] \<Rightarrow> None
        | c # cs \<Rightarrow> if c = CHR ''-'' then map_option (\<lambda>n. - int n) (parse_nat cs)
                    else if c = CHR ''+'' then map_option int (parse_nat cs)
                    else map_option int (parse_nat s))
      in Option.bind v (\<lambda>i. if - (2 ^ 63) \<le> i \<and> i < 2 ^ 63 then Some i else None))"

text \<open>\<open>splitn(2, ':')\<close>: the part before the first colon and, if there is one, the rest.\<close>

fun split_colon :: "string \<Rightarrow> string \<times> string option" where
  "split_colon [] = ([], None)"
| "split_colon (c # cs) = (if c = CHR '':'' then ([], Some cs)
     else case split_colon cs of (a, b) \<Rightarrow> (c # a, b))"

definition encode_cursor :: "env \<Rightarrow> int \<Rightarrow> uuid \<Rightarrow> string" where
  "encode_cursor E timestamp_ms i =
     b64_encode E (bytes_of_string (show_int timestamp_ms @ '':'' @ show_uuid E i))"

definition bad_token :: status where
  "bad_token = invalid_argument_error (Lit ''Invalid page_token'')"

definition decode_cursor :: "env \<Rightarrow> string \<Rightarrow> status + cursor" where
  "decode_cursor E token =
     (case Option.bind (b64_decode E token) from_utf8 of
        None \<Rightarrow> Inl bad_token
      | Some str \<Rightarrow> (case split_colon str of (ms_str, rest) \<Rightarrow>
          (case parse_i64 ms_str of
             None \<Rightarrow> Inl bad_token
           | Some ms \<Rightarrow> (case rest of
               None \<Rightarrow> Inl bad_token
             | Some id_str \<Rightarrow>
                 if \<not> millis_ok E ms then Inl bad_token
                 else (case parse_uuid_str E id_str of
                     None \<Rightarrow> Inl bad_token
                   | Some i \<Rightarrow> Inr (ms * 1000, i))))))"

text \<open>\<open>DateTime::timestamp_millis\<close> rounds towards minus infinity.\<close>

definition timestamp_millis :: "timestamp \<Rightarrow> int" where
  "timestamp_millis t = t div 1000"

subsection \<open>Cursors survive the round trip, to the millisecond\<close>

lemma digit_char: "d < 10 \<Longrightarrow> digit (char_of (48 + d)) = Some d"
  by (simp add: digit_def Let_def)

lemma parse_digits_append:
  "parse_digits acc (xs @ ys) = (case parse_digits acc xs of None \<Rightarrow> None | Some a \<Rightarrow> parse_digits a ys)"
  by (induction acc xs rule: parse_digits.induct) (auto split: option.split)

lemma show_nat_not_Nil [simp]: "show_nat n \<noteq> []"
  by (subst show_nat.simps) simp

lemma parse_show_nat: "parse_digits 0 (show_nat n) = Some n"
proof (induction n rule: show_nat.induct)
  case (1 n)
  show ?case
  proof (cases "n < 10")
    case True
    then show ?thesis by (subst show_nat.simps) (simp add: digit_char)
  next
    case False
    have "digit (char_of (48 + n mod 10)) = Some (n mod 10)" by (rule digit_char) simp
    then show ?thesis using 1 False by (subst show_nat.simps) (simp add: parse_digits_append)
  qed
qed

lemma show_nat_chars: "c \<in> set (show_nat n) \<Longrightarrow> \<exists>d :: nat. d < 10 \<and> c = char_of (48 + d)"
proof (induction n rule: show_nat.induct)
  case (1 n)
  show ?case
  proof (cases "n < 10")
    case True
    then show ?thesis using 1(2) by (subst (asm) show_nat.simps) auto
  next
    case False
    have "c \<in> set (show_nat (n div 10)) \<or> c = char_of (48 + n mod 10 :: nat)"
      using 1(2) False by (subst (asm) show_nat.simps) auto
    then show ?thesis using 1(1) [OF False] by (metis mod_less_divisor zero_less_numeral)
  qed
qed

lemma digit_chars: "d < 10 \<Longrightarrow> char_of (48 + d) \<noteq> CHR ''-'' \<and> char_of (48 + d) \<noteq> CHR ''+''
    \<and> char_of (48 + d) \<noteq> CHR '':'' \<and> (of_char (char_of (48 + d) :: char) :: nat) < 128" for d :: nat
proof -
  assume d: "d < 10"
  have o: "(of_char (char_of (48 + d) :: char) :: nat) = 48 + d" using d by simp
  show ?thesis
    using o d by (auto simp: dest!: arg_cong [where f = "of_char :: char \<Rightarrow> nat"])
qed

lemma parse_show_int: "- (2 ^ 63) \<le> i \<Longrightarrow> i < 2 ^ 63 \<Longrightarrow> parse_i64 (show_int i) = Some i"
proof -
  assume r: "- (2 ^ 63) \<le> i" "i < 2 ^ 63"
  obtain c cs where c: "show_nat (nat i) = c # cs" by (cases "show_nat (nat i)") auto
  then have "c \<in> set (show_nat (nat i))" by simp
  then obtain d :: nat where "d < 10" "c = char_of (48 + d)" using show_nat_chars by blast
  then have nc: "c \<noteq> CHR ''-''" "c \<noteq> CHR ''+''" using digit_chars by auto
  have p: "parse_nat (show_nat n) = Some n" for n by (simp add: parse_nat_def parse_show_nat)
  show ?thesis
  proof (cases "i < 0")
    case True
    then show ?thesis using r p by (simp add: parse_i64_def show_int_def Let_def)
  next
    case False
    then have "parse_i64 (show_int i) = Option.bind (map_option int (parse_nat (show_nat (nat i))))
       (\<lambda>i. if - (2 ^ 63) \<le> i \<and> i < 2 ^ 63 then Some i else None)"
      using nc c by (simp add: parse_i64_def show_int_def Let_def)
    then show ?thesis using False r p by simp
  qed
qed

lemma show_int_chars:
  "c \<in> set (show_int i) \<Longrightarrow> c \<noteq> CHR '':'' \<and> (of_char c :: nat) < 128"
  using show_nat_chars digit_chars by (auto simp: show_int_def split: if_splits) fastforce+

lemma split_colon_append: "CHR '':'' \<notin> set a \<Longrightarrow> split_colon (a @ '':'' @ b) = (a, Some b)"
  by (induction a) auto

lemma utf8_ascii: "list_all (\<lambda>b. b < 0x80) bs \<Longrightarrow> utf8_valid bs"
  by (induction bs) auto

lemma ascii_from_utf8: "ascii s \<Longrightarrow> from_utf8 (bytes_of_string s) = Some s"
proof -
  assume a: "ascii s"
  have b: "unat (of_nat (of_char c) :: 8 word) = of_char c" if "(of_char c :: nat) < 128" for c :: char
    using that by (simp add: unat_of_nat take_bit_nat_eq_self)
  have "list_all (\<lambda>b. b < 0x80) (bytes_of_string s)"
    using a b by (auto simp: ascii_def bytes_of_string_def list_all_iff word_less_nat_alt)
  moreover have "string_of_bytes (bytes_of_string s) = s"
    using a b by (auto simp: ascii_def bytes_of_string_def string_of_bytes_def list_all_iff intro: map_idI)
  ultimately show ?thesis by (simp add: from_utf8_def utf8_ascii)
qed

subsection \<open>A concrete environment\<close>

text \<open>Decimal text for \<open>Uuid\<close>s and the bytes themselves for Base64.\<close>

definition demo_env :: env where
  "demo_env = \<lparr>show_uuid = \<lambda>u. show_nat (unat u),
     parse_uuid_str = \<lambda>s. Option.bind (parse_nat s) (\<lambda>n. if int n < 2 ^ 128 then Some (of_nat n) else None),
     b64_encode = string_of_bytes, b64_decode = \<lambda>s. Some (bytes_of_string s),
     millis_ok = \<lambda>t. - 8334601228800000 \<le> t \<and> t \<le> 8210266876799999,
     backoff = \<lambda>mn mx k. None, collate = \<lambda>a b. False, duration_secs = \<lambda>(s, n). if s < 0 then None else Some s,
     render = \<lambda>m. []\<rparr>"

end
