(* ===== verification/ProtoConvert.thy ===== *)
theory ProtoConvert
  imports Helpers
begin

text \<open>
  \<open>crates/kagzi-server/src/proto_convert.rs\<close>: store models to protobuf messages and back. Enumerations
  of the protobuf files are datatypes; \<open>map_proto_step_kind\<close> reads the wire number. A protobuf
  timestamp is the pair of seconds and nanoseconds.
\<close>

type_synonym proto_timestamp = "int \<times> int"

datatype proto_workflow_status =
  PwUnspecified | PwPending | PwRunning | PwSleeping | PwCompleted | PwFailed | PwCancelled
| PwScheduled | PwPaused

datatype proto_step_status = PsUnspecified | PsPending | PsRunning | PsCompleted | PsFailed

datatype proto_step_kind = PkUnspecified | PkFunction | PkSleep | PkChildWorkflow | PkLifecycle

datatype proto_worker_status = PzUnspecified | PzOnline | PzDraining | PzOffline

definition timestamp_from :: "timestamp \<Rightarrow> proto_timestamp" where
  "timestamp_from t = (t div 1000000, (t mod 1000000) * 1000)"

fun map_workflow_status :: "workflow_status \<Rightarrow> proto_workflow_status" where
  "map_workflow_status WsPending = PwPending"
| "map_workflow_status WsRunning = PwRunning"
| "map_workflow_status WsSleeping = PwSleeping"
| "map_workflow_status WsCompleted = PwCompleted"
| "map_workflow_status WsFailed = PwFailed"
| "map_workflow_status WsCancelled = PwCancelled"
| "map_workflow_status WsScheduled = PwScheduled"
| "map_workflow_status WsPaused = PwPaused"

fun workflow_status_to_string :: "proto_workflow_status \<Rightarrow> string" where
  "workflow_status_to_string PwPending = ''PENDING''"
| "workflow_status_to_string PwRunning = ''RUNNING''"
| "workflow_status_to_string PwSleeping = ''SLEEPING''"
| "workflow_status_to_string PwCompleted = ''COMPLETED''"
| "workflow_status_to_string PwFailed = ''FAILED''"
| "workflow_status_to_string PwCancelled = ''CANCELLED''"
| "workflow_status_to_string PwScheduled = ''SCHEDULED''"
| "workflow_status_to_string PwPaused = ''PAUSED''"
| "workflow_status_to_string PwUnspecified = ''UNSPECIFIED''"

fun map_step_status :: "step_status \<Rightarrow> proto_step_status" where
  "map_step_status SsPending = PsPending"
| "map_step_status SsRunning = PsRunning"
| "map_step_status SsCompleted = PsCompleted"
| "map_step_status SsFailed = PsFailed"

fun map_step_kind :: "step_kind \<Rightarrow> proto_step_kind" where
  "map_step_kind SkFunction = PkFunction"
| "map_step_kind SkSleep = PkSleep"
| "map_step_kind SkWorkflowStarted = PkLifecycle"
| "map_step_kind SkWorkflowCompleted = PkLifecycle"
| "map_step_kind SkWorkflowFailed = PkLifecycle"
| "map_step_kind SkWorkflowCancelled = PkLifecycle"

definition proto_step_kind_of :: "int \<Rightarrow> proto_step_kind option" where
  "proto_step_kind_of n = (if n = 0 then Some PkUnspecified else if n = 1 then Some PkFunction
     else if n = 2 then Some PkSleep else if n = 3 then Some PkChildWorkflow
     else if n = 4 then Some PkLifecycle else None)"

definition map_proto_step_kind :: "int \<Rightarrow> status + step_kind" where
  "map_proto_step_kind n = (case proto_step_kind_of n of
       None \<Rightarrow> Inl (invalid_argument_error (Lit ''step kind is required''))
     | Some PkFunction \<Rightarrow> Inr SkFunction
     | Some PkSleep \<Rightarrow> Inr SkSleep
     | Some PkChildWorkflow \<Rightarrow> Inr SkFunction
     | Some PkLifecycle \<Rightarrow> Inl (invalid_argument_error
         (Lit ''lifecycle steps are synthetic and cannot be created by workers''))
     | Some PkUnspecified \<Rightarrow> Inl (invalid_argument_error (Lit ''step kind is required'')))"

fun map_worker_status :: "worker_status \<Rightarrow> proto_worker_status" where
  "map_worker_status WkOnline = PzOnline"
| "map_worker_status WkDraining = PzDraining"
| "map_worker_status WkOffline = PzOffline"

definition empty_payload :: payload where
  "empty_payload = \<lparr>p_data = [], p_metadata = []\<rparr>"

record proto_workflow =
  px_run_id :: string
  px_external_id :: string
  px_namespace :: string
  px_task_queue :: string
  px_workflow_type :: string
  px_status :: proto_workflow_status
  px_input :: "payload option"
  px_output :: "payload option"
  px_error :: "error_detail option"
  px_attempts :: int
  px_created_at :: "proto_timestamp option"
  px_started_at :: "proto_timestamp option"
  px_finished_at :: "proto_timestamp option"
  px_wake_up_at :: "proto_timestamp option"
  px_worker_id :: "string option"
  px_version :: string
  px_parent_step_id :: "string option"
  px_cron_expr :: "string option"
  px_schedule_id :: "string option"

record proto_step =
  py_step_id :: string
  py_run_id :: string
  py_namespace :: string
  py_name :: string
  py_kind :: proto_step_kind
  py_status :: proto_step_status
  py_attempt_number :: int
  py_input :: "payload option"
  py_output :: "payload option"
  py_error :: "error_detail option"
  py_created_at :: "proto_timestamp option"
  py_started_at :: "proto_timestamp option"
  py_finished_at :: "proto_timestamp option"
  py_child_run_id :: "string option"

record proto_worker =
  pz_worker_id :: string
  pz_task_queue :: string
  pz_status :: proto_worker_status
  pz_hostname :: string
  pz_pid :: int
  pz_version :: string
  pz_workflow_types :: "string list"
  pz_registered_at :: "proto_timestamp option"
  pz_last_heartbeat_at :: "proto_timestamp option"
  pz_labels :: labels
  pz_queue_concurrency_limit :: "int option"
  pz_workflow_type_concurrency :: "(string \<times> int) list"

text \<open>\<open>now\<close> is read when the run has no creation time; the fields the server always leaves unset are
  omitted.\<close>

definition workflow_to_proto :: "env \<Rightarrow> timestamp \<Rightarrow> workflow_run \<Rightarrow> status + proto_workflow" where
  "workflow_to_proto E now w = Inr \<lparr>
     px_run_id = show_uuid E (w_run_id w), px_external_id = w_external_id w,
     px_namespace = w_namespace w, px_task_queue = w_task_queue w,
     px_workflow_type = w_workflow_type w, px_status = map_workflow_status (w_status w),
     px_input = Some (bytes_to_payload (Some (w_input w))),
     px_output = Some (bytes_to_payload (w_output w)),
     px_error = map_option (\<lambda>m. string_error_detail (Some m)) (w_error w),
     px_attempts = w_attempts w,
     px_created_at = Some (timestamp_from (case w_created_at w of None \<Rightarrow> now | Some t \<Rightarrow> t)),
     px_started_at = map_option timestamp_from (w_started_at w),
     px_finished_at = map_option timestamp_from (w_finished_at w),
     px_wake_up_at = map_option timestamp_from (w_available_at w),
     px_worker_id = w_locked_by w,
     px_version = (case w_version w of None \<Rightarrow> [] | Some v \<Rightarrow> v),
     px_parent_step_id = w_parent_step_attempt_id w,
     px_cron_expr = w_cron_expr w, px_schedule_id = map_option (show_uuid E) (w_schedule_id w)\<rparr>"

definition step_to_proto :: "env \<Rightarrow> step_run \<Rightarrow> status + proto_step" where
  "step_to_proto E s = Inr \<lparr>
     py_step_id = s_step_id s, py_run_id = show_uuid E (s_run_id s), py_namespace = s_namespace s,
     py_name = s_step_id s, py_kind = map_step_kind (s_step_kind s),
     py_status = map_step_status (s_status s), py_attempt_number = s_attempt_number s,
     py_input = Some (bytes_to_payload (s_input s)), py_output = Some (bytes_to_payload (s_output s)),
     py_error = map_option (\<lambda>m. string_error_detail (Some m)) (s_error s),
     py_created_at = map_option timestamp_from (s_created_at s),
     py_started_at = map_option timestamp_from (s_started_at s),
     py_finished_at = map_option timestamp_from (s_finished_at s),
     py_child_run_id = map_option (show_uuid E) (s_child_workflow_run_id s)\<rparr>"

definition worker_to_proto :: "env \<Rightarrow> worker \<Rightarrow> proto_worker" where
  "worker_to_proto E w = \<lparr>
     pz_worker_id = show_uuid E (k_worker_id w), pz_task_queue = k_task_queue w,
     pz_status = map_worker_status (k_status w),
     pz_hostname = (case k_hostname w of None \<Rightarrow> [] | Some h \<Rightarrow> h),
     pz_pid = (case k_pid w of None \<Rightarrow> 0 | Some p \<Rightarrow> p),
     pz_version = (case k_version w of None \<Rightarrow> [] | Some v \<Rightarrow> v),
     pz_workflow_types = k_workflow_types w,
     pz_registered_at = Some (timestamp_from (k_registered_at w)),
     pz_last_heartbeat_at = Some (timestamp_from (k_last_heartbeat_at w)),
     pz_labels = k_labels w, pz_queue_concurrency_limit = k_queue_concurrency_limit w,
     pz_workflow_type_concurrency = k_workflow_type_concurrency w\<rparr>"

lemma status_text_round_trip [simp]:
  "workflow_status_to_string (map_workflow_status st) = show_status st"
  by (cases st) (simp_all add: show_status.simps)

end
