(* ===== verification/WorkflowService.thy ===== *)
theory WorkflowService
  imports ProtoConvert
begin

text \<open>
  \<open>crates/kagzi-server/src/workflow_service.rs\<close>: what clients call. One definition per method of the
  service, with the prefix \<open>wv_\<close>; \<open>t k\<close> is \<open>NOW()\<close> in the \<open>k\<close>-th transaction of the request, \<open>u k\<close> the
  \<open>k\<close>-th generated \<open>Uuid\<close>. Tracing and the notification of the queue, whose result is dropped, are left
  out. \<open>page\<close> is the message \<open>PageRequest\<close>, whose default is zero everywhere.
\<close>

record start_request =
  sq_external_id :: string
  sq_task_queue :: string
  sq_workflow_type :: string
  sq_input :: "payload option"
  sq_namespace :: string
  sq_version :: string
  sq_retry_policy :: "retry_policy option"

record page_request =
  pg_page_size :: int
  pg_page_token :: string
  pg_include_total_count :: bool

definition default_page :: page_request where
  "default_page = \<lparr>pg_page_size = 0, pg_page_token = [], pg_include_total_count = False\<rparr>"

record 'a page_response =
  ps_items :: "'a list"
  ps_next_page_token :: string
  ps_has_more :: bool
  ps_total_count :: int

definition default_version :: string where
  "default_version = ''1''"

definition parse_run_id :: "env \<Rightarrow> string \<Rightarrow> uuid handler" where
  "parse_run_id E s = (case parse_uuid_str E s of
       Some u \<Rightarrow> ret_op u
     | None \<Rightarrow> fail_op (invalid_argument_error (Lit ''Invalid run_id: must be a valid UUID'')))"

definition start_params :: "uuid \<Rightarrow> start_request \<Rightarrow> create_workflow" where
  "start_params run_id r = \<lparr>
     cw_run_id = run_id, cw_external_id = sq_external_id r, cw_task_queue = sq_task_queue r,
     cw_workflow_type = sq_workflow_type r, cw_input = payload_to_bytes (sq_input r),
     cw_namespace = sq_namespace r,
     cw_version = (if sq_version r = [] then default_version else sq_version r),
     cw_retry_policy = merge_proto_policy (sq_retry_policy r) None,
     cw_cron_expr = None, cw_schedule_id = None\<rparr>"

text \<open>The answer is (run_id, already_exists).\<close>

definition wv_start_workflow ::
  "env \<Rightarrow> store_config \<Rightarrow> (nat \<Rightarrow> timestamp) \<Rightarrow> (nat \<Rightarrow> uuid) \<Rightarrow> start_request \<Rightarrow> (string \<times> bool) handler" where
  "wv_start_workflow E cfg t u req =
     bind_op (lift_op (require_non_empty (sq_external_id req) ''external_id'')) (\<lambda>external_id.
     bind_op (lift_op (require_non_empty (sq_task_queue req) ''task_queue'')) (\<lambda>_.
     bind_op (lift_op (require_non_empty (sq_workflow_type req) ''workflow_type'')) (\<lambda>_.
     bind_op (lift_op (require_non_empty (sq_namespace req) ''namespace'')) (\<lambda>ns.
     bind_op (call_store (np_get_or_create (t 0) (u 0) ns)) (\<lambda>_.
     bind_op (match_op (wf_create cfg (t 1) (start_params (u 1) req)) (\<lambda>created. case created of
         Inr i \<Rightarrow> ret_op (i, False)
       | Inl e \<Rightarrow>
           if is_unique_violation e
           then bind_op (call_store (wf_find_active_by_external_id ns external_id)) (\<lambda>existing.
                bind_op (require_some (map_store_error e) existing) (\<lambda>i. ret_op (i, True)))
           else fail_op (map_store_error e))) (\<lambda>(run_id, already_exists).
     ret_op (show_uuid E run_id, already_exists)))))))"

definition wv_get_workflow :: "env \<Rightarrow> timestamp \<Rightarrow> string \<Rightarrow> string \<Rightarrow> proto_workflow handler" where
  "wv_get_workflow E now run namespace =
     bind_op (parse_run_id E run) (\<lambda>run_id.
     bind_op (lift_op (require_non_empty namespace ''namespace'')) (\<lambda>ns.
     bind_op (call_store (wf_find_by_id run_id ns)) (\<lambda>workflow. case workflow of
         Some w \<Rightarrow> lift_op (workflow_to_proto E now w)
       | None \<Rightarrow> fail_op (not_found_error (FmtRunNotFoundIn run_id ns) ''workflow'' (FmtUuid run_id)))))"

text \<open>An empty token starts at the first page. The numbers of \<open>WorkflowStatus\<close> are those of the wire.\<close>

definition page_cursor :: "env \<Rightarrow> string \<Rightarrow> status + cursor option" where
  "page_cursor E token = (if token = [] then Inr None else map_sum id Some (decode_cursor E token))"

definition proto_workflow_status_of :: "int \<Rightarrow> proto_workflow_status option" where
  "proto_workflow_status_of n = (if 0 \<le> n \<and> n < 9
     then Some ([PwUnspecified, PwPending, PwRunning, PwSleeping, PwCompleted, PwFailed, PwCancelled,
                 PwScheduled, PwPaused] ! nat n)
     else None)"

definition status_filter :: "int option \<Rightarrow> status + string option" where
  "status_filter f = (case f of
       None \<Rightarrow> Inr None
     | Some n \<Rightarrow> (case proto_workflow_status_of n of
           None \<Rightarrow> Inl (invalid_argument_error (Lit ''Invalid status_filter''))
         | Some st \<Rightarrow> Inr (Some (workflow_status_to_string st))))"

definition next_token :: "env \<Rightarrow> cursor option \<Rightarrow> string" where
  "next_token E c = (case c of None \<Rightarrow> [] | Some (t, i) \<Rightarrow> encode_cursor E (timestamp_millis t) i)"

definition wv_list_workflows ::
  "env \<Rightarrow> timestamp \<Rightarrow> string \<Rightarrow> int option \<Rightarrow> page_request option \<Rightarrow> proto_workflow page_response handler" where
  "wv_list_workflows E now namespace filter_status page_req =
     bind_op (lift_op (require_non_empty namespace ''namespace'')) (\<lambda>ns.
     let page = (case page_req of None \<Rightarrow> default_page | Some p \<Rightarrow> p);
         page_size = normalize_page_size (pg_page_size page) 20 100 in
     bind_op (lift_op (page_cursor E (pg_page_token page))) (\<lambda>cur.
     bind_op (lift_op (status_filter filter_status)) (\<lambda>st.
     bind_op (call_store (wf_list \<lparr>lw_namespace = ns, lw_filter_status = st, lw_page_size = page_size,
         lw_cursor = cur, lw_schedule_id = None\<rparr>)) (\<lambda>result.
     bind_op (if pg_include_total_count page then call_store (wf_count ns st) else ret_op 0) (\<lambda>total_count.
     bind_op (lift_op (collect_results (map (workflow_to_proto E now) (pr_items result)))) (\<lambda>workflows.
     ret_op \<lparr>ps_items = workflows, ps_next_page_token = next_token E (pr_next_cursor result),
             ps_has_more = pr_has_more result, ps_total_count = total_count\<rparr>))))))"

text \<open>The answer is (cancelled, status).\<close>

definition wv_cancel_workflow ::
  "env \<Rightarrow> store_config \<Rightarrow> (nat \<Rightarrow> timestamp) \<Rightarrow> uuid \<Rightarrow> string \<Rightarrow> string
    \<Rightarrow> (bool \<times> proto_workflow_status) handler" where
  "wv_cancel_workflow E cfg t new_id run namespace =
     bind_op (parse_run_id E run) (\<lambda>run_id.
     bind_op (lift_op (require_non_empty namespace ''namespace'')) (\<lambda>ns.
     bind_op (call_store (wf_cancel (t 0) run_id ns)) (\<lambda>cancelled.
     if cancelled
     then bind_op (ignore_op (st_record_lifecycle_event cfg (t 1) new_id run_id SkWorkflowCancelled None)) (\<lambda>_.
          ret_op (True, PwCancelled))
     else bind_op (call_store (check_workflow_state run_id ns)) (\<lambda>ex.
          if we_exists ex then fail_op (precondition_failed_error (FmtCannotCancel (we_status ex)))
          else fail_op (not_found_error (FmtRunNotFoundIn run_id ns) ''workflow'' (FmtUuid run_id))))))"

definition wv_get_workflow_by_external_id :: "env \<Rightarrow> timestamp \<Rightarrow> string \<Rightarrow> string \<Rightarrow> proto_workflow handler" where
  "wv_get_workflow_by_external_id E now external namespace =
     bind_op (lift_op (require_non_empty external ''external_id'')) (\<lambda>external_id.
     bind_op (lift_op (require_non_empty namespace ''namespace'')) (\<lambda>ns.
     bind_op (call_store (wf_find_active_by_external_id ns external_id)) (\<lambda>found.
     bind_op (require_some (not_found_error (Lit ''Workflow not found'') ''workflow'' (Lit external_id)) found) (\<lambda>run_id.
     bind_op (call_store (wf_find_by_id run_id ns)) (\<lambda>workflow.
     bind_op (require_some (not_found_error (Lit ''Workflow not found'') ''workflow'' (FmtUuid run_id)) workflow) (\<lambda>w.
     lift_op (workflow_to_proto E now w)))))))"

definition retry_params :: "uuid \<Rightarrow> string \<Rightarrow> workflow_run \<Rightarrow> create_workflow" where
  "retry_params run_id ns w = \<lparr>
     cw_run_id = run_id, cw_external_id = ''retry-'' @ w_external_id w, cw_task_queue = w_task_queue w,
     cw_workflow_type = w_workflow_type w, cw_input = w_input w, cw_namespace = ns,
     cw_version = (case w_version w of None \<Rightarrow> [] | Some v \<Rightarrow> v), cw_retry_policy = None,
     cw_cron_expr = None, cw_schedule_id = None\<rparr>"

text \<open>The answer is (new_run_id, already_running).\<close>

definition wv_retry_workflow ::
  "env \<Rightarrow> store_config \<Rightarrow> timestamp \<Rightarrow> uuid \<Rightarrow> string \<Rightarrow> string \<Rightarrow> (string \<times> bool) handler" where
  "wv_retry_workflow E cfg now new_id run namespace =
     bind_op (parse_run_id E run) (\<lambda>run_id.
     bind_op (lift_op (require_non_empty namespace ''namespace'')) (\<lambda>ns.
     bind_op (call_store (wf_find_by_id run_id ns)) (\<lambda>found.
     bind_op (require_some (not_found_error (Lit ''Workflow not found'') ''workflow'' (FmtUuid run_id)) found) (\<lambda>w.
     if \<not> is_terminal (w_status w) then ret_op ([], True)
     else bind_op (call_store (wf_create cfg now (retry_params new_id ns w))) (\<lambda>new_run_id.
          ret_op (show_uuid E new_run_id, False))))))"

text \<open>The answer is (terminated, status); the namespace is only required to be given.\<close>

definition wv_terminate_workflow ::
  "env \<Rightarrow> timestamp \<Rightarrow> string \<Rightarrow> string \<Rightarrow> string \<Rightarrow> (bool \<times> proto_workflow_status) handler" where
  "wv_terminate_workflow E now run namespace reason =
     bind_op (parse_run_id E run) (\<lambda>run_id.
     bind_op (lift_op (require_non_empty namespace ''namespace'')) (\<lambda>_.
     bind_op (call_store (wf_fail now run_id reason)) (\<lambda>_.
     ret_op (True, PwFailed))))"

subsection \<open>Every request keeps the constraints of the schema\<close>

lemma keeps_parse_run_id [keeps_rules]: "keeps I (parse_run_id E s)"
  unfolding parse_run_id_def by (cases "parse_uuid_str E s") (simp_all only: option.case keeps_rules)

lemma parse_run_id_success [success]:
  "parse_run_id E i s = (Inr u, s') \<longleftrightarrow> parse_uuid_str E i = Some u \<and> s' = s"
  by (auto simp: parse_run_id_def split: option.split)

lemma keeps_case_prod [keeps_rules]: "(\<And>a b. keeps I (f a b)) \<Longrightarrow> keeps I (case x of (a, b) \<Rightarrow> f a b)"
  by (cases x) simp

lemma workflow_service_keeps [keeps_rules]:
  "keeps wf_db (wv_start_workflow E cfg t u req)"
  "keeps wf_db (wv_get_workflow E now run ns)"
  "keeps wf_db (wv_list_workflows E now ns st pg)"
  "keeps wf_db (wv_cancel_workflow E cfg t i run ns)"
  "keeps wf_db (wv_get_workflow_by_external_id E now ext ns)"
  "keeps wf_db (wv_retry_workflow E cfg now i run ns)"
  "keeps wf_db (wv_terminate_workflow E now run ns reason)"
  unfolding wv_start_workflow_def wv_get_workflow_def wv_list_workflows_def wv_cancel_workflow_def
    wv_get_workflow_by_external_id_def wv_retry_workflow_def wv_terminate_workflow_def Let_def
  by (intro keeps_rules)+

end
