(* ===== verification/NamespaceService.thy ===== *)
theory NamespaceService
  imports WorkflowService
begin

text \<open>
  \<open>crates/kagzi-server/src/namespace_service.rs\<close>: one definition per method of the service, with the
  prefix \<open>nv_\<close>. \<open>now\<close> is \<open>Utc::now()\<close> of the repository, \<open>new_id\<close> the generated key. Page tokens are the
  names themselves. The repository answers whether a row was enabled or disabled; the handler does not
  look at the answer and reads the namespace again.
\<close>

record proto_namespace =
  pn_id :: string
  pn_namespace :: string
  pn_display_name :: string
  pn_description :: string
  pn_enabled :: bool
  pn_created_at :: "proto_timestamp option"
  pn_updated_at :: "proto_timestamp option"

definition namespace_to_proto :: "env \<Rightarrow> namespace_row \<Rightarrow> status + proto_namespace" where
  "namespace_to_proto E n = Inr \<lparr>
     pn_id = show_uuid E (nr_id n), pn_namespace = nr_namespace n, pn_display_name = nr_display_name n,
     pn_description = (case nr_description n of None \<Rightarrow> [] | Some d \<Rightarrow> d), pn_enabled = nr_enabled n,
     pn_created_at = Some (timestamp_from (nr_created_at n)),
     pn_updated_at = Some (timestamp_from (nr_updated_at n))\<rparr>"

record create_namespace_request =
  nq_namespace :: string
  nq_display_name :: string
  nq_description :: "string option"

definition nv_create_namespace ::
  "env \<Rightarrow> timestamp \<Rightarrow> uuid \<Rightarrow> create_namespace_request \<Rightarrow> proto_namespace handler" where
  "nv_create_namespace E now new_id req =
     bind_op (lift_op (require_non_empty (nq_namespace req) ''namespace'')) (\<lambda>namespace.
     bind_op (lift_op (require_non_empty (nq_display_name req) ''display_name'')) (\<lambda>display_name.
     bind_op (call_store (np_create now new_id \<lparr>cn_namespace = namespace, cn_display_name = display_name,
         cn_description = nq_description req\<rparr>)) (\<lambda>n.
     lift_op (namespace_to_proto E n))))"

definition nv_get_namespace :: "env \<Rightarrow> string \<Rightarrow> proto_namespace handler" where
  "nv_get_namespace E name =
     bind_op (lift_op (require_non_empty name ''namespace'')) (\<lambda>namespace.
     bind_op (call_store (np_find_by_id namespace)) (\<lambda>found.
     bind_op (require_some (not_found_error (FmtNamespaceNotFound namespace) ''namespace'' (Lit namespace)) found) (\<lambda>n.
     lift_op (namespace_to_proto E n))))"

text \<open>A token that is a name; none is sent for the first page.\<close>

definition name_cursor :: "string \<Rightarrow> string option" where
  "name_cursor token = (if token = [] then None else Some token)"

definition nv_list_namespaces :: "env \<Rightarrow> page_request option \<Rightarrow> proto_namespace page_response handler" where
  "nv_list_namespaces E page =
     bind_op (require_some (invalid_argument_error (Lit ''page is required'')) page) (\<lambda>page_req.
     let page_size = normalize_page_size (pg_page_size page_req) 20 100 in
     bind_op (call_store (np_list (collate E) page_size (name_cursor (pg_page_token page_req)))) (\<lambda>result.
     bind_op (lift_op (collect_results (map (namespace_to_proto E) (pr_items result)))) (\<lambda>namespaces.
     ret_op \<lparr>ps_items = namespaces,
             ps_next_page_token = (case pr_next_cursor result of None \<Rightarrow> [] | Some c \<Rightarrow> c),
             ps_has_more = pr_has_more result, ps_total_count = 0\<rparr>)))"

definition nv_update_namespace ::
  "env \<Rightarrow> timestamp \<Rightarrow> string \<Rightarrow> string option \<Rightarrow> string option \<Rightarrow> proto_namespace handler" where
  "nv_update_namespace E now name display_name description =
     bind_op (lift_op (require_non_empty name ''namespace'')) (\<lambda>namespace.
     bind_op (call_store (np_update now namespace
       \<lparr>un_display_name = display_name, un_description = description\<rparr>)) (\<lambda>n.
     lift_op (namespace_to_proto E n)))"

definition reread_namespace :: "env \<Rightarrow> string \<Rightarrow> proto_namespace handler" where
  "reread_namespace E namespace =
     bind_op (call_store (np_find_by_id namespace)) (\<lambda>found.
     bind_op (require_some (not_found_error (Lit ''Namespace not found'') ''namespace'' (Lit namespace)) found) (\<lambda>n.
     lift_op (namespace_to_proto E n)))"

definition nv_enable_namespace :: "env \<Rightarrow> timestamp \<Rightarrow> string \<Rightarrow> proto_namespace handler" where
  "nv_enable_namespace E now name =
     bind_op (lift_op (require_non_empty name ''namespace'')) (\<lambda>namespace.
     bind_op (call_store (np_enable now namespace)) (\<lambda>_. reread_namespace E namespace))"

definition nv_disable_namespace :: "env \<Rightarrow> timestamp \<Rightarrow> string \<Rightarrow> proto_namespace handler" where
  "nv_disable_namespace E now name =
     bind_op (lift_op (require_non_empty name ''namespace'')) (\<lambda>namespace.
     bind_op (call_store (np_disable now namespace)) (\<lambda>_. reread_namespace E namespace))"

subsection \<open>Every request keeps the constraints of the schema\<close>

lemma keeps_reread [keeps_rules]: "keeps I (reread_namespace E ns)"
  unfolding reread_namespace_def by (intro keeps_rules)

lemma namespace_service_keeps [keeps_rules]:
  "keeps wf_db (nv_create_namespace E now new_id req)"
  "keeps wf_db (nv_get_namespace E name)"
  "keeps wf_db (nv_list_namespaces E pg)"
  "keeps wf_db (nv_update_namespace E now name dn descr)"
  "keeps wf_db (nv_enable_namespace E now name)"
  "keeps wf_db (nv_disable_namespace E now name)"
  unfolding nv_create_namespace_def nv_get_namespace_def nv_list_namespaces_def nv_update_namespace_def
    nv_enable_namespace_def nv_disable_namespace_def Let_def
  by (intro keeps_rules)+

end
