(* ===== verification/WorkerService.thy ===== *)
theory WorkerService
  imports ProtoConvert
begin

text \<open>
  \<open>crates/kagzi-server/src/worker_service.rs\<close>: what workers call. One definition per method of the
  service, with the prefix \<open>ws_\<close>; \<open>t k\<close> is \<open>NOW()\<close> in the \<open>k\<close>-th transaction of the request, \<open>u k\<close> the
  \<open>k\<close>-th generated \<open>Uuid\<close>. Tracing and the recording of spans are left out.

  \<open>poll_task\<close> waits for notifications between its polls: the rounds of the loop are an argument, each
  with its clock reading, the rows locked by others, and what other connections did to the database
  since the last round. The first round is made at once; the list of later rounds ends when the
  deadline has passed.
\<close>

record worker_settings =
  poll_timeout_secs :: nat
  heartbeat_interval_secs :: int
  visibility_timeout_secs :: int
  heartbeat_extension_secs :: int

definition default_worker_settings :: worker_settings where
  "default_worker_settings = \<lparr>poll_timeout_secs = 60, heartbeat_interval_secs = 10,
     visibility_timeout_secs = 60, heartbeat_extension_secs = 45\<rparr>"

definition max_queue_concurrency :: int where
  "max_queue_concurrency = 10000"

definition max_type_concurrency :: int where
  "max_type_concurrency = 10000"

definition normalize_limit :: "int \<Rightarrow> int \<Rightarrow> int option" where
  "normalize_limit raw max_allowed = (if raw \<le> 0 then None else Some (min raw max_allowed))"

definition parse_id :: "env \<Rightarrow> string \<Rightarrow> string \<Rightarrow> uuid handler" where
  "parse_id E err s = (case parse_uuid_str E s of
       Some u \<Rightarrow> ret_op u
     | None \<Rightarrow> fail_op (invalid_argument_error (Lit err)))"

definition validate_workflow_action :: "uuid \<Rightarrow> bool \<Rightarrow> string handler" where
  "validate_workflow_action run_id allow_terminal =
     bind_op (call_store (wf_get_namespace run_id)) (\<lambda>found.
     bind_op (require_some (not_found_error (Lit ''Workflow not found'') ''workflow'' (FmtUuid run_id)) found) (\<lambda>ns.
     bind_op (call_store (check_workflow_state run_id ns)) (\<lambda>chk.
     bind_op (ensure (we_exists chk)
       (not_found_error (FmtRunNotFound run_id) ''workflow'' (FmtUuid run_id))) (\<lambda>_.
     bind_op (case we_status chk of
         Some st \<Rightarrow> ensure (allow_terminal \<or> \<not> is_terminal st) (precondition_failed_error (FmtTerminal st))
       | None \<Rightarrow> ret_op ()) (\<lambda>_.
     ret_op ns)))))"

subsection \<open>Registration, heartbeat, deregistration\<close>

record register_request =
  rq_namespace :: string
  rq_task_queue :: string
  rq_workflow_types :: "string list"
  rq_hostname :: string
  rq_pid :: int
  rq_version :: string
  rq_labels :: labels
  rq_queue_concurrency_limit :: "int option"
  rq_workflow_type_concurrency :: "(string \<times> int) list"

definition non_empty :: "string \<Rightarrow> string option" where
  "non_empty s = (if s = [] then None else Some s)"

definition register_params :: "string \<Rightarrow> register_request \<Rightarrow> register_worker_params" where
  "register_params ns r = \<lparr>
     rw_namespace = ns, rw_task_queue = rq_task_queue r, rw_workflow_types = rq_workflow_types r,
     rw_hostname = non_empty (rq_hostname r), rw_pid = (if rq_pid r \<noteq> 0 then Some (rq_pid r) else None),
     rw_version = non_empty (rq_version r), rw_labels = rq_labels r,
     rw_queue_concurrency_limit =
       Option.bind (rq_queue_concurrency_limit r) (\<lambda>v. normalize_limit v max_queue_concurrency),
     rw_workflow_type_concurrency = List.map_filter
       (\<lambda>(ty, n). map_option (Pair ty) (normalize_limit n max_type_concurrency))
       (rq_workflow_type_concurrency r)\<rparr>"

definition ws_register ::
  "env \<Rightarrow> worker_settings \<Rightarrow> timestamp \<Rightarrow> uuid \<Rightarrow> register_request \<Rightarrow> (string \<times> int) handler" where
  "ws_register E ws now new_id req =
     bind_op (ensure (rq_workflow_types req \<noteq> [])
       (invalid_argument_error (Lit ''workflow_types cannot be empty''))) (\<lambda>_.
     bind_op (lift_op (require_non_empty (rq_namespace req) ''namespace'')) (\<lambda>ns.
     bind_op (call_store (wk_register now new_id (register_params ns req))) (\<lambda>worker_id.
     ret_op (show_uuid E worker_id, heartbeat_interval_secs ws))))"

text \<open>The answer is (accepted, should_drain). Runs are locked under the text of the request.\<close>

definition ws_heartbeat ::
  "env \<Rightarrow> worker_settings \<Rightarrow> (nat \<Rightarrow> timestamp) \<Rightarrow> string \<Rightarrow> (bool \<times> bool) handler" where
  "ws_heartbeat E ws t worker =
     bind_op (parse_id E ''Invalid worker_id'' worker) (\<lambda>worker_id.
     bind_op (call_store (wk_heartbeat (t 0) worker_id)) (\<lambda>accepted.
     bind_op (ensure accepted
       (not_found_error (Lit ''Worker not found or offline'') ''worker'' (Lit worker))) (\<lambda>_.
     bind_op (call_store (wf_extend_visibility (t 1) worker (heartbeat_extension_secs ws))) (\<lambda>_.
     bind_op (call_store (wk_find_by_id worker_id)) (\<lambda>w.
     ret_op (True, case w of Some x \<Rightarrow> k_status x = WkDraining | None \<Rightarrow> False))))))"

definition ws_deregister :: "env \<Rightarrow> timestamp \<Rightarrow> string \<Rightarrow> bool \<Rightarrow> bool handler" where
  "ws_deregister E now worker drain =
     bind_op (parse_id E ''Invalid worker_id'' worker) (\<lambda>worker_id.
     bind_op (call_store (wk_find_by_id worker_id)) (\<lambda>found.
     bind_op (require_some (not_found_error (Lit ''Worker not found'') ''worker'' (Lit worker)) found) (\<lambda>w.
     bind_op (if drain then call_store (wk_start_drain worker_id (k_namespace w))
              else call_store (wk_deregister now worker_id (k_namespace w))) (\<lambda>_.
     ret_op drain))))"

subsection \<open>Polling\<close>

record poll_request =
  po_worker_id :: string
  po_namespace :: string
  po_task_queue :: string
  po_workflow_types :: "string list"

record poll_response =
  pp_run_id :: string
  pp_workflow_type :: string
  pp_input :: payload

record poll_round =
  round_now :: timestamp
  round_locked :: "uuid \<Rightarrow> bool"
  round_others :: "db \<Rightarrow> db"

definition dispatch ::
  "env \<Rightarrow> store_config \<Rightarrow> (nat \<Rightarrow> timestamp) \<Rightarrow> uuid \<Rightarrow> claimed_workflow \<Rightarrow> poll_response handler" where
  "dispatch E cfg t new_id c =
     bind_op (ignore_op (st_complete_pending_sleeps (t 0) (cl_run_id c))) (\<lambda>_.
     bind_op (ignore_op (st_record_lifecycle_event cfg (t 1) new_id (cl_run_id c) SkWorkflowStarted None)) (\<lambda>_.
     ret_op \<lparr>pp_run_id = show_uuid E (cl_run_id c), pp_workflow_type = cl_workflow_type c,
             pp_input = bytes_to_payload (Some (cl_input c))\<rparr>))"

fun poll_loop ::
  "env \<Rightarrow> store_config \<Rightarrow> worker_settings \<Rightarrow> (nat \<Rightarrow> timestamp) \<Rightarrow> uuid \<Rightarrow> string \<Rightarrow> string \<Rightarrow> string
    \<Rightarrow> string list \<Rightarrow> poll_round list \<Rightarrow> poll_response handler" where
  "poll_loop E cfg ws t new_id ns queue worker types [] =
     ret_op \<lparr>pp_run_id = [], pp_workflow_type = [], pp_input = empty_payload\<rparr>"
| "poll_loop E cfg ws t new_id ns queue worker types (r # rs) = (\<lambda>s.
     bind_op (call_store (wf_poll_workflow (round_locked r) (round_now r) ns queue worker types
                (visibility_timeout_secs ws))) (\<lambda>item.
       case item of
         Some c \<Rightarrow> dispatch E cfg t new_id c
       | None \<Rightarrow> poll_loop E cfg ws t new_id ns queue worker types rs) (round_others r s))"

definition ws_poll_task ::
  "env \<Rightarrow> store_config \<Rightarrow> worker_settings \<Rightarrow> (nat \<Rightarrow> timestamp) \<Rightarrow> uuid \<Rightarrow> poll_round
    \<Rightarrow> poll_round list \<Rightarrow> poll_request \<Rightarrow> poll_response handler" where
  "ws_poll_task E cfg ws t new_id first_round rounds req =
     bind_op (parse_id E ''Invalid worker_id'' (po_worker_id req)) (\<lambda>worker_id.
     bind_op (ensure (po_workflow_types req \<noteq> [])
       (invalid_argument_error (Lit ''workflow_types cannot be empty''))) (\<lambda>_.
     bind_op (lift_op (require_non_empty (po_namespace req) ''namespace'')) (\<lambda>ns.
     bind_op (call_store (wk_find_by_id worker_id)) (\<lambda>found.
     bind_op (require_some (precondition_failed_error
       (Lit ''Worker not registered or offline. Call Register first.'')) found) (\<lambda>w.
     bind_op (ensure (k_namespace w = ns \<and> k_task_queue w = po_task_queue req)
       (precondition_failed_error (Lit ''Worker not registered for the requested namespace/task_queue''))) (\<lambda>_.
     bind_op (ensure (k_status w \<noteq> WkOffline)
       (precondition_failed_error (Lit ''Worker not registered or offline. Call Register first.''))) (\<lambda>_.
     bind_op (ensure (k_status w \<noteq> WkDraining)
       (precondition_failed_error (Lit ''Worker is draining and not accepting new work''))) (\<lambda>_.
     let effective_types = filter (\<lambda>ty. ty \<in> set (po_workflow_types req)) (k_workflow_types w) in
     bind_op (ensure (effective_types \<noteq> [])
       (precondition_failed_error (Lit ''Worker is not registered for the requested workflow types''))) (\<lambda>_.
     poll_loop E cfg ws t new_id ns (po_task_queue req) (po_worker_id req) effective_types (first_round # rounds))))))))))"

subsection \<open>Steps\<close>

record begin_step_request =
  bq_run_id :: string
  bq_step_name :: string
  bq_kind :: int
  bq_input :: "payload option"
  bq_retry_policy :: "retry_policy option"

record begin_step_response =
  ba_step_id :: string
  ba_should_execute :: bool
  ba_cached_output :: payload

definition ws_begin_step ::
  "env \<Rightarrow> store_config \<Rightarrow> (nat \<Rightarrow> timestamp) \<Rightarrow> (nat \<Rightarrow> uuid) \<Rightarrow> begin_step_request
    \<Rightarrow> begin_step_response handler" where
  "ws_begin_step E cfg t u req =
     bind_op (parse_id E ''Invalid run_id'' (bq_run_id req)) (\<lambda>run_id.
     bind_op (validate_workflow_action run_id False) (\<lambda>_.
     bind_op (call_store (wf_get_retry_policy run_id)) (\<lambda>workflow_retry_policy.
     bind_op (lift_op (map_proto_step_kind (bq_kind req))) (\<lambda>kind.
     bind_op (call_store (st_begin cfg (t 0) (u 0) \<lparr>bs_run_id = run_id, bs_step_id = bq_step_name req,
         bs_step_kind = kind, bs_input = payload_to_optional_bytes (bq_input req),
         bs_retry_policy = merge_proto_policy (bq_retry_policy req) workflow_retry_policy\<rparr>)) (\<lambda>result.
     bind_op (if kind = SkSleep \<and> \<not> br_should_execute result
              then call_store (st_complete cfg (t 1) (u 1) run_id (bq_step_name req) [])
              else ret_op ()) (\<lambda>_.
     ret_op \<lparr>ba_step_id = bq_step_name req, ba_should_execute = br_should_execute result,
             ba_cached_output = bytes_to_payload (br_cached_output result)\<rparr>))))))"

definition ws_complete_step ::
  "env \<Rightarrow> store_config \<Rightarrow> timestamp \<Rightarrow> uuid \<Rightarrow> string \<Rightarrow> string \<Rightarrow> payload option \<Rightarrow> proto_step handler" where
  "ws_complete_step E cfg now new_id run step_id out =
     bind_op (parse_id E ''Invalid run_id'' run) (\<lambda>run_id.
     bind_op (validate_workflow_action run_id False) (\<lambda>ns.
     bind_op (call_store (st_complete cfg now new_id run_id step_id
       (case payload_to_optional_bytes out of None \<Rightarrow> [] | Some b \<Rightarrow> b))) (\<lambda>_.
     bind_op (call_store (st_list \<lparr>ls_run_id = run_id, ls_namespace = ns, ls_step_id = Some step_id,
       ls_page_size = 1, ls_cursor = None\<rparr>)) (\<lambda>page.
     if pr_items page = [] then fail_op (not_found_error (Lit ''Step not found'') ''step'' (Lit step_id))
     else lift_op (step_to_proto E (last (pr_items page)))))))"

definition default_error_detail :: error_detail where
  "default_error_detail = err_detail EcUnspecified (Lit []) False 0 [] (Lit [])"

text \<open>The text of a message: literal, or as \<open>format!\<close> builds it.\<close>

definition msg_text :: "env \<Rightarrow> msg \<Rightarrow> string" where
  "msg_text E m = (case m of Lit s \<Rightarrow> s | _ \<Rightarrow> render E m)"

definition ws_fail_step ::
  "env \<Rightarrow> (nat \<Rightarrow> timestamp) \<Rightarrow> uuid \<Rightarrow> string \<Rightarrow> string \<Rightarrow> error_detail option \<Rightarrow> bool handler" where
  "ws_fail_step E t new_id run step err =
     bind_op (parse_id E ''Invalid run_id'' run) (\<lambda>run_id.
     bind_op (lift_op (require_non_empty step ''step_id'')) (\<lambda>step_id.
     let d = (case err of Some d \<Rightarrow> d | None \<Rightarrow> default_error_detail) in
     bind_op (call_store (st_fail (backoff E) (t 0) new_id \<lparr>fs_run_id = run_id, fs_step_id = step_id,
         fs_error = msg_text E (ed_message d), fs_non_retryable = ed_non_retryable d,
         fs_retry_after_ms = (if 0 < ed_retry_after_ms d then Some (ed_retry_after_ms d) else None)\<rparr>)) (\<lambda>result.
     bind_op (case fr_schedule_workflow_retry_ms result of
         Some delay_ms \<Rightarrow> call_store (wf_schedule_retry (t 1) run_id delay_ms)
       | None \<Rightarrow> ret_op ()) (\<lambda>_.
     ret_op (fr_scheduled_retry result)))))"

subsection \<open>Finishing and parking a run\<close>

definition ws_complete_workflow ::
  "env \<Rightarrow> store_config \<Rightarrow> (nat \<Rightarrow> timestamp) \<Rightarrow> uuid \<Rightarrow> string \<Rightarrow> payload option
    \<Rightarrow> proto_workflow_status handler" where
  "ws_complete_workflow E cfg t new_id run out =
     bind_op (parse_id E ''Invalid run_id'' run) (\<lambda>run_id.
     bind_op (validate_workflow_action run_id False) (\<lambda>_.
     let output = (case payload_to_optional_bytes out of None \<Rightarrow> [] | Some b \<Rightarrow> b) in
     bind_op (call_store (wf_complete cfg (t 0) run_id output)) (\<lambda>_.
     bind_op (ignore_op (st_record_lifecycle_event cfg (t 1) new_id run_id SkWorkflowCompleted (Some output))) (\<lambda>_.
     ret_op PwCompleted))))"

definition ws_fail_workflow ::
  "env \<Rightarrow> store_config \<Rightarrow> (nat \<Rightarrow> timestamp) \<Rightarrow> uuid \<Rightarrow> string \<Rightarrow> error_detail option
    \<Rightarrow> proto_workflow_status handler" where
  "ws_fail_workflow E cfg t new_id run err =
     bind_op (parse_id E ''Invalid run_id'' run) (\<lambda>run_id.
     bind_op (validate_workflow_action run_id False) (\<lambda>_.
     let m = msg_text E (ed_message (case err of Some d \<Rightarrow> d | None \<Rightarrow> default_error_detail)) in
     bind_op (call_store (wf_fail (t 0) run_id m)) (\<lambda>_.
     bind_op (ignore_op (st_record_lifecycle_event cfg (t 1) new_id run_id SkWorkflowFailed
       (Some (bytes_of_string m)))) (\<lambda>_.
     ret_op PwFailed))))"

definition ws_sleep :: "env \<Rightarrow> timestamp \<Rightarrow> string \<Rightarrow> (int \<times> int) option \<Rightarrow> unit handler" where
  "ws_sleep E now run duration =
     bind_op (parse_id E ''Invalid run_id'' run) (\<lambda>run_id.
     bind_op (require_some (invalid_argument_error (Lit ''duration is required'')) duration) (\<lambda>d.
     bind_op (require_some (invalid_argument_error (Lit ''duration must be non-negative''))
       (duration_secs E d)) (\<lambda>secs.
     if secs = 0 then ret_op ()
     else call_store (wf_schedule_sleep now run_id secs))))"

subsection \<open>Every request keeps the constraints of the schema\<close>

lemma keeps_parse_id [keeps_rules]: "keeps I (parse_id E err s)"
  unfolding parse_id_def by (cases "parse_uuid_str E s") (simp_all only: option.case keeps_rules)

lemma parse_id_success [success]:
  "parse_id E err i s = (Inr u, s') \<longleftrightarrow> parse_uuid_str E i = Some u \<and> s' = s"
  by (auto simp: parse_id_def split: option.split)

lemma keeps_validate [keeps_rules]: "keeps I (validate_workflow_action i b)"
  unfolding validate_workflow_action_def by (intro keeps_rules)

lemma keeps_dispatch [keeps_rules]: "keeps wf_db (dispatch E cfg t new_id c)"
  unfolding dispatch_def by (intro keeps_rules)

lemma keeps_poll_loop_by:
  assumes "list_all (\<lambda>r. \<forall>s. I s \<longrightarrow> I (round_others r s)) rs"
    and "\<And>locked now. keeps I (wf_poll_workflow locked now ns queue worker types (visibility_timeout_secs ws))"
    and "\<And>c. keeps I (dispatch E cfg t new_id c)"
  shows "keeps I (poll_loop E cfg ws t new_id ns queue worker types rs)"
  using assms(1)
proof (induction rs)
  case Nil
  show ?case unfolding poll_loop.simps by (rule keeps_rules)
next
  case (Cons r rs)
  have "keeps I (bind_op (call_store (wf_poll_workflow (round_locked r) (round_now r) ns queue worker types
                (visibility_timeout_secs ws))) (\<lambda>item.
       case item of
         Some c \<Rightarrow> dispatch E cfg t new_id c
       | None \<Rightarrow> poll_loop E cfg ws t new_id ns queue worker types rs))"
    using Cons by (intro keeps_rules assms(2,3)) auto
  then show ?case using Cons.prems unfolding poll_loop.simps by (simp add: keeps_def)
qed

lemma worker_service_keeps [keeps_rules]:
  "keeps wf_db (ws_register E ws now new_id req1)"
  "keeps wf_db (ws_heartbeat E ws t wk)"
  "keeps wf_db (ws_deregister E now wk b)"
  "keeps wf_db (ws_begin_step E cfg t u req2)"
  "keeps wf_db (ws_complete_step E cfg now new_id run step out)"
  "keeps wf_db (ws_fail_step E t new_id run step err)"
  "keeps wf_db (ws_complete_workflow E cfg t new_id run out)"
  "keeps wf_db (ws_fail_workflow E cfg t new_id run err)"
  "keeps wf_db (ws_sleep E now run d)"
  unfolding ws_register_def ws_heartbeat_def ws_deregister_def ws_begin_step_def ws_complete_step_def
    ws_fail_step_def ws_complete_workflow_def ws_fail_workflow_def ws_sleep_def Let_def
  by (intro keeps_rules)+

end
