(* ===== verification/AdminService.thy ===== *)
theory AdminService
  imports NamespaceService WorkerService
begin

text \<open>
  \<open>crates/kagzi-server/src/admin_service.rs\<close> and \<open>crates/kagzi-store/src/postgres/health.rs\<close>: what
  dashboards and operators call. One definition per method of the service, with the prefix \<open>av_\<close>.
  \<open>probe\<close> is the answer of the database to \<open>SELECT 1\<close>, \<open>pkg_version\<close> the version of the package,
  \<open>clock_secs\<close> the system clock in seconds. A \<open>HashMap\<close> is a map; later entries win.
\<close>

definition proto_worker_status_of :: "int \<Rightarrow> proto_worker_status option" where
  "proto_worker_status_of n = (if n = 0 then Some PzUnspecified else if n = 1 then Some PzOnline
     else if n = 2 then Some PzDraining else if n = 3 then Some PzOffline else None)"

definition normalize_worker_status :: "int option \<Rightarrow> status + worker_status option" where
  "normalize_worker_status st = (case st of
       None \<Rightarrow> Inr None
     | Some raw \<Rightarrow> (case proto_worker_status_of raw of
           None \<Rightarrow> Inl (invalid_argument_error (Lit ''Invalid status_filter''))
         | Some PzDraining \<Rightarrow> Inr (Some WkDraining)
         | Some PzOffline \<Rightarrow> Inr (Some WkOffline)
         | Some PzUnspecified \<Rightarrow> Inr None
         | Some PzOnline \<Rightarrow> Inr (Some WkOnline)))"

subsection \<open>Workers\<close>

definition worker_cursor :: "env \<Rightarrow> string \<Rightarrow> status + uuid option" where
  "worker_cursor E token = (if token = [] then Inr None
     else (case parse_uuid_str E token of
         None \<Rightarrow> Inl (invalid_argument_error (Lit ''Invalid page_token''))
       | Some u \<Rightarrow> Inr (Some u)))"

definition given :: "string option \<Rightarrow> string option" where
  "given s = (case s of None \<Rightarrow> None | Some t \<Rightarrow> if t = [] then None else Some t)"

definition av_list_workers ::
  "env \<Rightarrow> string \<Rightarrow> string option \<Rightarrow> int option \<Rightarrow> page_request option
    \<Rightarrow> proto_worker page_response handler" where
  "av_list_workers E namespace task_queue filter_status page_req =
     (let page = (case page_req of None \<Rightarrow> default_page | Some p \<Rightarrow> p) in
     bind_op (ensure (namespace \<noteq> []) (invalid_argument_error (Lit ''namespace is required''))) (\<lambda>_.
     bind_op (lift_op (worker_cursor E (pg_page_token page))) (\<lambda>cur.
     bind_op (lift_op (normalize_worker_status filter_status)) (\<lambda>st.
     bind_op (call_store (wk_list \<lparr>lk_namespace = namespace, lk_task_queue = given task_queue,
         lk_filter_status = st, lk_page_size = normalize_page_size (pg_page_size page) 20 100,
         lk_cursor = cur\<rparr>)) (\<lambda>result.
     bind_op (if pg_include_total_count page then call_store (wk_count namespace (given task_queue) st)
              else ret_op 0) (\<lambda>total_count.
     ret_op \<lparr>ps_items = map (worker_to_proto E) (pr_items result),
             ps_next_page_token = (case pr_next_cursor result of None \<Rightarrow> [] | Some c \<Rightarrow> show_uuid E c),
             ps_has_more = pr_has_more result, ps_total_count = total_count\<rparr>))))))"

definition av_get_worker :: "env \<Rightarrow> string \<Rightarrow> proto_worker handler" where
  "av_get_worker E worker =
     bind_op (parse_id E ''Invalid worker_id'' worker) (\<lambda>worker_id.
     bind_op (call_store (wk_find_by_id worker_id)) (\<lambda>found. case found of
         Some w \<Rightarrow> ret_op (worker_to_proto E w)
       | None \<Rightarrow> fail_op (not_found_error (Lit ''Worker not found'') ''worker'' (Lit worker))))"

text \<open>The message of the answer is always the same.\<close>

definition av_drain_worker :: "env \<Rightarrow> string \<Rightarrow> bool handler" where
  "av_drain_worker E worker =
     bind_op (parse_id E ''Invalid worker_id'' worker) (\<lambda>worker_id.
     bind_op (call_store (wk_find_by_id worker_id)) (\<lambda>found.
     bind_op (require_some (not_found_error (Lit ''Worker not found'') ''worker'' (Lit worker)) found) (\<lambda>w.
     bind_op (call_store (wk_start_drain worker_id (k_namespace w))) (\<lambda>_. ret_op True))))"

subsection \<open>Steps\<close>

definition av_get_step :: "env \<Rightarrow> string \<Rightarrow> proto_step handler" where
  "av_get_step E step =
     bind_op (parse_id E ''Invalid step_id'' step) (\<lambda>step_id.
     bind_op (call_store (st_find_by_id step_id)) (\<lambda>found. case found of
         Some s \<Rightarrow> lift_op (step_to_proto E s)
       | None \<Rightarrow> fail_op (not_found_error (Lit ''Step not found'') ''step'' (Lit step))))"

definition step_page_size :: "int \<Rightarrow> int" where
  "step_page_size n = (if n \<le> 0 then 50 else if 100 < n then 100 else n)"

text \<open>The namespace of the request is not read.\<close>

definition av_list_steps ::
  "env \<Rightarrow> string \<Rightarrow> string option \<Rightarrow> page_request option \<Rightarrow> proto_step page_response handler" where
  "av_list_steps E run step_name page_req =
     bind_op (parse_id E ''Invalid run_id'' run) (\<lambda>run_id.
     bind_op (call_store (wf_get_namespace run_id)) (\<lambda>found.
     bind_op (require_some (not_found_error (Lit ''Workflow not found'') ''workflow'' (FmtUuid run_id)) found) (\<lambda>namespace.
     let page = (case page_req of None \<Rightarrow> default_page | Some p \<Rightarrow> p) in
     bind_op (lift_op (page_cursor E (pg_page_token page))) (\<lambda>cur.
     bind_op (call_store (st_list \<lparr>ls_run_id = run_id, ls_namespace = namespace,
         ls_step_id = given step_name, ls_page_size = step_page_size (pg_page_size page),
         ls_cursor = cur\<rparr>)) (\<lambda>result.
     bind_op (lift_op (collect_results (map (step_to_proto E) (pr_items result)))) (\<lambda>attempts.
     ret_op \<lparr>ps_items = attempts, ps_next_page_token = next_token E (pr_next_cursor result),
             ps_has_more = pr_has_more result, ps_total_count = 0\<rparr>))))))"

subsection \<open>Health, server, statistics\<close>

datatype serving_status = SvUnspecified | SvServing | SvNotServing

definition hp_health_check :: "sql_error + unit \<Rightarrow> unit store_op" where
  "hp_health_check probe = lift_op (map_sum store_error_from id probe)"

definition av_health_check :: "int \<Rightarrow> sql_error + unit \<Rightarrow> (serving_status \<times> string \<times> proto_timestamp) handler" where
  "av_health_check clock_secs probe =
     bind_op (match_op (hp_health_check probe) (\<lambda>r. ret_op (case r of Inr _ \<Rightarrow> SvServing | Inl _ \<Rightarrow> SvNotServing))) (\<lambda>st.
     ret_op (st, (case st of
         SvServing \<Rightarrow> ''Service is healthy and serving requests''
       | SvNotServing \<Rightarrow> ''Service is not healthy - database connection failed''
       | SvUnspecified \<Rightarrow> ''Unknown status''), (clock_secs, 0)))"

record server_info =
  si_version :: string
  si_api_version :: string
  si_supported_features :: "string list"
  si_min_sdk_version :: string

definition av_get_server_info :: "string \<Rightarrow> server_info handler" where
  "av_get_server_info pkg_version = ret_op \<lparr>si_version = pkg_version, si_api_version = ''v1'',
     si_supported_features = [''workflow'', ''worker'', ''workflow_schedule'', ''admin''],
     si_min_sdk_version = ''0.1.0''\<rparr>"

record stats_response =
  gs_total_workflows :: int
  gs_pending_workflows :: int
  gs_running_workflows :: int
  gs_completed_workflows :: int
  gs_failed_workflows :: int
  gs_total_workers :: int
  gs_online_workers :: int
  gs_total_schedules :: int
  gs_enabled_schedules :: int
  gs_workflows_by_status :: "string \<rightharpoonup> int"
  gs_workflows_by_type :: "string \<rightharpoonup> int"

definition collect_map :: "('k \<times> 'v) list \<Rightarrow> 'k \<rightharpoonup> 'v" where
  "collect_map kvs = map_of (rev kvs)"

definition av_get_stats :: "env \<Rightarrow> string option \<Rightarrow> stats_response handler" where
  "av_get_stats E name =
     (let namespace = (case name of None \<Rightarrow> ''default'' | Some n \<Rightarrow> n) in
     bind_op (call_store (np_get_stats (collate E) namespace)) (\<lambda>s.
     ret_op \<lparr>gs_total_workflows = ns_total_workflows s, gs_pending_workflows = ns_pending_workflows s,
       gs_running_workflows = ns_running_workflows s, gs_completed_workflows = ns_completed_workflows s,
       gs_failed_workflows = ns_failed_workflows s, gs_total_workers = ns_total_workers s,
       gs_online_workers = ns_online_workers s, gs_total_schedules = ns_total_schedules s,
       gs_enabled_schedules = ns_enabled_schedules s,
       gs_workflows_by_status = collect_map (ns_workflows_by_status s),
       gs_workflows_by_type = collect_map (map (\<lambda>(t, total, active, queues). (t, total))
         (ns_workflows_by_type s))\<rparr>))"

text \<open>The answer is (pending, running, sleeping); the depth by queue is left empty.\<close>

definition av_get_queue_depth :: "string \<Rightarrow> (int \<times> int \<times> int) handler" where
  "av_get_queue_depth name =
     bind_op (lift_op (require_non_empty name ''namespace'')) (\<lambda>namespace.
     bind_op (call_store (wf_count namespace (Some ''PENDING''))) (\<lambda>pending_count.
     bind_op (call_store (wf_count namespace (Some ''RUNNING''))) (\<lambda>running_count.
     bind_op (call_store (wf_count namespace (Some ''SLEEPING''))) (\<lambda>sleeping_count.
     ret_op (pending_count, running_count, sleeping_count)))))"

definition av_list_workflow_types ::
  "env \<Rightarrow> string \<Rightarrow> page_request option \<Rightarrow> workflow_type_info page_response handler" where
  "av_list_workflow_types E name page =
     bind_op (lift_op (require_non_empty name ''namespace'')) (\<lambda>namespace.
     bind_op (require_some (invalid_argument_error (Lit ''page is required'')) page) (\<lambda>page_req.
     let page_size = normalize_page_size (pg_page_size page_req) 20 100 in
     bind_op (call_store (np_list_workflow_types (collate E) namespace page_size
       (name_cursor (pg_page_token page_req)))) (\<lambda>result.
     ret_op \<lparr>ps_items = pr_items result,
             ps_next_page_token = (case pr_next_cursor result of None \<Rightarrow> [] | Some c \<Rightarrow> c),
             ps_has_more = pr_has_more result, ps_total_count = 0\<rparr>)))"

subsection \<open>Every request keeps the constraints of the schema\<close>

lemma keeps_health [keeps_rules]: "keeps I (hp_health_check probe)"
  unfolding hp_health_check_def by (intro keeps_rules)

lemma admin_service_keeps [keeps_rules]:
  "keeps wf_db (av_list_workers E ns q st pg)"
  "keeps wf_db (av_get_worker E i)"
  "keeps wf_db (av_drain_worker E i)"
  "keeps wf_db (av_get_step E i)"
  "keeps wf_db (av_list_steps E run sn pg)"
  "keeps wf_db (av_health_check clk probe)"
  "keeps wf_db (av_get_server_info v)"
  "keeps wf_db (av_get_stats E name)"
  "keeps wf_db (av_get_queue_depth nm)"
  "keeps wf_db (av_list_workflow_types E nm pg)"
  unfolding av_list_workers_def av_get_worker_def av_drain_worker_def av_get_step_def av_list_steps_def
    av_health_check_def av_get_server_info_def av_get_stats_def av_get_queue_depth_def
    av_list_workflow_types_def Let_def
  by (intro keeps_rules)+

end
