(* ===== verification/Coordinator.thy ===== *)
theory Coordinator
  imports WorkflowStore WorkerStore
begin

text \<open>
  \<open>crates/kagzi-server/src/coordinator.rs\<close>: the background task that fires due schedules and takes
  silent workers offline.

  The crate \<open>cron\<close> is a parameter: \<open>parse e\<close> is the schedule that the expression \<open>e\<close> denotes, given as
  the function that yields the next occurrence after a time, so that iterating it is the iterator
  \<open>after(t)\<close>. Its documented law, \<open>cron_ok\<close>, is that the next occurrence is later. \<open>now\<close> is
  \<open>Utc::now()\<close> at the start of the tick, \<open>t k\<close> what \<open>NOW()\<close> returns and \<open>u k\<close> the \<open>Uuid\<close> generated while the
  \<open>k\<close>-th template is processed, \<open>allow k\<close> the answer of the rate limiter, were it asked then. The
  notification of the queue does not touch the database and its errors are only logged.
\<close>

type_synonym cron_schedule = "timestamp \<Rightarrow> timestamp option"

definition cron_ok :: "cron_schedule \<Rightarrow> bool" where
  "cron_ok nxt \<longleftrightarrow> (\<forall>t t'. nxt t = Some t' \<longrightarrow> t < t')"

record coordinator_settings =
  interval_secs :: nat
  batch_size :: int
  worker_stale_threshold_secs :: int
  default_max_catchup :: int
  max_backfill_per_second :: int

definition default_coordinator_settings :: coordinator_settings where
  "default_coordinator_settings = \<lparr>interval_secs = 5, batch_size = 100,
     worker_stale_threshold_secs = 30, default_max_catchup = 50, max_backfill_per_second = 10\<rparr>"

text \<open>
  \<open>after(cursor).take_while(|t| *t <= now)\<close>. The test that the next occurrence is later ends the
  recursion for every argument; it never fails on a schedule with \<open>cron_ok\<close>.
\<close>

function occurrences :: "cron_schedule \<Rightarrow> timestamp \<Rightarrow> timestamp \<Rightarrow> timestamp list" where
  "occurrences nxt now cursor = (case nxt cursor of
       None \<Rightarrow> []
     | Some t \<Rightarrow> if cursor < t \<and> t \<le> now then t # occurrences nxt now t else [])"
  by pat_completeness auto

termination
  by (relation "measure (\<lambda>(nxt, now, cursor). nat (now - cursor))") auto

declare occurrences.simps [simp del]

text \<open>\<open>after(cursor).nth(k)\<close>.\<close>

fun cron_nth :: "cron_schedule \<Rightarrow> timestamp \<Rightarrow> nat \<Rightarrow> timestamp option" where
  "cron_nth nxt cursor 0 = nxt cursor"
| "cron_nth nxt cursor (Suc k) = (case nxt cursor of None \<Rightarrow> None | Some t \<Rightarrow> cron_nth nxt t k)"

definition next_or_year :: "cron_schedule \<Rightarrow> timestamp \<Rightarrow> timestamp \<Rightarrow> timestamp" where
  "next_or_year nxt now t =
     (case nxt t of Some n \<Rightarrow> n | None \<Rightarrow> now + 365 * 24 * 60 * 60 * 1000000)"

definition catchup_cursor :: "workflow_run \<Rightarrow> timestamp \<Rightarrow> timestamp" where
  "catchup_cursor w current_fire_at = (case w_last_fired_at w of Some l \<Rightarrow> l
     | None \<Rightarrow> (case w_created_at w of Some c \<Rightarrow> c | None \<Rightarrow> current_fire_at))"

text \<open>One template of the batch; \<open>max_catchup as usize\<close> makes a negative value huge.\<close>

definition fire_template ::
  "(uuid \<Rightarrow> string) \<Rightarrow> (string \<Rightarrow> cron_schedule option) \<Rightarrow> timestamp \<Rightarrow> timestamp \<Rightarrow> uuid \<Rightarrow> bool
    \<Rightarrow> workflow_run \<Rightarrow> unit store_op" where
  "fire_template show_uuid parse now db_now new_id allowed w =
     (case w_available_at w of
        None \<Rightarrow> ret_op ()
      | Some current_fire_at \<Rightarrow>
     (case w_cron_expr w of
        None \<Rightarrow> ret_op ()
      | Some cron_expr \<Rightarrow>
     (case parse cron_expr of
        None \<Rightarrow> fail_op (InvalidState (FmtInvalidCron (w_run_id w) cron_expr))
      | Some nxt \<Rightarrow>
          if w_max_catchup w = 0
          then wf_update_next_fire (w_run_id w) (next_or_year nxt now now) (Some now)
          else
            let cursor = catchup_cursor w current_fire_at;
                missed = length (occurrences nxt now cursor);
                allowed_missed = nat (as_u64 (w_max_catchup w))
            in if allowed_missed < missed
               then wf_update_next_fire (w_run_id w)
                 (case cron_nth nxt cursor (missed - allowed_missed) of None \<Rightarrow> now | Some t \<Rightarrow> t)
                 (Some now)
               else if \<not> allowed then ret_op ()
               else bind_op (wf_create_schedule_instance show_uuid db_now new_id (w_run_id w) current_fire_at) (\<lambda>_.
                 wf_update_next_fire (w_run_id w) (next_or_year nxt now current_fire_at)
                   (Some current_fire_at)))))"

text \<open>The loop over the batch: the first error ends it.\<close>

fun fire_all ::
  "(uuid \<Rightarrow> string) \<Rightarrow> (string \<Rightarrow> cron_schedule option) \<Rightarrow> timestamp \<Rightarrow> (nat \<Rightarrow> timestamp)
    \<Rightarrow> (nat \<Rightarrow> uuid) \<Rightarrow> (nat \<Rightarrow> bool) \<Rightarrow> workflow_run list \<Rightarrow> unit store_op" where
  "fire_all show_uuid parse now t u allow [] = ret_op ()"
| "fire_all show_uuid parse now t u allow (w # ws) =
     bind_op (fire_template show_uuid parse now (t 0) (u 0) (allow 0) w) (\<lambda>_.
     fire_all show_uuid parse now (t \<circ> Suc) (u \<circ> Suc) (allow \<circ> Suc) ws)"

definition fire_due_schedules ::
  "(uuid \<Rightarrow> string) \<Rightarrow> (string \<Rightarrow> cron_schedule option) \<Rightarrow> coordinator_settings \<Rightarrow> timestamp
    \<Rightarrow> (nat \<Rightarrow> timestamp) \<Rightarrow> (nat \<Rightarrow> uuid) \<Rightarrow> (nat \<Rightarrow> bool) \<Rightarrow> unit store_op" where
  "fire_due_schedules show_uuid parse cs now t u allow =
     bind_op (wf_find_due_schedules ''*'' now (batch_size cs))
       (fire_all show_uuid parse now t u allow)"

definition mark_stale_workers :: "timestamp \<Rightarrow> int \<Rightarrow> unit store_op" where
  "mark_stale_workers now threshold_secs =
     bind_op (wk_mark_stale_offline now threshold_secs) (\<lambda>_. ret_op ())"

text \<open>One tick of the loop of \<open>run\<close>: errors of the two parts are logged.\<close>

definition coordinator_tick ::
  "(uuid \<Rightarrow> string) \<Rightarrow> (string \<Rightarrow> cron_schedule option) \<Rightarrow> coordinator_settings \<Rightarrow> timestamp
    \<Rightarrow> (nat \<Rightarrow> timestamp) \<Rightarrow> (nat \<Rightarrow> uuid) \<Rightarrow> (nat \<Rightarrow> bool) \<Rightarrow> timestamp \<Rightarrow> (db, store_error, unit) op" where
  "coordinator_tick show_uuid parse cs now t u allow watchdog_now =
     bind_op (ignore_op (fire_due_schedules show_uuid parse cs now t u allow)) (\<lambda>_.
     ignore_op (mark_stale_workers watchdog_now (worker_stale_threshold_secs cs)))"

subsection \<open>Every tick keeps the constraints of the schema\<close>

lemma keeps_fire_template [keeps_rules]:
  "keeps wf_db (fire_template su parse now db_now new_id b w)"
  unfolding fire_template_def Let_def by (intro keeps_rules)

lemma keeps_fire_all [keeps_rules]: "keeps wf_db (fire_all su parse now t u allow ws)"
proof (induction ws arbitrary: t u allow)
  case Nil
  show ?case unfolding fire_all.simps by (rule keeps_rules)
next
  case (Cons w ws)
  show ?case unfolding fire_all.simps by (intro keeps_rules Cons)
qed

lemma keeps_tick [keeps_rules]: "keeps wf_db (coordinator_tick su parse cs now t u allow n)"
  unfolding coordinator_tick_def fire_due_schedules_def mark_stale_workers_def
  by (intro keeps_rules)

subsection \<open>Occurrences of a schedule\<close>

lemma occurrences_unfold:
  assumes "cron_ok nxt"
  shows "occurrences nxt now cursor = (case nxt cursor of
       None \<Rightarrow> [] | Some t \<Rightarrow> if t \<le> now then t # occurrences nxt now t else [])"
  using assms by (subst occurrences.simps) (auto simp: cron_ok_def split: option.split)

lemma occurrences_range:
  assumes "cron_ok nxt" and "t \<in> set (occurrences nxt now cursor)"
  shows "cursor < t \<and> t \<le> now"
  using assms(2)
proof (induction nxt now cursor rule: occurrences.induct)
  case (1 nxt now cursor)
  show ?case
    using 1(2) 1(1) by (subst (asm) occurrences.simps) (force split: option.splits if_splits)
qed

lemma occurrences_sorted: "sorted (occurrences nxt now cursor) \<and> distinct (occurrences nxt now cursor)
    \<and> (\<forall>t\<in>set (occurrences nxt now cursor). cursor < t)"
proof (induction nxt now cursor rule: occurrences.induct)
  case (1 nxt now cursor)
  show ?case
    using 1 by (subst (1 2 3) occurrences.simps) (force split: option.splits)
qed

lemma cron_nth_occurrences:
  "k < length (occurrences nxt now cursor)
    \<Longrightarrow> cron_nth nxt cursor k = Some (occurrences nxt now cursor ! k)"
proof (induction nxt cursor k rule: cron_nth.induct)
  case (1 nxt cursor)
  then show ?case by (subst (asm) occurrences.simps, subst occurrences.simps)
    (auto split: option.splits if_splits)
next
  case (2 nxt cursor k)
  show ?case using 2(2)
    by (subst (asm) occurrences.simps, subst occurrences.simps)
      (auto split: option.splits if_splits intro: 2(1))
qed

lemma occurrences_from_nth:
  "k < length (occurrences nxt now cursor)
    \<Longrightarrow> occurrences nxt now (occurrences nxt now cursor ! k) = drop (Suc k) (occurrences nxt now cursor)"
proof (induction k arbitrary: cursor)
  case 0
  then show ?case
    by (subst (asm) occurrences.simps, subst (2) occurrences.simps, subst (3) occurrences.simps)
      (auto split: option.splits if_splits)
next
  case (Suc k)
  then obtain t where t: "nxt cursor = Some t" "cursor < t" "t \<le> now"
    by (subst (asm) occurrences.simps) (auto split: option.splits if_splits)
  then have u: "occurrences nxt now cursor = t # occurrences nxt now t"
    by (subst occurrences.simps) simp
  show ?case using Suc unfolding u by simp
qed

end
