(* ===== verification/Fixtures.thy ===== *)
theory Fixtures
  imports WorkflowStore
begin

text \<open>
  Small concrete databases on which the theorems are applied: one namespace, a run that waits, a run
  that a worker holds, a finished run and a schedule template, with their payloads.
\<close>

definition demo_ns :: namespace_row where
  "demo_ns = \<lparr>nr_id = 900, nr_namespace = ''default'', nr_display_name = ''Default'',
     nr_description = None, nr_enabled = True, nr_created_at = 0, nr_updated_at = 0\<rparr>"

definition demo_waiting :: run_row where
  "demo_waiting = (run_defaults 100 1)\<lparr>wr_external_id := ''order-1'', wr_task_queue := ''q'',
     wr_workflow_type := ''Order'', wr_available_at := Some 100\<rparr>"

definition demo_running :: run_row where
  "demo_running = (run_defaults 50 2)\<lparr>wr_external_id := ''order-2'', wr_task_queue := ''q'',
     wr_workflow_type := ''Order'', wr_status := show_status WsRunning, wr_locked_by := Some ''w1'',
     wr_attempts := 1, wr_started_at := Some 60, wr_available_at := Some 5000\<rparr>"

definition demo_done :: run_row where
  "demo_done = (run_defaults 10 3)\<lparr>wr_external_id := ''order-1'', wr_task_queue := ''q'',
     wr_workflow_type := ''Order'', wr_status := show_status WsCompleted, wr_attempts := 1,
     wr_started_at := Some 20, wr_finished_at := Some 30, wr_available_at := None\<rparr>"

definition demo_template :: run_row where
  "demo_template = (run_defaults 5 4)\<lparr>wr_external_id := ''nightly'', wr_task_queue := ''q'',
     wr_workflow_type := ''Report'', wr_status := show_status WsScheduled,
     wr_cron_expr := Some ''0 0 0 * * *'', wr_available_at := Some 200\<rparr>"

definition demo_payload :: "uuid \<Rightarrow> payload_row" where
  "demo_payload i = \<lparr>pl_run_id = i, pl_input = [1, 2, 3], pl_output = None\<rparr>"

definition demo_db :: db where
  "demo_db = \<lparr>runs = [demo_waiting, demo_running, demo_done, demo_template],
     payloads = map demo_payload [1, 2, 3, 4], steps = [], workers = [], namespaces = [demo_ns]\<rparr>"

text \<open>A small payload limit keeps the evaluations small.\<close>

definition demo_cfg :: store_config where
  "demo_cfg = \<lparr>payload_warn_threshold_bytes = 4, payload_max_size_bytes = 8\<rparr>"

definition no_locks :: "uuid \<Rightarrow> bool" where
  "no_locks i = False"

lemmas demo_defs = demo_db_def demo_cfg_def demo_ns_def demo_waiting_def demo_running_def demo_done_def
  demo_template_def demo_payload_def run_defaults_def no_locks_def

lemma demo_wf: "wf_db demo_db"
  by code_simp

end
