(* ===== verification/Lifecycle.thy ===== *)
theory Lifecycle
  imports Fixtures
begin

text \<open>
  The life of a workflow run as the store's methods drive it.

  \<^item> \<open>run_ok\<close>: what the columns of a row say together (a \<open>RUNNING\<close> run is locked, started and counted,
    a finished one is unlocked and not claimable, \<dots>);
  \<^item> \<open>moves\<close>: the abstract state machine of the statuses, \<open>row_step\<close> and \<open>evolves\<close> what one method may
    do to a row and to the table;
  \<^item> \<open>lifecycle_step\<close>: one call of a method of the repository, for every method that drives runs. The
    methods left out are \<open>update\<close> and \<open>delete\<close> of the schedule service, which the invariants do not
    survive on ordinary runs (see \<open>ScheduleService\<close>).

  The contract \<open>governed_steps\<close> is interpreted on it, which gives the invariant and the monotonicity of
  every sequence of calls.
\<close>

subsection \<open>The invariant of a row\<close>

definition run_ok :: "run_row \<Rightarrow> bool" where
  "run_ok r = (0 \<le> wr_attempts r \<and> (case parse_status (wr_status r) of
       None \<Rightarrow> False
     | Some st \<Rightarrow>
         (if st = WsRunning
          then wr_locked_by r \<noteq> None \<and> wr_started_at r \<noteq> None \<and> 1 \<le> wr_attempts r
          else wr_locked_by r = None)
         \<and> (if is_terminal st then wr_available_at r = None \<and> wr_finished_at r \<noteq> None
            else wr_available_at r \<noteq> None \<and> wr_finished_at r = None)))"

definition db_ok :: "db \<Rightarrow> bool" where
  "db_ok s = (wf_db s \<and> list_all run_ok (runs s))"

definition row_terminal :: "run_row \<Rightarrow> bool" where
  "row_terminal r = (case parse_status (wr_status r) of None \<Rightarrow> False | Some st \<Rightarrow> is_terminal st)"

lemma run_ok_status:
  assumes "run_ok r"
  obtains st where "wr_status r = show_status st"
  using assms by (auto simp: run_ok_def split: option.splits dest: parse_status_SomeD)

lemma run_ok_finished:
  "run_ok (set_cancelled now r)" "run_ok (set_completed now r)" "run_ok (set_failed now err r)"
  if "run_ok r"
  using that
  by (auto simp: run_ok_def set_cancelled_def set_completed_def set_failed_def split: option.splits)

lemma run_ok_new: "run_ok (new_run now p)" "run_ok (instance_run su now i t r)"
  by (simp_all add: run_ok_def new_run_def instance_run_def run_defaults_def)

subsection \<open>The state machine of the statuses\<close>

inductive moves :: "workflow_status \<Rightarrow> workflow_status \<Rightarrow> bool" where
  claim_pending: "moves WsPending WsRunning"
| claim_sleeping: "moves WsSleeping WsRunning"
| reclaim: "moves WsRunning WsRunning"
| to_sleep: "moves WsRunning WsSleeping"
| to_retry: "moves WsRunning WsPending"
| to_completed: "moves WsRunning WsCompleted"
| to_failed: "moves WsRunning WsFailed"
| to_cancelled: "can_cancel st \<Longrightarrow> moves st WsCancelled"

code_pred moves .

inductive_simps moves_from_terminal: "moves WsCompleted st" "moves WsFailed st" "moves WsCancelled st"
inductive_simps moves_from_template: "moves WsScheduled st" "moves WsPaused st"
inductive_cases moves_to_running: "moves st WsRunning"

lemma moves_not_terminal: "moves a b \<Longrightarrow> \<not> is_terminal a"
  by (induction rule: moves.induct) (auto elim: can_cancel.elims)

text \<open>
  One call leaves the columns that identify a run alone, follows the state machine, never lowers
  \<open>attempts\<close> and does not touch a finished run.
\<close>

definition same_identity :: "run_row \<Rightarrow> run_row \<Rightarrow> bool" where
  "same_identity r r' \<longleftrightarrow> wr_run_id r' = wr_run_id r \<and> wr_namespace r' = wr_namespace r
     \<and> wr_external_id r' = wr_external_id r \<and> wr_task_queue r' = wr_task_queue r
     \<and> wr_workflow_type r' = wr_workflow_type r \<and> wr_created_at r' = wr_created_at r
     \<and> wr_version r' = wr_version r \<and> wr_retry_policy r' = wr_retry_policy r
     \<and> wr_schedule_id r' = wr_schedule_id r \<and> wr_cron_expr r' = wr_cron_expr r"

definition row_step :: "run_row \<Rightarrow> run_row \<Rightarrow> bool" where
  "row_step r r' \<longleftrightarrow> same_identity r r' \<and> wr_attempts r \<le> wr_attempts r'
     \<and> (row_terminal r \<longrightarrow> r' = r)
     \<and> (wr_status r' = wr_status r
        \<or> (\<exists>a b. wr_status r = show_status a \<and> wr_status r' = show_status b \<and> moves a b))"

definition evolves :: "db \<Rightarrow> db \<Rightarrow> bool" where
  "evolves s s' \<longleftrightarrow> (\<exists>old new. runs s' = old @ new \<and> list_all2 row_step (runs s) old)"

lemma row_step_refl [simp]: "row_step r r"
  by (simp add: row_step_def same_identity_def)

lemma evolves_refl: "evolves s s"
  unfolding evolves_def by (rule exI [of _ "runs s"]) (auto intro: list_all2_refl)

lemma row_stepI:
  assumes "same_identity r r'" and "wr_attempts r \<le> wr_attempts r'"
    and "wr_status r = show_status a" and "wr_status r' = show_status b" and "moves a b"
  shows "row_step r r'"
  using assms moves_not_terminal [OF assms(5)] by (auto simp: row_step_def row_terminal_def)

lemma row_step_cancel:
  assumes "wr_status r = show_status st" and "can_cancel st"
  shows "row_step r (set_cancelled now r)"
  by (rule row_stepI [OF _ _ assms(1), of _ WsCancelled])
    (auto simp: same_identity_def set_cancelled_def intro: moves.intros assms(2))

lemma row_step_complete:
  "wr_status r = show_status WsRunning \<Longrightarrow> row_step r (set_completed now r)"
  by (rule row_stepI [of _ _ WsRunning WsCompleted])
    (auto simp: same_identity_def set_completed_def intro: moves.intros)

lemma row_step_fail:
  assumes "wr_status r = show_status WsRunning" and "0 \<le> n"
  shows "row_step r ((set_failed now err r)\<lparr>wr_attempts := wr_attempts r + n\<rparr>)"
  by (rule row_stepI [of _ _ WsRunning WsFailed])
    (auto simp: same_identity_def set_failed_def assms intro: moves.intros)

lemma row_step_fail': "wr_status r = show_status WsRunning \<Longrightarrow> row_step r (set_failed now err r)"
  using row_step_fail [of r 0 now err] by (simp add: set_failed_def)

lemma row_step_park:
  assumes "wr_status r = show_status WsRunning" and "moves WsRunning st"
  shows "row_step r (r\<lparr>wr_status := show_status st, wr_available_at := Some t, wr_locked_by := None\<rparr>)"
  by (rule row_stepI [OF _ _ assms(1) _ assms(2)]) (auto simp: same_identity_def)

lemma row_step_claim:
  assumes "claimable_text (wr_status r)"
  shows "row_step r (claim_run now w t r)"
proof -
  obtain st where st: "wr_status r = show_status st" "moves st WsRunning"
    using assms moves.intros unfolding claimable_text_def by blast
  show ?thesis
    by (rule row_stepI [OF _ _ st(1) _ st(2)]) (auto simp: same_identity_def claim_run_def)
qed

subsection \<open>Each method respects the state machine\<close>

definition lawful :: "(db, 'e, 'a) op \<Rightarrow> bool" where
  "lawful m \<longleftrightarrow> (\<forall>s. db_ok s \<longrightarrow> list_all run_ok (runs (snd (m s))) \<and> evolves s (snd (m s)))"

lemma lawfulI:
  "(\<And>s. wf_db s \<Longrightarrow> list_all run_ok (runs s)
      \<Longrightarrow> list_all run_ok (runs (snd (m s))) \<and> evolves s (snd (m s))) \<Longrightarrow> lawful m"
  by (simp add: lawful_def db_ok_def)

lemma lawfulD:
  "lawful m \<Longrightarrow> wf_db s \<Longrightarrow> list_all run_ok (runs s)
    \<Longrightarrow> list_all run_ok (runs (snd (m s))) \<and> evolves s (snd (m s))"
  by (simp add: lawful_def db_ok_def)

lemma evolves_same_runs: "runs s' = runs s \<Longrightarrow> evolves s s'"
  using evolves_refl by (simp add: evolves_def)

lemma evolves_sql_update:
  assumes "\<And>r. r \<in> set (runs s) \<Longrightarrow> P r \<Longrightarrow> row_step r (f r)" and "runs s' = sql_update P f (runs s)"
  shows "evolves s s'"
  unfolding evolves_def
proof (intro exI conjI)
  show "runs s' = sql_update P f (runs s) @ []" using assms(2) by simp
  show "list_all2 row_step (runs s) (sql_update P f (runs s))"
    using assms(1) by (auto simp: sql_update_def list_all2_conv_all_nth)
qed

lemma ok_sql_update:
  assumes "list_all run_ok rs" and "\<And>r. r \<in> set rs \<Longrightarrow> P r \<Longrightarrow> run_ok r \<Longrightarrow> run_ok (f r)"
  shows "list_all run_ok (sql_update P f rs)"
  using assms by (auto simp: list_all_iff in_sql_update)

lemma updated_lawful:
  assumes "list_all run_ok (runs s)" and "runs s' = sql_update P f (runs s)"
    and "\<And>r. r \<in> set (runs s) \<Longrightarrow> P r \<Longrightarrow> run_ok r \<Longrightarrow> run_ok (f r) \<and> row_step r (f r)"
  shows "list_all run_ok (runs s') \<and> evolves s s'"
proof
  show "list_all run_ok (runs s')" unfolding assms(2) using assms(1,3) by (intro ok_sql_update) auto
  show "evolves s s'" using assms by (intro evolves_sql_update [OF _ assms(2)]) (auto simp: list_all_iff)
qed

lemma update_lawful:
  assumes "list_all run_ok (runs s)"
    and "\<And>r. r \<in> set (runs s) \<Longrightarrow> P r \<Longrightarrow> run_ok r \<Longrightarrow> run_ok (f r) \<and> row_step r (f r)"
  shows "list_all run_ok (runs (snd (update_runs P f s))) \<and> evolves s (snd (update_runs P f s))"
proof -
  consider e where "update_runs P f s = (Inl e, s)"
    | "update_runs P f s = (Inr (), s\<lparr>runs := sql_update P f (runs s)\<rparr>)"
    by (cases "update_runs P f s"; cases "fst (update_runs P f s)")
      (auto dest: update_runs_Inl update_runs_Inr)
  then show ?thesis
  proof cases
    case 1
    then show ?thesis using assms(1) by (simp add: evolves_refl)
  next
    case 2
    show ?thesis unfolding 2 snd_conv using assms by (intro updated_lawful [of s _ P f]) auto
  qed
qed

lemma lawful_same_runs: "(\<And>s. runs (snd (m s)) = runs s) \<Longrightarrow> lawful m"
  by (simp add: lawful_def db_ok_def evolves_same_runs)

lemma lawful_lift_bind:
  assumes "lawful m"
  shows "lawful (bind_op (lift_op v) (\<lambda>_. m))"
  using assms by (cases v) (auto simp: lawful_def evolves_refl db_ok_def bind_op_def)

lemma lawful_transact: "lawful m \<Longrightarrow> lawful (transact m)"
  by (auto simp: lawful_def transact_def db_ok_def evolves_refl split: prod.splits sum.splits)

lemma cancel_lawful: "lawful (wf_cancel now i ns)"
proof (rule lawfulI)
  fix s assume wf: "wf_db s" and ok: "list_all run_ok (runs s)"
  let ?P = "\<lambda>r. wr_run_id r = i \<and> wr_namespace r = ns
     \<and> wr_status r \<in> {show_status WsPending, show_status WsRunning, show_status WsSleeping}"
  have "row_step r (set_cancelled now r)" if "?P r" for r
    using that row_step_cancel [of r _ now] by auto
  then show "list_all run_ok (runs (snd (wf_cancel now i ns s))) \<and> evolves s (snd (wf_cancel now i ns s))"
    using ok unfolding cancel_run [OF wf] snd_conv
    by (intro updated_lawful [of s _ ?P "set_cancelled now"]) (simp_all add: run_ok_finished)
qed

lemma complete_lawful: "lawful (wf_complete cfg now i out)"
proof (rule lawfulI)
  fix s assume wf: "wf_db s" and ok: "list_all run_ok (runs s)"
  show "list_all run_ok (runs (snd (wf_complete cfg now i out s)))
          \<and> evolves s (snd (wf_complete cfg now i out s))"
  proof (cases "length out \<le> payload_max_size_bytes cfg")
    case False
    then show ?thesis using ok
      by (simp add: wf_complete_def validate_payload_size_def bind_op_def evolves_refl)
  next
    case True
    show ?thesis using ok unfolding complete_run [OF wf True] snd_conv
      by (intro updated_lawful [of s _ "running_row i" "set_completed now"])
        (simp_all add: run_ok_finished row_step_complete)
  qed
qed

lemma fail_lawful: "lawful (wf_fail now i err)" "lawful (wf_mark_exhausted now i err)"
proof -
  have "list_all run_ok (sql_update (running_row i) (set_failed now err) (runs s))
      \<and> evolves s (s\<lparr>runs := sql_update (running_row i) (set_failed now err) (runs s)\<rparr>)"
    if "list_all run_ok (runs s)" for s
    using that row_step_fail' updated_lawful [of s "s\<lparr>runs := sql_update (running_row i) (set_failed now err) (runs s)\<rparr>"
        "running_row i" "set_failed now err"]
    by (simp add: run_ok_finished)
  then show "lawful (wf_fail now i err)" "lawful (wf_mark_exhausted now i err)"
    by (auto intro!: lawfulI simp: fail_run)
qed

lemma exhausted_increment_lawful: "lawful (wf_mark_exhausted_with_increment now i err)"
proof (rule lawfulI)
  fix s assume wf: "wf_db s" and ok: "list_all run_ok (runs s)"
  show "list_all run_ok (runs (snd (wf_mark_exhausted_with_increment now i err s)))
          \<and> evolves s (snd (wf_mark_exhausted_with_increment now i err s))"
    unfolding wf_mark_exhausted_with_increment_def
    using update_lawful [OF ok, of "running_row i"
        "\<lambda>r. (set_failed now err r)\<lparr>wr_attempts := wr_attempts r + 1\<rparr>"] row_step_fail [where n = 1] ok
    by (auto simp: run_ok_def set_failed_def evolves_refl split: option.splits)
qed

lemma park_lawful:
  assumes "moves WsRunning st" and "\<not> is_terminal st" and "st \<noteq> WsRunning"
  shows "lawful (park_run now i st us)"
proof (rule lawfulI)
  fix s assume wf: "wf_db s" and ok: "list_all run_ok (runs s)"
  have "run_ok (r\<lparr>wr_status := show_status st, wr_available_at := Some t, wr_locked_by := None\<rparr>)
     \<and> row_step r (r\<lparr>wr_status := show_status st, wr_available_at := Some t, wr_locked_by := None\<rparr>)"
    if "running_row i r" "run_ok r" for r t
    using that assms row_step_park [of r st] by (auto simp: run_ok_def)
  then show "list_all run_ok (runs (snd (park_run now i st us s))) \<and> evolves s (snd (park_run now i st us s))"
    unfolding park_run_def using ok
    by (auto split: option.splits intro!: update_lawful evolves_refl
        simp del: snd_conv simp: snd_conv)
qed

lemma sleep_retry_lawful:
  "lawful (wf_schedule_sleep now i n)" "lawful (wf_schedule_retry now i n)"
  unfolding wf_schedule_sleep_def wf_schedule_retry_def
  by (intro lawful_transact park_lawful; simp add: moves.intros)+

lemma extend_lawful: "lawful (wf_extend_visibility now w n)"
proof (rule lawfulI)
  fix s assume wf: "wf_db s" and ok: "list_all run_ok (runs s)"
  let ?f = "\<lambda>r. r\<lparr>wr_available_at := Some (extended_from now r + n * 1000000)\<rparr>"
  have "run_ok (?f r) \<and> row_step r (?f r)" if "locked_by_worker w r" "run_ok r" for r
    using that by (auto simp: run_ok_def locked_by_worker_def row_step_def same_identity_def row_terminal_def)
  then have "list_all run_ok (runs (snd (update_runs (locked_by_worker w) ?f s)))
     \<and> evolves s (snd (update_runs (locked_by_worker w) ?f s))"
    using ok by (intro update_lawful) auto
  moreover have "snd (update_runs_count P f s) = snd (update_runs P f s)" for P f
    by (auto simp: update_runs_count_def bind_op_def split: prod.splits sum.splits)
  ultimately show "list_all run_ok (runs (snd (wf_extend_visibility now w n s)))
     \<and> evolves s (snd (wf_extend_visibility now w n s))"
    unfolding wf_extend_visibility_def using ok by (auto simp: evolves_refl)
qed

lemma run_ok_claim: "run_ok r \<Longrightarrow> claimable_text (wr_status r) \<Longrightarrow> run_ok (claim_run now w t r)"
  by (auto simp: run_ok_def claim_run_def claimable_text_def split: option.splits if_splits)

lemma poll_lawful: "lawful (wf_poll_workflow locked now ns queue w types vt)"
proof (rule lawfulI)
  fix s assume wf: "wf_db s" and ok: "list_all run_ok (runs s)"
  let ?s' = "snd (wf_poll_workflow locked now ns queue w types vt s)"
  show "list_all run_ok (runs ?s') \<and> evolves s ?s'"
    using poll_snd [of locked now ns queue w types vt s]
  proof (elim disjE exE conjE)
    assume "?s' = s"
    then show ?thesis using ok by (simp add: evolves_refl)
  next
    fix r until
    assume r: "r \<in> set (runs s)" "claimable now ns queue types r"
      and s': "?s' = snd (update_runs (\<lambda>x. wr_run_id x = wr_run_id r) (claim_run now w until) s)"
    have "run_ok (claim_run now w until x) \<and> row_step x (claim_run now w until x)"
      if "x \<in> set (runs s)" "wr_run_id x = wr_run_id r" "run_ok x" for x
    proof -
      have "x = r" using run_unique [OF wf] that(1,2) r(1) by blast
      then show ?thesis using r(2) that(3) by (simp add: claimable_def run_ok_claim row_step_claim)
    qed
    then show ?thesis unfolding s' using ok by (intro update_lawful) auto
  qed
qed

subsection \<open>Creating runs only appends\<close>

definition appends :: "(db, 'e, 'a) op \<Rightarrow> bool" where
  "appends m \<longleftrightarrow> (\<forall>s. \<exists>new. runs (snd (m s)) = runs s @ new \<and> list_all run_ok new)"

lemma appends_bind: "appends m \<Longrightarrow> (\<And>a. appends (f a)) \<Longrightarrow> appends (bind_op m f)"
  unfolding appends_def bind_op_def
  by (simp split: prod.splits sum.splits) (metis append_assoc list_all_append snd_conv)

lemma appends_same: "(\<And>s. runs (snd (m s)) = runs s) \<Longrightarrow> appends m"
  by (simp add: appends_def)

lemma appends_insert: "run_ok r \<Longrightarrow> appends (insert_run r)"
  unfolding appends_def
proof
  fix s assume "run_ok r"
  then show "\<exists>new. runs (snd (insert_run r s)) = runs s @ new \<and> list_all run_ok new"
    by (cases "insert_run r s") (auto simp: insert_run_def put_runs_def split: option.splits)
qed

lemma appends_payload: "appends (insert_payload p)"
  by (rule appends_same) (auto simp: insert_payload_def split: option.splits)

lemma appends_transact: "appends m \<Longrightarrow> appends (transact m)"
  unfolding appends_def transact_def
proof
  fix s :: db
  assume *: "\<forall>s. \<exists>new. runs (snd (m s)) = runs s @ new \<and> list_all run_ok new"
  show "\<exists>new. runs (snd (case m s of (Inl e, s') \<Rightarrow> (Inl e, s) | (Inr a, s') \<Rightarrow> (Inr a, s')))
          = runs s @ new \<and> list_all run_ok new"
    using * [rule_format, of s] by (auto split: prod.splits sum.splits)
qed

lemma appends_lawful:
  assumes "appends m"
  shows "lawful m"
proof (rule lawfulI)
  fix s :: db
  assume "list_all run_ok (runs s)"
  moreover obtain new where "runs (snd (m s)) = runs s @ new" "list_all run_ok new"
    using assms by (auto simp: appends_def)
  ultimately show "list_all run_ok (runs (snd (m s))) \<and> evolves s (snd (m s))"
    unfolding evolves_def by (metis list_all2_refl list_all_append row_step_refl)
qed

lemma appends_insert_workflow: "appends (insert_workflow now p)"
  unfolding insert_workflow_def
  by (intro appends_bind appends_insert appends_payload) (simp_all add: run_ok_new appends_same)

lemma appends_create: "appends (wf_create cfg now p)"
  unfolding wf_create_def
  by (intro appends_bind appends_transact appends_insert_workflow) (simp add: appends_same)

lemma appends_create_all: "appends (create_all cfg now ps)"
proof (induction ps)
  case Nil
  show ?case by (rule appends_same) simp
next
  case (Cons p ps)
  show ?case unfolding create_all.simps
    by (intro appends_bind appends_insert_workflow Cons) (simp_all add: appends_same)
qed

lemma appends_create_batch: "appends (wf_create_batch cfg now ps)"
  by (simp add: wf_create_batch_def appends_transact appends_create_all appends_same)

lemma appends_instance: "appends (wf_create_schedule_instance su now new_id i t)"
  unfolding appends_def
proof
  fix s :: db
  have *: "appends (transact (bind_op (insert_run (instance_run su now new_id t r)) (\<lambda>_.
                 case List.find (\<lambda>p. pl_run_id p = i) (payloads s) of
                   None \<Rightarrow> ret_op None
                 | Some p \<Rightarrow> bind_op (insert_payload
                     \<lparr>pl_run_id = new_id, pl_input = pl_input p, pl_output = None\<rparr>)
                     (\<lambda>_. ret_op (Some new_id)))))" for r
    by (intro appends_transact appends_bind appends_insert)
      (auto simp: run_ok_new appends_same intro!: appends_bind appends_payload split: option.splits)
  show "\<exists>new. runs (snd (wf_create_schedule_instance su now new_id i t s)) = runs s @ new
          \<and> list_all run_ok new"
    unfolding wf_create_schedule_instance_def
    using * [unfolded appends_def] by (auto split: option.splits)
qed

subsection \<open>One call of the repository\<close>

text \<open>
  \<open>update_next_fire\<close> is only called on schedule templates, by the coordinator and when a schedule is
  edited: the rule asks for that.
\<close>

inductive lifecycle_step :: "store_config \<Rightarrow> db \<Rightarrow> db \<Rightarrow> bool" for cfg :: store_config where
  do_create: "lifecycle_step cfg s (snd (wf_create cfg now p s))"
| do_create_batch: "lifecycle_step cfg s (snd (wf_create_batch cfg now ps s))"
| do_poll: "lifecycle_step cfg s (snd (wf_poll_workflow locked now ns queue w types vt s))"
| do_extend: "lifecycle_step cfg s (snd (wf_extend_visibility now w n s))"
| do_sleep: "lifecycle_step cfg s (snd (wf_schedule_sleep now i n s))"
| do_retry: "lifecycle_step cfg s (snd (wf_schedule_retry now i n s))"
| do_complete: "lifecycle_step cfg s (snd (wf_complete cfg now i out s))"
| do_fail: "lifecycle_step cfg s (snd (wf_fail now i err s))"
| do_exhaust: "lifecycle_step cfg s (snd (wf_mark_exhausted now i err s))"
| do_exhaust_inc: "lifecycle_step cfg s (snd (wf_mark_exhausted_with_increment now i err s))"
| do_cancel: "lifecycle_step cfg s (snd (wf_cancel now i ns s))"
| do_instance: "lifecycle_step cfg s (snd (wf_create_schedule_instance su now new_id i t s))"
| do_next_fire: "(\<And>r. r \<in> set (runs s) \<Longrightarrow> wr_run_id r = i \<Longrightarrow> wr_status r = show_status WsScheduled)
    \<Longrightarrow> lifecycle_step cfg s (snd (wf_update_next_fire i t l s))"

lemma next_fire_lawful:
  assumes ok: "list_all run_ok (runs s)"
    and sched: "\<And>r. r \<in> set (runs s) \<Longrightarrow> wr_run_id r = i \<Longrightarrow> wr_status r = show_status WsScheduled"
  shows "list_all run_ok (runs (snd (wf_update_next_fire i t l s)))
     \<and> evolves s (snd (wf_update_next_fire i t l s))"
  unfolding wf_update_next_fire_def using sched
  by (cases l)
    (auto intro!: update_lawful ok
      simp: run_ok_def row_step_def same_identity_def row_terminal_def)

lemma lifecycle_step_lawful:
  assumes "lifecycle_step cfg s s'" and "db_ok s"
  shows "list_all run_ok (runs s') \<and> evolves s s'"
  using assms
proof (cases rule: lifecycle_step.cases)
  case do_create
  then show ?thesis using assms(2) appends_lawful [OF appends_create] by (simp add: lawful_def)
next
  case do_create_batch
  then show ?thesis using assms(2) appends_lawful [OF appends_create_batch] by (simp add: lawful_def)
next
  case do_instance
  then show ?thesis using assms(2) appends_lawful [OF appends_instance] by (simp add: lawful_def)
next
  case (do_next_fire i t l)
  then show ?thesis using assms(2) next_fire_lawful [of s i t l] by (auto simp: db_ok_def)
qed (use assms(2) poll_lawful extend_lawful sleep_retry_lawful complete_lawful fail_lawful
    exhausted_increment_lawful cancel_lawful in \<open>auto simp: lawful_def\<close>)

lemma lifecycle_step_wf:
  assumes "lifecycle_step cfg s s'" and "wf_db s"
  shows "wf_db s'"
  using assms by (cases rule: lifecycle_step.cases) (auto intro!: keepsD [of wf_db] keeps_rules)

text \<open>
  What any number of calls may do: rows are only appended, a run keeps its identity, \<open>attempts\<close> never
  goes down, a finished run stays exactly as it is, and the status follows paths of the state machine.
\<close>

definition status_path :: "string \<Rightarrow> string \<Rightarrow> bool" where
  "status_path x y \<longleftrightarrow> y = x \<or> (\<exists>a b. x = show_status a \<and> y = show_status b \<and> moves\<^sup>*\<^sup>* a b)"

lemma status_path_refl [simp]: "status_path x x"
  by (simp add: status_path_def)

lemma status_path_trans: "status_path x y \<Longrightarrow> status_path y z \<Longrightarrow> status_path x z"
  unfolding status_path_def by (metis rtranclp_trans show_status_inj)

definition run_history :: "run_row \<Rightarrow> run_row \<Rightarrow> bool" where
  "run_history r r' \<longleftrightarrow> same_identity r r' \<and> wr_attempts r \<le> wr_attempts r'
     \<and> (row_terminal r \<longrightarrow> r' = r) \<and> status_path (wr_status r) (wr_status r')"

definition history :: "db \<Rightarrow> db \<Rightarrow> bool" where
  "history s s' \<longleftrightarrow> (\<exists>old new. runs s' = old @ new \<and> list_all2 run_history (runs s) old)"

lemma run_history_trans: "run_history a b \<Longrightarrow> run_history b c \<Longrightarrow> run_history a c"
  unfolding run_history_def same_identity_def by (auto intro: status_path_trans)

lemma row_step_history: "row_step r r' \<Longrightarrow> run_history r r'"
  by (auto simp: row_step_def run_history_def status_path_def)

lemma history_trans:
  assumes "history s s'" and "history s' s''"
  shows "history s s''"
proof -
  obtain o1 n1 where 1: "runs s' = o1 @ n1" "list_all2 run_history (runs s) o1"
    using assms(1) by (auto simp: history_def)
  obtain o2 n2 where 2: "runs s'' = o2 @ n2" "list_all2 run_history (o1 @ n1) o2"
    using assms(2) 1(1) by (auto simp: history_def)
  then obtain a b where o2: "o2 = a @ b" "list_all2 run_history o1 a"
    by (metis list_all2_append1)
  have "list_all2 run_history (runs s) a"
    by (rule list_all2_trans [of run_history run_history, OF run_history_trans 1(2) o2(2)])
  then show ?thesis unfolding history_def 2(1) o2(1) by (metis append_assoc)
qed

lemma evolves_history: "evolves s s' \<Longrightarrow> history s s'"
  unfolding evolves_def history_def using row_step_history by (metis list_all2_mono)

lemma history_refl: "history s s"
  using evolves_refl by (rule evolves_history)

interpretation lifecycle: governed_steps "lifecycle_step cfg" db_ok history
  by unfold_locales
    (auto simp: db_ok_def history_refl intro: history_trans lifecycle_step_wf
      dest: lifecycle_step_lawful [unfolded db_ok_def] evolves_history)

lemma history_row:
  assumes "history s s'" and "r \<in> set (runs s)"
  obtains r' where "r' \<in> set (runs s')" and "run_history r r'"
  using assms unfolding history_def list_all2_conv_all_nth in_set_conv_nth
  by (metis length_append nth_append trans_less_add1)

text \<open>A template that fires stays one: no path of the state machine leaves SCHEDULED.\<close>

lemma scheduled_stays:
  assumes "status_path (show_status WsScheduled) x"
  shows "x = show_status WsScheduled"
proof -
  have "b = WsScheduled" if "moves\<^sup>*\<^sup>* WsScheduled b" for b
    using that by (induction rule: rtranclp_induct) (simp_all add: moves_from_template)
  then show ?thesis using assms by (auto simp: status_path_def)
qed

end
