(* ===== verification/WorkflowCorrect.thy ===== *)
theory WorkflowCorrect
  imports Lifecycle
begin

text \<open>
  What the workflow repository promises its callers: exclusive claims, an orderly life of every run,
  cancellation and completion that cannot fail half-way, idempotent creation, complete pagination.
\<close>

lemma update_by_id_row:
  assumes "wf_db s" and "r \<in> set (runs s)"
  shows "sql_update (\<lambda>w. wr_run_id w = wr_run_id r) f (runs s)
       = map (\<lambda>x. if x = r then f r else x) (runs s)"
  unfolding sql_update_def using run_unique [OF assms(1) _ assms(2)] by (intro map_cong) auto

text \<open>C2: A successful poll claims one run that was claimable and not locked, the one with the least
  \<open>available_at\<close> among these; the claim is recorded on that row only, with the lease ending
  \<open>visibility_timeout_secs\<close> from now, and the caller gets that run's type and payload.\<close>

theorem poll_claims_least_available:
  assumes "wf_poll_workflow locked now ns queue worker types vt s = (Inr (Some c), s')" and "wf_db s"
  shows "\<exists>r p. r \<in> set (runs s) \<and> claimable now ns queue types r \<and> \<not> locked (wr_run_id r)
     \<and> (\<forall>x\<in>set (runs s). claimable now ns queue types x \<and> \<not> locked (wr_run_id x)
          \<longrightarrow> available_key r \<le> available_key x)
     \<and> s' = s\<lparr>runs := map (\<lambda>x. if x = r then claim_run now worker (now + vt * 1000000) r else x) (runs s)\<rparr>
     \<and> p \<in> set (payloads s) \<and> pl_run_id p = wr_run_id r
     \<and> c = \<lparr>cl_run_id = wr_run_id r, cl_workflow_type = wr_workflow_type r, cl_input = pl_input p,
             cl_locked_by = Some worker\<rparr>"
  using assms(1)
proof (rule poll_Some)
  fix r p
  assume r: "r \<in> set (runs s)" "claimable now ns queue types r" "\<not> locked (wr_run_id r)"
    "\<And>x. x \<in> set (runs s) \<Longrightarrow> claimable now ns queue types x \<Longrightarrow> \<not> locked (wr_run_id x)
       \<Longrightarrow> available_key r \<le> available_key x"
    and s': "s' = s\<lparr>runs := sql_update (\<lambda>w. wr_run_id w = wr_run_id r)
               (claim_run now worker (now + vt * 1000000)) (runs s)\<rparr>"
    and p: "List.find (\<lambda>p. pl_run_id p = wr_run_id r) (payloads s) = Some p"
    and c: "c = \<lparr>cl_run_id = wr_run_id r, cl_workflow_type = wr_workflow_type r,
              cl_input = pl_input p, cl_locked_by = Some worker\<rparr>"
  show ?thesis
    unfolding s' c update_by_id_row [OF assms(2) r(1)] using r find_Some_in [OF p]
    by (intro exI [of _ r] exI [of _ p]) simp
qed

lemma poll_claims_least_available_witness:
  "\<exists>r p. r \<in> set (runs demo_db) \<and> claimable 1000 ''default'' ''q'' [] r \<and> \<not> no_locks (wr_run_id r)
     \<and> (\<forall>x\<in>set (runs demo_db). claimable 1000 ''default'' ''q'' [] x \<and> \<not> no_locks (wr_run_id x)
          \<longrightarrow> available_key r \<le> available_key x)
     \<and> snd (wf_poll_workflow no_locks 1000 ''default'' ''q'' ''w2'' [] 30 demo_db)
         = demo_db\<lparr>runs := map (\<lambda>x. if x = r then claim_run 1000 ''w2'' (1000 + 30 * 1000000) r else x)
             (runs demo_db)\<rparr>
     \<and> p \<in> set (payloads demo_db) \<and> pl_run_id p = wr_run_id r
     \<and> \<lparr>cl_run_id = 1, cl_workflow_type = ''Order'', cl_input = [1, 2, 3], cl_locked_by = Some ''w2''\<rparr>
         = \<lparr>cl_run_id = wr_run_id r, cl_workflow_type = wr_workflow_type r, cl_input = pl_input p,
             cl_locked_by = Some ''w2''\<rparr>"
proof (rule poll_claims_least_available)
  show "wf_poll_workflow no_locks 1000 ''default'' ''q'' ''w2'' [] 30 demo_db
    = (Inr (Some \<lparr>cl_run_id = 1, cl_workflow_type = ''Order'', cl_input = [1, 2, 3],
                   cl_locked_by = Some ''w2''\<rparr>),
       snd (wf_poll_workflow no_locks 1000 ''default'' ''q'' ''w2'' [] 30 demo_db))"
    by code_simp
qed (rule demo_wf)

text \<open>A poll answers "nothing to do" exactly when no unlocked run is claimable, whatever worker,
  timeout and other rows there are.\<close>

theorem poll_idle_iff_nothing_claimable:
  "fst (wf_poll_workflow locked now ns queue worker types vt s) = Inr None
   \<longleftrightarrow> \<not> (\<exists>r\<in>set (runs s). claimable now ns queue types r \<and> \<not> locked (wr_run_id r))"
  by (rule poll_None_iff)


definition demo_db2 :: db where
  "demo_db2 = demo_db\<lparr>runs := runs demo_db @ [demo_waiting\<lparr>wr_run_id := 7, wr_external_id := ''order-7''\<rparr>],
     payloads := payloads demo_db @ [demo_payload 7]\<rparr>"


text \<open>Polling makes progress: when some unlocked run is claimable, every run has its payload, the
  end of the lease is a valid timestamp, no attempt counter is at its limit and no run was fired by a
  schedule, a poll hands out a run.\<close>

theorem poll_makes_progress:
  assumes "wf_db s" and "r \<in> set (runs s)" and "claimable now ns queue types r" and "\<not> locked (wr_run_id r)"
    and "\<forall>x\<in>set (runs s). wr_run_id x \<in> pl_run_id ` set (payloads s)"
    and "pg_ts_add now (vt * 1000000) \<noteq> None"
    and "\<forall>x\<in>set (runs s). pg_int4 (wr_attempts x + 1) \<noteq> None \<and> wr_schedule_id x = None"
  shows "\<exists>c s'. wf_poll_workflow locked now ns queue worker types vt s = (Inr (Some c), s')"
proof (cases "order_by (<) available_key
                (filter (\<lambda>r. claimable now ns queue types r \<and> \<not> locked (wr_run_id r)) (runs s))")
  case Nil
  then have "filter (\<lambda>r. claimable now ns queue types r \<and> \<not> locked (wr_run_id r)) (runs s) = []" by simp
  then show ?thesis using assms(2-4) by (simp add: filter_empty_conv)
next
  case (Cons x xs)
  then have x: "x \<in> set (runs s)"
    using by_time.order_by_hd_least by force
  obtain until n where "pg_ts_add now (vt * 1000000) = Some until" "pg_int4 (wr_attempts x + 1) = Some n"
    using assms(6,7) x by fastforce
  moreover obtain p where "List.find (\<lambda>p. pl_run_id p = wr_run_id x) (payloads s) = Some p"
    using assms(5) x find_None_all [of "\<lambda>p. pl_run_id p = wr_run_id x" "payloads s"] by fastforce
  ultimately show ?thesis using poll_claims [OF assms(1) Cons] assms(7) x by blast
qed

lemma poll_makes_progress_witness:
  "\<exists>c s'. wf_poll_workflow no_locks 1000 ''default'' ''q'' ''w2'' [] 30 demo_db = (Inr (Some c), s')"
proof (rule poll_makes_progress)
  show "demo_waiting \<in> set (runs demo_db)" by (simp add: demo_db_def)
  show "claimable 1000 ''default'' ''q'' [] demo_waiting" by code_simp
qed (rule demo_wf | code_simp)+

subsection \<open>The life of a run\<close>

text \<open>Along every sequence of repository calls that drive runs (creation, polls, heartbeats,
  sleeps, retries, completion, failure, cancellation, schedule firings) the database keeps every
  constraint of the schema, and every run stays consistent: a RUNNING run is locked, started and
  counted, any other is unlocked; a finished run is stamped and not claimable, any other is not
  stamped and has an \<open>available_at\<close>.\<close>

theorem lifecycle_keeps_db_ok:
  assumes "(lifecycle_step cfg)\<^sup>*\<^sup>* s s'" and "db_ok s"
  shows "db_ok s'"
  using assms by (rule lifecycle.run_inv)

abbreviation demo_claimed :: db where
  "demo_claimed \<equiv> snd (wf_poll_workflow no_locks 1000 ''default'' ''q'' ''w2'' [] 30 demo_db)"

abbreviation demo_completed :: db where
  "demo_completed \<equiv> snd (wf_complete demo_cfg 2000 1 [9] demo_claimed)"

lemma demo_path: "(lifecycle_step demo_cfg)\<^sup>*\<^sup>* demo_db demo_completed"
  by (meson converse_rtranclp_into_rtranclp lifecycle_step.do_complete lifecycle_step.do_poll
      rtranclp.rtrancl_refl)

lemma lifecycle_keeps_db_ok_witness: "db_ok demo_completed"
  by (rule lifecycle_keeps_db_ok [OF demo_path]) code_simp

text \<open>Finished is final: once a run is COMPLETED, FAILED or CANCELLED, no sequence of these calls
  changes its row again; and for every run they keep its identity (run id, namespace, external id,
  queue, type, creation time, schedule) and never lower its attempt counter.\<close>

theorem finished_runs_never_change:
  assumes "(lifecycle_step cfg)\<^sup>*\<^sup>* s s'" and "db_ok s" and "r \<in> set (runs s)"
  shows "\<exists>r'\<in>set (runs s'). same_identity r r' \<and> wr_attempts r \<le> wr_attempts r'
           \<and> (row_terminal r \<longrightarrow> r' = r)"
proof -
  have "history s s'" using lifecycle.run_rel [OF assms(1,2)] .
  then obtain r' where "r' \<in> set (runs s')" "run_history r r'" using assms(3) by (rule history_row)
  then show ?thesis by (auto simp: run_history_def)
qed

lemma finished_runs_never_change_witness:
  "\<exists>r'\<in>set (runs demo_completed). same_identity demo_done r' \<and> wr_attempts demo_done \<le> wr_attempts r'
     \<and> (row_terminal demo_done \<longrightarrow> r' = demo_done)"
proof (rule finished_runs_never_change [OF demo_path])
  show "demo_done \<in> set (runs demo_db)" by (simp add: demo_db_def)
qed code_simp



definition cancellable :: "uuid \<Rightarrow> string \<Rightarrow> run_row \<Rightarrow> bool" where
  "cancellable i ns r = (wr_run_id r = i \<and> wr_namespace r = ns
     \<and> (case parse_status (wr_status r) of None \<Rightarrow> False | Some st \<Rightarrow> can_cancel st))"

lemma cancellable_texts:
  "cancellable i ns = (\<lambda>r. wr_run_id r = i \<and> wr_namespace r = ns
     \<and> wr_status r \<in> {show_status WsPending, show_status WsRunning, show_status WsSleeping})"
  by (auto simp: cancellable_def fun_eq_iff split: option.splits elim!: can_cancel.elims
      dest!: parse_status_SomeD)

text \<open>Cancelling never fails, and is exact: it answers whether the run exists in that namespace
  and is PENDING, RUNNING or SLEEPING, in which case that row and nothing else becomes CANCELLED,
  stamped, unlocked and unclaimable.\<close>

theorem cancel_exact:
  assumes "wf_db s"
  shows "wf_cancel now i ns s = (Inr (list_ex (cancellable i ns) (runs s)),
     s\<lparr>runs := map (\<lambda>r. if cancellable i ns r then set_cancelled now r else r) (runs s)\<rparr>)"
  unfolding cancellable_texts using cancel_run [OF assms, of now i ns] by (simp add: sql_update_def)

lemma cancel_exact_witness:
  "wf_cancel 500 1 ''default'' demo_db
   = (Inr (list_ex (cancellable 1 ''default'') (runs demo_db)),
      demo_db\<lparr>runs := map (\<lambda>r. if cancellable 1 ''default'' r then set_cancelled 500 r else r)
        (runs demo_db)\<rparr>)"
  by (rule cancel_exact [OF demo_wf])

text \<open>Completing a run within the payload limit never fails: a RUNNING run becomes COMPLETED and
  its output is stored, in one transaction; other runs are not touched. (The output is also stored
  for a run that is not RUNNING.) Output over the limit is refused without any change.\<close>

theorem complete_exact:
  assumes "wf_db s"
  shows "wf_complete cfg now i out s =
     (if payload_max_size_bytes cfg < length out
      then (Inl (InvalidArgument (FmtPayloadSize ''Workflow output'' (payload_max_size_bytes cfg)
              (length out))), s)
      else (Inr (), s\<lparr>
        runs := map (\<lambda>r. if running_row i r then set_completed now r else r) (runs s),
        payloads := map (\<lambda>p. if pl_run_id p = i then p\<lparr>pl_output := Some out\<rparr> else p) (payloads s)\<rparr>))"
proof (cases "payload_max_size_bytes cfg < length out")
  case True
  then show ?thesis by (simp add: wf_complete_def validate_payload_size_def bind_op_def)
next
  case False
  then show ?thesis using complete_run [OF assms, of out cfg now i] by (simp add: sql_update_def)
qed

lemma complete_exact_witness:
  "wf_complete demo_cfg 2000 1 [9] demo_claimed =
     (if payload_max_size_bytes demo_cfg < length [9 :: 8 word]
      then (Inl (InvalidArgument (FmtPayloadSize ''Workflow output''
              (payload_max_size_bytes demo_cfg) (length [9 :: 8 word]))), demo_claimed)
      else (Inr (), demo_claimed\<lparr>
        runs := map (\<lambda>r. if running_row 1 r then set_completed 2000 r else r) (runs demo_claimed),
        payloads := map (\<lambda>p. if pl_run_id p = 1 then p\<lparr>pl_output := Some [9]\<rparr> else p)
          (payloads demo_claimed)\<rparr>))"
  by (rule complete_exact) code_simp

text \<open>Completing a run that is not RUNNING (already finished by another worker, cancelled, or
  waiting) answers success, leaves its status alone and overwrites its stored output.\<close>

theorem late_complete_overwrites_output:
  assumes "wf_db s" and "r \<in> set (runs s)" and "wr_status r \<noteq> show_status WsRunning"
    and "length out \<le> payload_max_size_bytes cfg" and "wr_run_id r = i"
  shows "wf_complete cfg now i out s = (Inr (), s\<lparr>
     payloads := map (\<lambda>p. if pl_run_id p = i then p\<lparr>pl_output := Some out\<rparr> else p) (payloads s)\<rparr>)"
proof -
  have "\<not> running_row i x" if "x \<in> set (runs s)" for x
    using run_unique [OF assms(1) that assms(2)] assms(3,5) by auto
  then have "sql_update (running_row i) (set_completed now) (runs s) = runs s"
    by (intro sql_update_none) blast
  then show ?thesis unfolding complete_run [OF assms(1,4)] by (simp add: sql_update_def)
qed

lemma late_complete_overwrites_output_witness:
  "wf_complete demo_cfg 2000 3 [9] demo_db = (Inr (), demo_db\<lparr>
     payloads := map (\<lambda>p. if pl_run_id p = 3 then p\<lparr>pl_output := Some [9]\<rparr> else p) (payloads demo_db)\<rparr>)"
proof (rule late_complete_overwrites_output [OF demo_wf])
  show "demo_done \<in> set (runs demo_db)" by (simp add: demo_db_def)
qed (simp_all add: demo_done_def run_defaults_def demo_cfg_def)

subsection \<open>Creation\<close>

lemma insert_new_run:
  assumes wf: "wf_db s" and ns: "cw_namespace p \<in> set (ns_names s)"
    and fresh: "cw_run_id p \<notin> set (run_ids s)" and sch: "cw_schedule_id p = None"
  shows "insert_run (new_run now p) s =
     (if list_ex (\<lambda>r. is_active r \<and> active_key r = (cw_namespace p, cw_external_id p)) (runs s)
      then (Inl (Conflict (PgText ''uq_active_workflow'')), s)
      else (Inr (), s\<lparr>runs := runs s @ [new_run now p]\<rparr>))"
proof -
  let ?r = "new_run now p"
  have old: "runs_violation (ns_names s) (runs s) = None" using wf by (simp add: wf_db_def)
  have r: "chk_available_at ?r" "is_active ?r" "\<not> is_firing ?r" "wr_schedule_id ?r = None"
    "wr_run_id ?r = cw_run_id p" "active_key ?r = (cw_namespace p, cw_external_id p)"
    "wr_namespace ?r = cw_namespace p"
    using sch by (simp_all add: new_run_def run_defaults_def chk_available_at_def is_active_def
        active_text_def is_firing_def active_key_def)
  let ?rs = "runs s @ [?r]"
  have 1: "list_all chk_available_at ?rs" "list_all (\<lambda>r. wr_namespace r \<in> set (ns_names s)) ?rs"
    "distinct (map wr_run_id ?rs)" "distinct (map firing_key (filter is_firing ?rs))"
    using old r ns fresh by (simp_all add: runs_violation_None list_all_iff)
  have "schedule_fk (map wr_run_id ?rs) x" if "x \<in> set (runs s)" for x
    using old that by (auto simp: runs_violation_None schedule_fk_def split: option.splits)
  then have 2: "list_all (schedule_fk (map wr_run_id ?rs)) ?rs"
    using r(4) by (simp add: list_all_iff schedule_fk_def)
  have "distinct (map active_key (filter is_active (runs s)))" using old by (simp add: runs_violation_None)
  then have 3: "distinct (map active_key (filter is_active ?rs))
      \<longleftrightarrow> \<not> list_ex (\<lambda>r. is_active r \<and> active_key r = (cw_namespace p, cw_external_id p)) (runs s)"
    using r(2,6) by (simp add: list_ex_iff image_iff) metis
  show ?thesis
    unfolding insert_run_def put_runs_def runs_violation_def using 1 2
    by (simp only: 3 not_False_eq_True not_True_eq_False if_True if_False simp_thms
        option.case store_error_from.simps split: if_splits) simp
qed

lemma create_run:
  assumes "wf_db s" and "cw_namespace p \<in> set (ns_names s)" and "cw_run_id p \<notin> set (run_ids s)"
    and "cw_schedule_id p = None"
  shows "wf_create cfg now p s =
     (if payload_max_size_bytes cfg < length (cw_input p)
      then (Inl (InvalidArgument (FmtPayloadSize ''Workflow input'' (payload_max_size_bytes cfg)
              (length (cw_input p)))), s)
      else if list_ex (\<lambda>r. is_active r \<and> active_key r = (cw_namespace p, cw_external_id p)) (runs s)
      then (Inl (Conflict (PgText ''uq_active_workflow'')), s)
      else (Inr (cw_run_id p), s\<lparr>runs := runs s @ [new_run now p],
              payloads := payloads s @ [\<lparr>pl_run_id = cw_run_id p, pl_input = cw_input p,
                                         pl_output = None\<rparr>]\<rparr>))"
proof -
  have "payloads_violation (run_ids s) (payloads s) = None" using assms(1) by (simp add: wf_db_def)
  then have "payloads_violation (run_ids s @ [cw_run_id p])
      (payloads s @ [\<lparr>pl_run_id = cw_run_id p, pl_input = cw_input p, pl_output = None\<rparr>]) = None"
    using assms(3) by (auto simp: payloads_violation_None)
  moreover have "wr_run_id (new_run now p) = cw_run_id p" by (simp add: new_run_def run_defaults_def)
  ultimately show ?thesis
    unfolding wf_create_def insert_workflow_def transact_def bind_op_def insert_payload_def
    using insert_new_run [OF assms, of now]
    by (auto simp: validate_payload_size_def)
qed

text \<open>Creating a run with a fresh id in an existing namespace, outside any schedule, succeeds exactly
  when the input is within the limit and no run that is not finished has the same external id there;
  it then adds the PENDING run and its payload. Otherwise it answers InvalidArgument or Conflict and
  changes nothing.\<close>

theorem create_iff_no_active_duplicate:
  assumes "wf_db s" and "cw_namespace p \<in> set (ns_names s)" and "cw_run_id p \<notin> set (run_ids s)"
    and "cw_schedule_id p = None"
  shows "wf_create cfg now p s =
     (if payload_max_size_bytes cfg < length (cw_input p)
      then (Inl (InvalidArgument (FmtPayloadSize ''Workflow input'' (payload_max_size_bytes cfg)
              (length (cw_input p)))), s)
      else if list_ex (\<lambda>r. is_active r \<and> active_key r = (cw_namespace p, cw_external_id p)) (runs s)
      then (Inl (Conflict (PgText ''uq_active_workflow'')), s)
      else (Inr (cw_run_id p), s\<lparr>runs := runs s @ [new_run now p],
              payloads := payloads s @ [\<lparr>pl_run_id = cw_run_id p, pl_input = cw_input p,
                                         pl_output = None\<rparr>]\<rparr>))"
  using assms by (rule create_run)

definition demo_order :: "uuid \<Rightarrow> string \<Rightarrow> create_workflow" where
  "demo_order i ext = \<lparr>cw_run_id = i, cw_external_id = ext, cw_task_queue = ''q'',
     cw_workflow_type = ''Order'', cw_input = [4, 5], cw_namespace = ''default'', cw_version = ''1'',
     cw_retry_policy = None, cw_cron_expr = None, cw_schedule_id = None\<rparr>"

lemma create_iff_no_active_duplicate_witness:
  "wf_create demo_cfg 700 (demo_order 11 ''order-1'') demo_db
     = (Inl (Conflict (PgText ''uq_active_workflow'')), demo_db)"
proof -
  have d: "cw_namespace (demo_order 11 ''order-1'') \<in> set (ns_names demo_db)"
    "cw_run_id (demo_order 11 ''order-1'') \<notin> set (run_ids demo_db)"
    "cw_schedule_id (demo_order 11 ''order-1'') = None"
    "list_ex (\<lambda>r. is_active r \<and> active_key r = (cw_namespace (demo_order 11 ''order-1''),
        cw_external_id (demo_order 11 ''order-1''))) (runs demo_db)"
    by code_simp+
  have "\<not> payload_max_size_bytes demo_cfg < length (cw_input (demo_order 11 ''order-1''))"
    by (simp add: demo_cfg_def demo_order_def)
  then show ?thesis
    using create_iff_no_active_duplicate [OF demo_wf d(1-3), of demo_cfg 700] d(4) by simp
qed

subsection \<open>Payload sizes\<close>

definition payloads_bounded :: "store_config \<Rightarrow> db \<Rightarrow> bool" where
  "payloads_bounded cfg s = list_all (\<lambda>p. length (pl_input p) \<le> payload_max_size_bytes cfg
     \<and> (case pl_output p of None \<Rightarrow> True | Some out \<Rightarrow> length out \<le> payload_max_size_bytes cfg)) (payloads s)"

lemma bounded_same: "(\<And>s. payloads (snd (m s)) = payloads s) \<Longrightarrow> keeps (payloads_bounded cfg) m"
  by (rule keepsI) (simp add: payloads_bounded_def)

lemma bounded_update_runs [keeps_rules]: "keeps (payloads_bounded cfg) (update_runs P f)"
  by (rule bounded_same) (auto simp: update_runs_def put_runs_def split: option.splits)

lemma bounded_insert_run [keeps_rules]: "keeps (payloads_bounded cfg) (insert_run r)"
  by (rule bounded_same) (auto simp: insert_run_def put_runs_def split: option.splits)

lemma bounded_insert_payload:
  "length (pl_input p) \<le> payload_max_size_bytes cfg \<Longrightarrow> pl_output p = None
    \<Longrightarrow> keeps (payloads_bounded cfg) (insert_payload p)"
  by (rule keepsI) (auto simp: insert_payload_def payloads_bounded_def split: option.splits)

lemma bounded_insert_workflow:
  assumes "length (cw_input p) \<le> payload_max_size_bytes cfg"
  shows "keeps (payloads_bounded cfg) (insert_workflow now p)"
  unfolding insert_workflow_def using assms
  by (intro keeps_rules bounded_insert_payload) simp_all

lemma keeps_validated:
  assumes "length b \<le> payload_max_size_bytes cfg \<Longrightarrow> keeps I m"
  shows "keeps I (bind_op (lift_op (validate_payload_size cfg b ctx)) (\<lambda>_. m))"
  using assms by (auto simp: keeps_def validate_payload_size_def bind_op_def)

lemma bounded_create [keeps_rules]: "keeps (payloads_bounded cfg) (wf_create cfg now p)"
  unfolding wf_create_def by (intro keeps_validated keeps_rules bounded_insert_workflow)

lemma bounded_create_all [keeps_rules]: "keeps (payloads_bounded cfg) (create_all cfg now ps)"
proof (induction ps)
  case Nil
  show ?case unfolding create_all.simps by (rule keeps_rules)
next
  case (Cons p ps)
  show ?case unfolding create_all.simps
    by (intro keeps_validated keeps_rules bounded_insert_workflow Cons)
qed

lemma bounded_create_batch [keeps_rules]: "keeps (payloads_bounded cfg) (wf_create_batch cfg now ps)"
  unfolding wf_create_batch_def by (intro keeps_rules)

lemma bounded_complete [keeps_rules]: "keeps (payloads_bounded cfg) (wf_complete cfg now i out)"
proof -
  have "keeps (payloads_bounded cfg) (set_output i out)" if "length out \<le> payload_max_size_bytes cfg"
    using that by (intro keepsI) (auto simp: set_output_def payloads_bounded_def list_all_iff in_sql_update)
  then show ?thesis
    unfolding wf_complete_def by (intro keeps_validated keeps_rules)
qed

lemma bounded_instance [keeps_rules]:
  "keeps (payloads_bounded cfg) (wf_create_schedule_instance su now new_id i t)"
proof (rule keepsI)
  fix s assume b: "payloads_bounded cfg s"
  have "keeps (payloads_bounded cfg) (insert_payload \<lparr>pl_run_id = new_id, pl_input = pl_input p, pl_output = None\<rparr>)"
    if "List.find (\<lambda>p. pl_run_id p = i) (payloads s) = Some p" for p
    using find_Some_in [OF that] b by (intro bounded_insert_payload) (auto simp: payloads_bounded_def list_all_iff)
  then show "payloads_bounded cfg (snd (wf_create_schedule_instance su now new_id i t s))"
    unfolding wf_create_schedule_instance_def using b
    by (auto split: option.splits intro!: keepsD [of "payloads_bounded cfg"] keeps_rules)
qed

lemma bounded_runs_only [keeps_rules]:
  "keeps (payloads_bounded cfg) (wf_cancel now i ns)"
  "keeps (payloads_bounded cfg) (wf_fail now i err)"
  "keeps (payloads_bounded cfg) (wf_mark_exhausted now i err)"
  "keeps (payloads_bounded cfg) (wf_update_next_fire i t l)"
  unfolding wf_cancel_def wf_fail_def wf_mark_exhausted_def wf_update_next_fire_def
  by (intro keeps_rules)+

lemma bounded_guarded [keeps_rules]:
  "keeps (payloads_bounded cfg) (wf_mark_exhausted_with_increment now i err)"
  "keeps (payloads_bounded cfg) (wf_extend_visibility now w n)"
  unfolding wf_mark_exhausted_with_increment_def wf_extend_visibility_def
  by (intro keeps_guarded keeps_rules)+

lemma bounded_park [keeps_rules]: "keeps (payloads_bounded cfg) (park_run now i st us)"
  by (rule bounded_same)
    (auto simp: park_run_def update_runs_def put_runs_def split: option.splits)

lemma bounded_sleep_retry [keeps_rules]:
  "keeps (payloads_bounded cfg) (wf_schedule_sleep now i n)"
  "keeps (payloads_bounded cfg) (wf_schedule_retry now i n)"
  unfolding wf_schedule_sleep_def wf_schedule_retry_def by (intro keeps_rules)+

lemma bounded_poll [keeps_rules]:
  "keeps (payloads_bounded cfg) (wf_poll_workflow locked now ns queue w types vt)"
proof (rule keepsI)
  fix s assume b: "payloads_bounded cfg s"
  show "payloads_bounded cfg (snd (wf_poll_workflow locked now ns queue w types vt s))"
    using poll_snd [of locked now ns queue w types vt s]
  proof (elim disjE exE conjE)
    fix r until
    assume "snd (wf_poll_workflow locked now ns queue w types vt s)
              = snd (update_runs (\<lambda>x. wr_run_id x = wr_run_id r) (claim_run now w until) s)"
    then show ?thesis using keepsD [OF bounded_update_runs b] by simp
  qed (simp add: b)
qed

text \<open>The size limit is a second contract of the same calls.\<close>

interpretation bounded: governed_steps "lifecycle_step cfg" "payloads_bounded cfg" "\<lambda>_ _. True"
  by unfold_locales (auto elim!: lifecycle_step.cases intro!: keepsD [of "payloads_bounded cfg"] keeps_rules)



subsection \<open>Listing\<close>

definition run_model :: "run_row \<times> payload_row \<Rightarrow> workflow_run" where
  "run_model r = projr (run_into_model r)"

definition model_cursor :: "workflow_run \<Rightarrow> cursor" where
  "model_cursor w = (the (w_created_at w), w_run_id w)"

definition list_page ::
  "list_workflows_params \<Rightarrow> db \<Rightarrow> cursor option \<Rightarrow> workflow_run list \<times> cursor option \<times> bool" where
  "list_page ps s cur = (case fst (wf_list (ps\<lparr>lw_cursor := cur\<rparr>) s) of
       Inl e \<Rightarrow> ([], None, False)
     | Inr pg \<Rightarrow> (pr_items pg, pr_next_cursor pg, pr_has_more pg))"

definition matching :: "list_workflows_params \<Rightarrow> db \<Rightarrow> workflow_run list" where
  "matching ps s = map run_model (filter (list_filter ps) (runs_with_payload s))"

lemma payload_at_most_one:
  assumes "distinct (map pl_run_id ps)"
  shows "length (filter (\<lambda>p. pl_run_id p = i) ps) \<le> 1"
  using assms
proof (induction ps)
  case (Cons p ps)
  then have "filter (\<lambda>p. pl_run_id p = i) ps = []" if "pl_run_id p = i"
    using that by (auto simp: filter_empty_conv image_iff)
  with Cons show ?case by auto
qed simp

lemma distinct_joined:
  assumes wf: "wf_db s"
  shows "distinct (map (\<lambda>r. wr_run_id (fst r)) (runs_with_payload s))"
proof -
  let ?ps = "\<lambda>w. filter (\<lambda>p. pl_run_id p = wr_run_id w) (payloads s)"
  have one: "length (?ps w) \<le> 1" for w
    using wf by (intro payload_at_most_one) (simp add: wf_db_def payloads_violation_None)
  have "distinct (map (\<lambda>r. wr_run_id (fst r)) (concat (map (\<lambda>w. map (Pair w) (?ps w)) ws)))"
    if "distinct (map wr_run_id ws)" for ws :: "run_row list"
    using that
  proof (induction ws)
    case (Cons w ws)
    have "distinct (map (\<lambda>r. wr_run_id (fst r)) (map (Pair w) (?ps w)))"
      using one [of w] by (cases "?ps w") auto
    with Cons show ?case by auto
  qed simp
  then show ?thesis using wf by (simp add: runs_with_payload_def wf_db_def runs_violation_None)
qed

lemma joined_model:
  assumes "db_ok s" and "r \<in> set (runs_with_payload s)"
  shows "run_into_model r = Inr (run_model r)" and "model_cursor (run_model r) = run_cursor r"
    and "w_created_at (run_model r) = Some (fst (run_cursor r))" and "w_run_id (run_model r) = snd (run_cursor r)"
proof -
  obtain w p where r: "r = (w, p)" by (cases r)
  have "run_ok w" using assms r by (auto simp: db_ok_def runs_with_payload_def list_all_iff)
  then obtain st where "wr_status w = show_status st" by (rule run_ok_status)
  then show "run_into_model r = Inr (run_model r)" "model_cursor (run_model r) = run_cursor r"
    "w_created_at (run_model r) = Some (fst (run_cursor r))" "w_run_id (run_model r) = snd (run_cursor r)"
    unfolding r by (simp_all add: run_model_def run_into_model_def model_cursor_def run_cursor_def)
qed

lemma order_by_map:
  "(\<And>x. x \<in> set xs \<Longrightarrow> k (f x) = k' x) \<Longrightarrow> order_by lt k (map f xs) = map f (order_by lt k' xs)"
proof (induction xs)
  case (Cons x xs)
  have step: "insert_by lt k (f x) (map f ys) = map f (insert_by lt k' x ys)"
    if "k (f x) = k' x" "\<And>y. y \<in> set ys \<Longrightarrow> k (f y) = k' y" for ys
    using that by (induction ys) auto
  have "insert_by lt k (f x) (map f (order_by lt k' xs)) = map f (insert_by lt k' x (order_by lt k' xs))"
    by (rule step) (use Cons.prems in auto)
  with Cons show ?case by (simp add: order_by_def)
qed (simp add: order_by_def)

text \<open>One page is the first rows after the cursor, and says how to go on.\<close>

lemma list_page_is:
  assumes ok: "db_ok s" and size: "1 \<le> lw_page_size ps" "lw_page_size ps < 2 ^ 31 - 1"
  defines "n \<equiv> nat (lw_page_size ps)"
  defines "page cur \<equiv> order_by newest_first model_cursor
                        (filter (after_cursor newest_first model_cursor cur) (matching ps s))"
  shows "list_page ps s cur = (take n (page cur),
     if page cur = [] then None else Some (model_cursor (last (take n (page cur)))), n < length (page cur))"
proof -
  let ?hit = "\<lambda>r. list_filter ps r \<and> after_cursor newest_first run_cursor cur r"
  let ?found = "order_by newest_first run_cursor (filter ?hit (runs_with_payload s))"
  have mem: "r \<in> set (runs_with_payload s)" if "r \<in> set ?found" for r using that by simp
  have "filter (after_cursor newest_first model_cursor cur) (matching ps s)
      = map run_model (filter ?hit (runs_with_payload s))"
    unfolding matching_def filter_map filter_filter o_def
    using joined_model(2) [OF ok]
    by (intro arg_cong [of _ _ "map run_model"] filter_cong refl)
      (auto simp: after_cursor_def split: option.splits)
  then have pg: "page cur = map run_model ?found"
    unfolding page_def
    using order_by_map [of "filter ?hit (runs_with_payload s)" model_cursor run_model run_cursor newest_first]
      joined_model(2) [OF ok] by auto
  have lim: "as_i32 (lw_page_size ps + 1) = lw_page_size ps + 1"
    and sz: "nat (as_u64 (lw_page_size ps)) = n"
    using size unfolding n_def by (simp_all add: as_i32_id as_u64_id)
  have rows: "sql_limit (lw_page_size ps + 1) ?found = Inr (take (Suc n) ?found)"
    using size(1) by (simp add: sql_limit_def n_def Suc_nat_eq_nat_zadd1 add.commute)
  have coll: "collect_results (map run_into_model (take n ?found)) = Inr (map run_model (take n ?found))"
  proof -
    have "map run_into_model (take n ?found) = map (\<lambda>r. Inr (run_model r)) (take n ?found)"
      using joined_model(1) [OF ok] mem by (intro map_cong refl) (meson in_set_takeD)
    then show ?thesis by (simp only: collect_results_map_Inr)
  qed
  have lst: "map_option (\<lambda>t. (t, w_run_id (last (map run_model (take n ?found)))))
       (w_created_at (last (map run_model (take n ?found))))
     = Some (model_cursor (last (map run_model (take n ?found))))" if "take n ?found \<noteq> []"
  proof -
    have "last (take n ?found) \<in> set ?found" using that by (meson in_set_takeD last_in_set)
    note j = joined_model(2-4) [OF ok mem [OF this]]
    have "last (map run_model (take n ?found)) = run_model (last (take n ?found))"
      using that by (rule last_map)
    then show ?thesis by (simp only: j option.map prod.collapse)
  qed
  have filt: "list_filter (ps\<lparr>lw_cursor := cur\<rparr>) r = list_filter ps r" for r
    by (simp add: list_filter_def split: prod.splits)
  have n0: "0 < n" using size(1) by (simp add: n_def)
  have "fst (wf_list (ps\<lparr>lw_cursor := cur\<rparr>) s) = Inr \<lparr>pr_items = map run_model (take n ?found),
     pr_next_cursor = (if take n ?found = [] then None
        else Some (model_cursor (last (map run_model (take n ?found))))),
     pr_has_more = n < length (take (Suc n) ?found)\<rparr>"
    unfolding wf_list_def query_op_def Let_def fst_conv list_workflows_params.simps filt
    using rows coll lst by (simp add: lim sz min_def del: order_by_Nil_iff)
  then show ?thesis
    unfolding list_page_def pg using n0
    by (auto simp: take_map less_Suc_eq_le not_le)
qed

text \<open>C19: Following the cursors of \<open>list\<close> from the first page returns every run that matches the
  filters exactly once, newest first, and stops.\<close>

theorem list_pages_complete:
  assumes "db_ok s" and "1 \<le> lw_page_size ps" and "lw_page_size ps < 2 ^ 31 - 1"
    and "length (matching ps s) \<le> fuel"
  shows "walk_pages fuel (list_page ps s) None
       = order_by newest_first model_cursor (matching ps s)"
proof -
  let ?page = "\<lambda>cur. order_by newest_first model_cursor
     (filter (after_cursor newest_first model_cursor cur) (matching ps s))"
  have all: "filter (after_cursor newest_first model_cursor None) (matching ps s) = matching ps s"
    by (simp add: after_cursor_def)
  have "map model_cursor (matching ps s) = map run_cursor (filter (list_filter ps) (runs_with_payload s))"
    unfolding matching_def map_map o_def using joined_model(2) [OF assms(1)] by (intro map_cong) auto
  moreover have "distinct (map run_cursor (runs_with_payload s))"
  proof -
    have "(\<lambda>r. wr_run_id (fst r)) = snd \<circ> run_cursor" by (auto simp: run_cursor_def)
    then have "distinct (map snd (map run_cursor (runs_with_payload s)))"
      using distinct_joined [of s] assms(1) by (simp add: db_ok_def)
    then show ?thesis by (simp only: distinct_map)
  qed
  ultimately have dist: "distinct (map model_cursor (matching ps s))"
    by (simp add: distinct_map_filterI)
  have "walk_pages fuel (list_page ps s) None = ?page None"
    using list_page_is [OF assms(1-3)] assms(2,4)
    by (intro by_newest.walk_pages_complete [OF dist, of "nat (lw_page_size ps)"]) (auto simp: all)
  then show ?thesis by (simp add: all)
qed

definition demo_list :: list_workflows_params where
  "demo_list = \<lparr>lw_namespace = ''default'', lw_filter_status = None, lw_page_size = 2, lw_cursor = None,
     lw_schedule_id = None\<rparr>"

lemma list_pages_complete_witness:
  "map w_run_id (walk_pages 4 (list_page demo_list demo_db) None) = [1, 2, 3, 4]
   \<and> length (fst (list_page demo_list demo_db None)) = 2"
proof -
  have "walk_pages 4 (list_page demo_list demo_db) None
      = order_by newest_first model_cursor (matching demo_list demo_db)"
    by (rule list_pages_complete) (code_simp | simp add: demo_list_def)+
  moreover have "map w_run_id (order_by newest_first model_cursor (matching demo_list demo_db)) = [1, 2, 3, 4]"
    by code_simp
  moreover have "length (fst (list_page demo_list demo_db None)) = 2" by code_simp
  ultimately show ?thesis by simp
qed

subsection \<open>Schedule instances\<close>

lemma instance_row_simps [simp]:
  "wr_run_id (instance_run su now i t r) = i"
  "wr_namespace (instance_run su now i t r) = wr_namespace r"
  "wr_external_id (instance_run su now i t r) = ''schedule-instance-'' @ su i"
  "wr_status (instance_run su now i t r) = show_status WsPending"
  "wr_available_at (instance_run su now i t r) = Some t"
  "wr_schedule_id (instance_run su now i t r) = Some (wr_run_id r)"
  by (simp_all add: instance_run_def run_defaults_def)

lemma insert_instance:
  assumes wf: "wf_db s" and t: "t \<in> set (runs s)" and fresh: "i \<notin> set (run_ids s)"
    and ext: "\<And>r. r \<in> set (runs s) \<Longrightarrow> is_active r \<Longrightarrow> wr_external_id r \<noteq> ''schedule-instance-'' @ su i"
    and slot: "\<not> list_ex (\<lambda>r. wr_schedule_id r = Some (wr_run_id t) \<and> wr_available_at r = Some fire) (runs s)"
  shows "insert_run (instance_run su now i fire t) s
       = (Inr (), s\<lparr>runs := runs s @ [instance_run su now i fire t]\<rparr>)"
proof -
  let ?r = "instance_run su now i fire t"
  let ?rs = "runs s @ [?r]"
  have old: "runs_violation (ns_names s) (runs s) = None" using wf by (simp add: wf_db_def)
  have "runs_violation (ns_names s) ?rs = None"
    unfolding runs_violation_None
  proof (intro conjI)
    show "\<forall>r\<in>set ?rs. chk_available_at r" "distinct (map wr_run_id ?rs)"
      "\<forall>r\<in>set ?rs. wr_namespace r \<in> set (ns_names s)"
      using old fresh t by (auto simp: runs_violation_None chk_available_at_def)
    have "active_key ?r \<noteq> active_key x" if "x \<in> set (runs s)" "is_active x" for x
      using ext [OF that] by (simp add: active_key_def)
    then show "distinct (map active_key (filter is_active ?rs))"
      using old by (auto simp: runs_violation_None image_iff)
    show "distinct (map firing_key (filter is_firing ?rs))"
      using old slot by (auto simp: runs_violation_None firing_key_def list_ex_iff)
    show "\<forall>r\<in>set ?rs. schedule_fk (map wr_run_id ?rs) r"
      using old t by (auto simp: runs_violation_None schedule_fk_def split: option.splits)
  qed
  then show ?thesis by (simp add: insert_run_def put_runs_def)
qed

lemma create_instance_run:
  assumes "wf_db s" and "t \<in> set (runs s)" and "i \<notin> set (run_ids s)"
    and "\<forall>r\<in>set (runs s). is_active r \<longrightarrow> wr_external_id r \<noteq> ''schedule-instance-'' @ su i"
    and "List.find (\<lambda>p. pl_run_id p = wr_run_id t) (payloads s) = Some p"
  shows "wf_create_schedule_instance su now i (wr_run_id t) fire s =
     (if list_ex (\<lambda>r. wr_schedule_id r = Some (wr_run_id t) \<and> wr_available_at r = Some fire) (runs s)
      then (Inr None, s)
      else (Inr (Some i), s\<lparr>runs := runs s @ [instance_run su now i fire t],
        payloads := payloads s @ [\<lparr>pl_run_id = i, pl_input = pl_input p, pl_output = None\<rparr>]\<rparr>))"
proof -
  have "payloads_violation (run_ids s) (payloads s) = None" using assms(1) by (simp add: wf_db_def)
  then have "payloads_violation (run_ids s @ [i])
      (payloads s @ [\<lparr>pl_run_id = i, pl_input = pl_input p, pl_output = None\<rparr>]) = None"
    using assms(3) by (auto simp: payloads_violation_None)
  then show ?thesis
    unfolding wf_create_schedule_instance_def find_run [OF assms(1,2)]
    using insert_instance [OF assms(1-3), of su fire now] assms(4,5)
    by (simp add: transact_def bind_op_def insert_payload_def)
qed

text \<open>Firing a schedule at a time creates exactly one PENDING instance that carries the template's
  type, queue and payload, unless a run of that schedule is available at exactly that time: then the
  call answers "already fired" and changes nothing.\<close>

theorem schedule_instance_exact:
  assumes "wf_db s" and "t \<in> set (runs s)" and "i \<notin> set (run_ids s)"
    and "\<forall>r\<in>set (runs s). is_active r \<longrightarrow> wr_external_id r \<noteq> ''schedule-instance-'' @ su i"
    and "List.find (\<lambda>p. pl_run_id p = wr_run_id t) (payloads s) = Some p"
  shows "wf_create_schedule_instance su now i (wr_run_id t) fire s =
     (if list_ex (\<lambda>r. wr_schedule_id r = Some (wr_run_id t) \<and> wr_available_at r = Some fire) (runs s)
      then (Inr None, s)
      else (Inr (Some i), s\<lparr>runs := runs s @ [instance_run su now i fire t],
        payloads := payloads s @ [\<lparr>pl_run_id = i, pl_input = pl_input p, pl_output = None\<rparr>]\<rparr>))"
  using assms by (rule create_instance_run)

definition demo_show :: "uuid \<Rightarrow> string" where
  "demo_show i = (if i = 31 then ''a'' else ''b'')"

lemma schedule_instance_exact_witness:
  "wf_create_schedule_instance demo_show 250 31 (wr_run_id demo_template) 200 demo_db =
     (if list_ex (\<lambda>r. wr_schedule_id r = Some (wr_run_id demo_template) \<and> wr_available_at r = Some 200)
           (runs demo_db)
      then (Inr None, demo_db)
      else (Inr (Some 31), demo_db\<lparr>runs := runs demo_db @ [instance_run demo_show 250 31 200 demo_template],
        payloads := payloads demo_db @ [\<lparr>pl_run_id = 31, pl_input = pl_input (demo_payload 4),
                                         pl_output = None\<rparr>]\<rparr>))"
proof (rule schedule_instance_exact [OF demo_wf])
  show "demo_template \<in> set (runs demo_db)" by (simp add: demo_db_def)
qed code_simp+

text \<open>C32: The slot of a firing is kept by \<open>available_at\<close>, which a claim moves: once a worker has polled
  the instance of a firing, firing the same schedule at the same time again creates a second
  instance.\<close>

theorem claimed_firing_fires_again:
  assumes "wf_db s" and "t \<in> set (runs s)"
    and poll: "wf_poll_workflow locked now ns queue worker types vt s = (Inr (Some c), s1)"
    and inst: "r \<in> set (runs s)" "wr_run_id r = cl_run_id c" "wr_schedule_id r = Some (wr_run_id t)"
      "wr_available_at r = Some fire"
    and moved: "now + vt * 1000000 \<noteq> fire" and not_self: "wr_run_id t \<noteq> cl_run_id c"
    and fresh: "i \<notin> set (run_ids s)"
      "\<forall>r\<in>set (runs s). is_active r \<longrightarrow> wr_external_id r \<noteq> ''schedule-instance-'' @ su i"
    and pay: "List.find (\<lambda>p. pl_run_id p = wr_run_id t) (payloads s) = Some p"
  shows "fst (wf_create_schedule_instance su now' i (wr_run_id t) fire s1) = Inr (Some i)"
  using poll
proof (rule poll_Some)
  fix r0 p0
  assume r0: "r0 \<in> set (runs s)" "claimable now ns queue types r0"
    and s1: "s1 = s\<lparr>runs := sql_update (\<lambda>w. wr_run_id w = wr_run_id r0)
               (claim_run now worker (now + vt * 1000000)) (runs s)\<rparr>"
    and c: "c = \<lparr>cl_run_id = wr_run_id r0, cl_workflow_type = wr_workflow_type r0,
              cl_input = pl_input p0, cl_locked_by = Some worker\<rparr>"
  have r_eq: "r0 = r" using run_unique [OF assms(1) r0(1) inst(1)] inst(2) c by simp
  have runs1: "runs s1 = map (\<lambda>x. if x = r then claim_run now worker (now + vt * 1000000) r else x) (runs s)"
    unfolding s1 using update_by_id_row [OF assms(1) inst(1)] by (simp add: r_eq)
  have wf1: "wf_db s1" using keeps_run [OF keeps_poll assms(1) poll] .
  have t1: "t \<in> set (runs s1)" using assms(2) not_self c r_eq unfolding runs1 by auto
  have claim: "wr_run_id (claim_run now worker u x) = wr_run_id x"
    "wr_external_id (claim_run now worker u x) = wr_external_id x"
    "wr_schedule_id (claim_run now worker u x) = wr_schedule_id x"
    "wr_available_at (claim_run now worker u x) = Some u" for u x
    by (simp_all add: claim_run_def)
  have "run_ids s1 = run_ids s" by (simp add: s1 map_sql_update claim)
  then have ids: "i \<notin> set (run_ids s1)" using fresh(1) by simp
  have act: "is_active r"
    using r0(2) by (auto simp: r_eq claimable_def claimable_text_def is_active_def active_text_def)
  have ext: "wr_external_id x \<noteq> ''schedule-instance-'' @ su i" if "x \<in> set (runs s1)" "is_active x" for x
    using that fresh(2) act inst(1) unfolding runs1 by (auto simp: claim split: if_splits)
  have "\<not> (wr_schedule_id x = Some (wr_run_id t) \<and> wr_available_at x = Some fire)"
    if "x \<in> set (runs s1)" for x
  proof
    assume x: "wr_schedule_id x = Some (wr_run_id t) \<and> wr_available_at x = Some fire"
    have "x \<noteq> claim_run now worker (now + vt * 1000000) r" using x moved by (auto simp: claim)
    with that have x2: "x \<in> set (runs s)" "x \<noteq> r" unfolding runs1 by (auto split: if_splits)
    have "inj_on firing_key (set (filter is_firing (runs s)))"
      using assms(1) by (auto simp: wf_db_def runs_violation_None distinct_map)
    then show False using x x2 inst by (auto simp: inj_on_def firing_key_def is_firing_def)
  qed
  then have "\<not> list_ex (\<lambda>r. wr_schedule_id r = Some (wr_run_id t) \<and> wr_available_at r = Some fire) (runs s1)"
    by (simp add: list_ex_iff)
  moreover have "List.find (\<lambda>p. pl_run_id p = wr_run_id t) (payloads s1) = Some p"
    using pay by (simp add: s1)
  ultimately show ?thesis using create_instance_run [OF wf1 t1 ids] ext by simp
qed

abbreviation demo_fired :: db where
  "demo_fired \<equiv> snd (wf_create_schedule_instance demo_show 250 31 4 200 demo_db)"

lemma claimed_firing_fires_again_witness:
  "fst (wf_create_schedule_instance demo_show 400 32 (wr_run_id demo_template) 200
     (snd (wf_poll_workflow no_locks 300 ''default'' ''q'' ''w2'' [''Report''] 30 demo_fired)))
   = Inr (Some 32)"
proof (rule claimed_firing_fires_again)
  show "wf_db demo_fired" by (rule keepsD [OF keeps_instance demo_wf])
  show "demo_template \<in> set (runs demo_fired)" by code_simp
  show "wf_poll_workflow no_locks 300 ''default'' ''q'' ''w2'' [''Report''] 30 demo_fired
    = (Inr (Some \<lparr>cl_run_id = 31, cl_workflow_type = ''Report'', cl_input = [1, 2, 3], cl_locked_by = Some ''w2''\<rparr>),
       snd (wf_poll_workflow no_locks 300 ''default'' ''q'' ''w2'' [''Report''] 30 demo_fired))"
    by code_simp
  show "instance_run demo_show 250 31 200 demo_template \<in> set (runs demo_fired)" by code_simp
  show "List.find (\<lambda>p. pl_run_id p = wr_run_id demo_template) (payloads demo_fired) = Some (demo_payload 4)"
    by code_simp
qed code_simp+

subsection \<open>Heartbeats and deletion\<close>

text \<open>A heartbeat adds the extension to the current end of the lease of every run the worker holds
  (or to the clock, when that is later); it does not set the lease to "now plus extension", so leases
  grow by the full extension with each heartbeat, however soon it comes.\<close>

theorem extend_adds_to_lease:
  assumes "wf_db s"
    and "\<forall>r\<in>set (runs s). locked_by_worker w r \<longrightarrow> wr_schedule_id r = None
           \<and> pg_ts_add (extended_from now r) (ext * 1000000) \<noteq> None"
  shows "wf_extend_visibility now w ext s =
     (Inr (sql_count (locked_by_worker w) (runs s)),
      s\<lparr>runs := map (\<lambda>r. if locked_by_worker w r
           then r\<lparr>wr_available_at := Some ((case wr_available_at r of None \<Rightarrow> now | Some t \<Rightarrow> max t now)
                                          + ext * 1000000)\<rparr> else r) (runs s)\<rparr>)"
proof -
  have "update_runs (locked_by_worker w)
          (\<lambda>r. r\<lparr>wr_available_at := Some (extended_from now r + ext * 1000000)\<rparr>) s
      = (Inr (), s\<lparr>runs := sql_update (locked_by_worker w)
          (\<lambda>r. r\<lparr>wr_available_at := Some (extended_from now r + ext * 1000000)\<rparr>) (runs s)\<rparr>)"
    using assms
    by (intro update_runs_narrow) (auto simp: narrows_def chk_available_at_def is_active_def)
  moreover have "\<not> list_ex (\<lambda>r. locked_by_worker w r
      \<and> pg_ts_add (extended_from now r) (ext * 1000000) = None) (runs s)"
    using assms(2) by (auto simp: list_ex_iff)
  ultimately show ?thesis
    by (simp add: wf_extend_visibility_def update_runs_count_def bind_op_def sql_update_def
        extended_from_def)
qed

text \<open>Two heartbeats within a second: the lease of 30 seconds ends after 60.\<close>

lemma extend_adds_to_lease_witness:
  "map wr_available_at (filter (locked_by_worker ''w1'')
     (runs (snd (wf_extend_visibility 1001000 ''w1'' 30 (snd (wf_extend_visibility 1000000 ''w1'' 30 demo_db))))))
   = [Some (1000000 + 30 * 1000000 + 30 * 1000000)]"
proof -
  let ?s = "snd (wf_extend_visibility 1000000 ''w1'' 30 demo_db)"
  have wf: "wf_db ?s" by (rule keepsD [OF keeps_extend demo_wf])
  have "list_all (\<lambda>r. \<not> locked_by_worker ''w1'' r \<or> wr_schedule_id r = None
           \<and> pg_ts_add (extended_from 1001000 r) (30 * 1000000) \<noteq> None) (runs ?s)"
    by code_simp
  then have "\<forall>r\<in>set (runs ?s). locked_by_worker ''w1'' r \<longrightarrow> wr_schedule_id r = None
           \<and> pg_ts_add (extended_from 1001000 r) (30 * 1000000) \<noteq> None"
    by (auto simp: list_all_iff)
  note extend_adds_to_lease [OF wf this]
  then show ?thesis by simp code_simp
qed

text \<open>Deleting a run that has recorded steps fails, but not without effect: the payload, deleted by a
  statement of its own, is gone, and the run stays behind without its input.\<close>

theorem failed_delete_loses_payload:
  assumes "\<exists>r\<in>set (runs s). wr_run_id r = i" and "\<exists>x\<in>set (steps s). sr_run_id x = i"
  shows "wf_delete i s = (Inl (InvalidArgument (PgText ''step_runs_run_id_fkey'')),
           s\<lparr>payloads := filter (\<lambda>p. pl_run_id p \<noteq> i) (payloads s)\<rparr>)"
  using assms by (auto simp: wf_delete_def bind_op_def delete_payload_def delete_run_def list_ex_iff)

definition demo_step :: step_row where
  "demo_step = \<lparr>sr_attempt_id = 50, sr_run_id = 2, sr_step_id = ''charge'', sr_namespace = ''default'',
     sr_step_kind = show_step_kind SkFunction, sr_attempt_number = 1,
     sr_status = show_step_status SsRunning, sr_input = None, sr_output = None, sr_error = None,
     sr_child_workflow_run_id = None, sr_created_at = 70, sr_started_at = Some 70,
     sr_finished_at = None, sr_retry_policy = None, sr_is_latest = True\<rparr>"

lemma failed_delete_loses_payload_witness:
  "wf_delete 2 (demo_db\<lparr>steps := [demo_step]\<rparr>) = (Inl (InvalidArgument (PgText ''step_runs_run_id_fkey'')),
     demo_db\<lparr>steps := [demo_step], payloads := map demo_payload [1, 3, 4]\<rparr>)"
proof -
  have "wf_delete 2 (demo_db\<lparr>steps := [demo_step]\<rparr>)
    = (Inl (InvalidArgument (PgText ''step_runs_run_id_fkey'')),
       demo_db\<lparr>steps := [demo_step],
         payloads := filter (\<lambda>p. pl_run_id p \<noteq> 2) (payloads (demo_db\<lparr>steps := [demo_step]\<rparr>))\<rparr>)"
    using failed_delete_loses_payload [of "demo_db\<lparr>steps := [demo_step]\<rparr>" 2]
    by (simp add: demo_defs demo_step_def)
  then show ?thesis by (simp add: demo_db_def demo_payload_def)
qed

end
