(* ===== verification/Frames.thy ===== *)
theory Frames
  imports NamespaceStore WorkerStore StepStore WorkflowStore
begin

text \<open>
  What the methods of a repository leave alone: each writes the tables of its own. A property of the database that
  does not depend on these tables is kept by every method, whatever it does and answers.
\<close>

subsection \<open>Runs and payloads\<close>

locale runs_frame =
  fixes I :: "db \<Rightarrow> bool"
  assumes runs: "I s \<Longrightarrow> I (s\<lparr>runs := x\<rparr>)" and payloads: "I s \<Longrightarrow> I (s\<lparr>payloads := y\<rparr>)"
begin

lemma put_runs [keeps_rules]: "keeps I (put_runs rs)"
  by (auto simp: keeps_def put_runs_def runs split: option.splits)

lemma update_runs [keeps_rules]: "keeps I (update_runs P f)"
  using put_runs by (simp add: keeps_def update_runs_def)

lemma insert_run [keeps_rules]: "keeps I (insert_run r)"
  using put_runs by (simp add: keeps_def insert_run_def)

lemma payload_statements [keeps_rules]:
  "keeps I (insert_payload p)" "keeps I (set_output i out)" "keeps I (delete_payload i)"
  by (auto simp: keeps_def insert_payload_def set_output_def delete_payload_def payloads split: option.splits)

lemma delete_run [keeps_rules]: "keeps I (delete_run i)"
  by (auto simp: keeps_def delete_run_def intro!: payloads [OF runs, unfolded db.simps] payloads runs)

lemma update_runs_count [keeps_rules]: "keeps I (update_runs_count P f)"
  using update_runs [of P f] by (auto simp: keeps_def update_runs_count_def bind_op_def split: prod.splits sum.splits)

lemma create_all [keeps_rules]: "keeps I (create_all cfg now ps)"
proof (induction ps)
  case Nil
  show ?case unfolding create_all.simps by (rule keeps_rules)
next
  case (Cons p ps)
  then show ?case unfolding create_all.simps insert_workflow_def by (intro keeps_rules)
qed

lemma set_failed_tx [keeps_rules]: "keeps I (set_failed_tx now i err)"
  using update_runs [of "running_row i" "set_failed now err"]
  by (auto simp: keeps_def set_failed_tx_def bind_op_def split: prod.splits sum.splits)

lemma park_run [keeps_rules]: "keeps I (park_run now i st us)"
  using update_runs by (auto simp: keeps_def park_run_def split: option.splits)

lemma poll_workflow [keeps_rules]: "keeps I (wf_poll_workflow locked now ns q w types vt)"
proof (rule keepsI)
  fix s assume s: "I s"
  have "I s'" if "update_runs P f s = (r, s')" for P f r s'
    using keepsD [OF update_runs s, of P f] that by simp
  then show "I (snd (wf_poll_workflow locked now ns q w types vt s))"
    using s by (auto simp: wf_poll_workflow_def split: list.splits option.splits prod.splits sum.splits)
qed

lemma schedule_instance [keeps_rules]: "keeps I (wf_create_schedule_instance su now new_id i t)"
proof (rule keepsI)
  fix s assume s: "I s"
  have "keeps I (transact (bind_op (insert_run r) (\<lambda>_. ret_op (None :: uuid option))))"
    "keeps I (transact (bind_op (insert_run r) (\<lambda>_. bind_op (insert_payload q) (\<lambda>_. ret_op (Some new_id)))))"
    for r q
    by (intro keeps_rules)+
  note this [THEN keepsD, OF s]
  then show "I (snd (wf_create_schedule_instance su now new_id i t s))"
    using s by (simp add: wf_create_schedule_instance_def split: option.splits)
qed

lemma workflow_methods:
  "keeps I (wf_create cfg now p)" "keeps I (wf_create_batch cfg now ps)" "keeps I (wf_cancel now i ns)"
  "keeps I (wf_complete cfg now i out)" "keeps I (wf_fail now i err)" "keeps I (wf_mark_exhausted now i err)"
  "keeps I (wf_schedule_sleep now i n)" "keeps I (wf_schedule_retry now i n)" "keeps I (wf_update_next_fire i t l)"
  "keeps I (wf_update i w)" "keeps I (wf_delete i)"
  unfolding wf_create_def wf_create_batch_def insert_workflow_def wf_cancel_def wf_complete_def wf_fail_def
    wf_mark_exhausted_def wf_schedule_sleep_def wf_schedule_retry_def wf_update_next_fire_def wf_update_def
    wf_delete_def
  by (intro keeps_rules)+

lemma guarded_updates:
  "keeps I (wf_mark_exhausted_with_increment now i err)" "keeps I (wf_extend_visibility now w n)"
  using update_runs update_runs_count by (simp_all add: keeps_def wf_mark_exhausted_with_increment_def wf_extend_visibility_def)

lemmas run_methods = workflow_methods guarded_updates poll_workflow schedule_instance

end

subsection \<open>Workers\<close>

locale workers_frame =
  fixes I :: "db \<Rightarrow> bool"
  assumes workers: "I s \<Longrightarrow> I (s\<lparr>workers := x\<rparr>)"
begin

lemma put_workers [keeps_rules]: "keeps I (put_workers ks)"
  by (auto simp: keeps_def put_workers_def workers split: option.splits)

lemma update_workers [keeps_rules]: "keeps I (update_workers P f)"
  using put_workers by (simp add: keeps_def update_workers_def)

lemma update_workers_count [keeps_rules]: "keeps I (update_workers_count P f)"
  using update_workers [of P f]
  by (auto simp: keeps_def update_workers_count_def bind_op_def split: prod.splits sum.splits)

lemma register: "keeps I (wk_register now i p)"
proof -
  have "keeps I (bind_op (update_workers P f) (\<lambda>_. ret_op k))" "keeps I (bind_op (put_workers ks) (\<lambda>_. ret_op k))"
    for P f ks and k :: uuid
    by (intro keeps_rules)+
  then show ?thesis unfolding wk_register_def by (auto simp: keeps_def split: option.splits)
qed

lemma worker_updates:
  "keeps I (wk_heartbeat now k)" "keeps I (wk_start_drain k ns)" "keeps I (wk_deregister now k ns)"
  "keeps I (wk_mark_stale_offline now n)"
  unfolding wk_heartbeat_def wk_start_drain_def wk_deregister_def wk_mark_stale_offline_def by (intro keeps_rules)+

lemmas worker_methods = register worker_updates

end

subsection \<open>Namespaces\<close>

locale namespaces_frame =
  fixes I :: "db \<Rightarrow> bool"
  assumes namespaces: "I s \<Longrightarrow> I (s\<lparr>namespaces := x\<rparr>)"
begin

lemma namespace_statements [keeps_rules]:
  "keeps I (insert_namespace n)" "keeps I (update_namespaces ns f)" "keeps I (np_set_enabled b now ns)"
  by (auto simp: keeps_def insert_namespace_def update_namespaces_def np_set_enabled_def namespaces split: option.splits)

lemma namespace_methods:
  "keeps I (np_create now i cp)" "keeps I (np_get_or_create now i ns)" "keeps I (np_update now ns up)"
  "keeps I (np_enable now ns)" "keeps I (np_disable now ns)"
proof -
  have "keeps I (bind_op (update_namespaces ns f) (\<lambda>_. ret_op n))"
    "keeps I (bind_op (map_err_op store_error_from (insert_namespace m)) (\<lambda>_. ret_op n))"
    for f m and n :: namespace_row
    by (intro keeps_rules)+
  then have "keeps I (upsert_namespace now i ns)"
    by (auto simp: keeps_def upsert_namespace_def split: option.splits)
  then show "keeps I (np_get_or_create now i ns)"
    unfolding np_get_or_create_def by (intro keeps_rules)
  show "keeps I (np_create now i cp)" "keeps I (np_enable now ns)" "keeps I (np_disable now ns)"
    unfolding np_create_def np_enable_def np_disable_def Let_def by (intro keeps_rules)+
  show "keeps I (np_update now ns up)"
    unfolding np_update_def by (auto split: option.splits intro!: keeps_rules)
qed

end

subsection \<open>Steps\<close>

locale steps_frame =
  fixes I :: "db \<Rightarrow> bool"
  assumes steps: "I s \<Longrightarrow> I (s\<lparr>steps := x\<rparr>)"
begin

lemma put_steps [keeps_rules]: "keeps I (put_steps rs)"
  by (auto simp: keeps_def put_steps_def steps split: option.splits)

lemma update_steps [keeps_rules]: "keeps I (update_steps P f)"
  using put_steps by (simp add: keeps_def update_steps_def)

lemma update_steps_count [keeps_rules]: "keeps I (update_steps_count P f)"
  using update_steps [of P f]
  by (auto simp: keeps_def update_steps_count_def bind_op_def split: prod.splits sum.splits)

lemma insert_step_row [keeps_rules]: "keeps I (insert_step_row r)"
  using put_steps by (auto simp: keeps_def insert_step_row_def split: option.splits)

lemma step_methods:
  "keeps I (st_begin cfg now i p)" "keeps I (st_complete cfg now i run k out)" "keeps I (st_fail bo now i fp)"
  "keeps I (st_complete_pending_sleeps now run)" "keeps I (st_record_lifecycle_event cfg now i run kind lout)"
  unfolding st_begin_def st_complete_def st_fail_def fail_permanently_def st_complete_pending_sleeps_def
    st_record_lifecycle_event_def insert_step_result_def clear_latest_def Let_def
  by (intro keeps_rules)+

end

end
