(* ===== verification/StoreSteps.thy ===== *)
theory StoreSteps
  imports Lifecycle Frames
begin

text \<open>
  One step of the database is one call of a method of a repository, with any arguments, by whatever
  connection: each method is one transaction, so the calls of requests that run at the same time are steps of
  one sequence. The relation \<open>store_step\<close> collects the methods that write, except \<open>update\<close> and \<open>delete\<close>
  of the workflow repository, with which the schedule service edits rows without looking at their status.
\<close>

subsection \<open>Calls that leave the runs alone\<close>

interpretation steps_beside_runs: steps_frame "\<lambda>s. runs s = R"
  by unfold_locales simp

interpretation workers_beside_runs: workers_frame "\<lambda>s. runs s = R"
  by unfold_locales simp

interpretation namespaces_beside_runs: namespaces_frame "\<lambda>s. runs s = R"
  by unfold_locales simp

lemmas same_runs_steps = steps_beside_runs.step_methods
lemmas same_runs_workers = workers_beside_runs.worker_methods
lemmas same_runs_watchdog = workers_beside_runs.worker_updates(4)
lemmas same_runs_namespaces = namespaces_beside_runs.namespace_methods

subsection \<open>One call\<close>

inductive store_step :: "store_config \<Rightarrow> db \<Rightarrow> db \<Rightarrow> bool" for cfg :: store_config where
  drives: "lifecycle_step cfg s s' \<Longrightarrow> store_step cfg s s'"
| begins: "store_step cfg s (snd (st_begin cfg now i bp s))"
| completes: "store_step cfg s (snd (st_complete cfg now i run k out s))"
| fails: "store_step cfg s (snd (st_fail bo now i fp s))"
| ends_sleeps: "store_step cfg s (snd (st_complete_pending_sleeps now run s))"
| records: "store_step cfg s (snd (st_record_lifecycle_event cfg now i run kind lout s))"
| registers: "store_step cfg s (snd (wk_register now i rp s))"
| beats: "store_step cfg s (snd (wk_heartbeat now wk s))"
| drains: "store_step cfg s (snd (wk_start_drain wk ns s))"
| deregisters: "store_step cfg s (snd (wk_deregister now wk ns s))"
| marks_stale: "store_step cfg s (snd (wk_mark_stale_offline now n s))"
| creates_namespace: "store_step cfg s (snd (np_create now i cp s))"
| finds_namespace: "store_step cfg s (snd (np_get_or_create now i ns s))"
| updates_namespace: "store_step cfg s (snd (np_update now ns up s))"
| enables_namespace: "store_step cfg s (snd (np_enable now ns s))"
| disables_namespace: "store_step cfg s (snd (np_disable now ns s))"

lemma store_step_runs:
  assumes "store_step cfg s s'"
  shows "lifecycle_step cfg s s' \<or> runs s' = runs s"
  using assms
proof (cases rule: store_step.cases)
  case drives
  then show ?thesis by simp
qed (simp_all only:, (rule disjI2, rule keepsD [where I = "\<lambda>x. runs x = runs s"],
    rule same_runs_steps same_runs_workers same_runs_namespaces, rule refl)+)

lemma store_step_wf:
  assumes "store_step cfg s s'" and "wf_db s"
  shows "wf_db s'"
  using assms
proof (cases rule: store_step.cases)
  case drives
  then show ?thesis using assms(2) by (rule lifecycle_step_wf)
qed (simp_all only:, (rule keepsD [of wf_db], rule keeps_rules, assumption)+)

lemma store_step_lawful:
  assumes "store_step cfg s s'" and "db_ok s"
  shows "db_ok s' \<and> history s s'"
  using store_step_runs [OF assms(1)]
proof
  assume "lifecycle_step cfg s s'"
  then show ?thesis using lifecycle.step_inv lifecycle.step_rel assms(2) by blast
next
  assume same: "runs s' = runs s"
  have "wf_db s'" using assms store_step_wf by (simp add: db_ok_def)
  then show ?thesis using assms(2) same evolves_history [OF evolves_same_runs [OF same]] by (simp add: db_ok_def)
qed

interpretation store: governed_steps "store_step cfg" db_ok history
  by unfold_locales (auto simp: history_refl intro: history_trans dest: store_step_lawful)

subsection \<open>Chains of calls\<close>

text \<open>An operation is a chain of calls if it keeps everything reachable by calls: it can be cut between them.\<close>

lemma chain_call: "(\<And>s. store_step cfg s (snd (m s))) \<Longrightarrow> keeps ((store_step cfg)\<^sup>*\<^sup>* s0) m"
  by (auto simp: keeps_def intro: rtranclp.rtrancl_into_rtrancl)

lemma chain_runs [keeps_rules]:
  "keeps ((store_step cfg)\<^sup>*\<^sup>* s0) (wf_create cfg now p)"
  "keeps ((store_step cfg)\<^sup>*\<^sup>* s0) (wf_poll_workflow locked now ns q w types vt)"
  "keeps ((store_step cfg)\<^sup>*\<^sup>* s0) (wf_extend_visibility now w n)"
  "keeps ((store_step cfg)\<^sup>*\<^sup>* s0) (wf_schedule_sleep now i n)"
  "keeps ((store_step cfg)\<^sup>*\<^sup>* s0) (wf_schedule_retry now i n)"
  "keeps ((store_step cfg)\<^sup>*\<^sup>* s0) (wf_complete cfg now i out)"
  "keeps ((store_step cfg)\<^sup>*\<^sup>* s0) (wf_fail now i err)"
  "keeps ((store_step cfg)\<^sup>*\<^sup>* s0) (wf_cancel now i ns)"
  by (rule chain_call, rule drives, rule lifecycle_step.intros)+

lemma chain_others [keeps_rules]:
  "keeps ((store_step cfg)\<^sup>*\<^sup>* s0) (st_begin cfg now i bp)"
  "keeps ((store_step cfg)\<^sup>*\<^sup>* s0) (st_complete cfg now i run k out)"
  "keeps ((store_step cfg)\<^sup>*\<^sup>* s0) (st_fail bo now i fp)"
  "keeps ((store_step cfg)\<^sup>*\<^sup>* s0) (st_complete_pending_sleeps now run)"
  "keeps ((store_step cfg)\<^sup>*\<^sup>* s0) (st_record_lifecycle_event cfg now i run kind lout)"
  "keeps ((store_step cfg)\<^sup>*\<^sup>* s0) (wk_register now i rp)"
  "keeps ((store_step cfg)\<^sup>*\<^sup>* s0) (wk_heartbeat now wk)"
  "keeps ((store_step cfg)\<^sup>*\<^sup>* s0) (wk_start_drain wk ns)"
  "keeps ((store_step cfg)\<^sup>*\<^sup>* s0) (wk_deregister now wk ns)"
  "keeps ((store_step cfg)\<^sup>*\<^sup>* s0) (wk_mark_stale_offline now n)"
  "keeps ((store_step cfg)\<^sup>*\<^sup>* s0) (np_create now i cp)"
  "keeps ((store_step cfg)\<^sup>*\<^sup>* s0) (np_get_or_create now i ns)"
  "keeps ((store_step cfg)\<^sup>*\<^sup>* s0) (np_update now ns up)"
  "keeps ((store_step cfg)\<^sup>*\<^sup>* s0) (np_enable now ns)"
  "keeps ((store_step cfg)\<^sup>*\<^sup>* s0) (np_disable now ns)"
  by (rule chain_call, rule store_step.intros(2-))+

end
