(* ===== verification/CoordinatorCorrect.thy ===== *)
theory CoordinatorCorrect
  imports Coordinator WorkflowCorrect StoreSteps
begin

text \<open>
  What a tick of the coordinator does to the schedules: it fires a due occurrence once and moves on,
  limits the catch-up, and only makes calls that the lifecycle allows.
\<close>

definition moved_template :: "timestamp \<Rightarrow> timestamp \<Rightarrow> run_row \<Rightarrow> run_row" where
  "moved_template t l r = r\<lparr>wr_available_at := Some t, wr_last_fired_at := Some l\<rparr>"

lemma next_fire_run:
  assumes "wf_db s" and "r \<in> set (runs s)" and "wr_schedule_id r = None"
  shows "wf_update_next_fire (wr_run_id r) t (Some l) s
       = (Inr (), s\<lparr>runs := map (\<lambda>x. if x = r then moved_template t l r else x) (runs s)\<rparr>)"
proof -
  have "x = r" if "x \<in> set (runs s)" "wr_run_id x = wr_run_id r" for x
    using run_unique [OF assms(1) that(1) assms(2) that(2)] .
  then have "update_runs (\<lambda>x. wr_run_id x = wr_run_id r) (moved_template t l) s
      = (Inr (), s\<lparr>runs := sql_update (\<lambda>x. wr_run_id x = wr_run_id r) (moved_template t l) (runs s)\<rparr>)"
    using assms(3) by (intro update_runs_narrow [OF assms(1)])
      (auto simp: narrows_def moved_template_def chk_available_at_def is_active_def)
  then show ?thesis
    unfolding update_by_id_row [OF assms(1,2)] by (simp add: wf_update_next_fire_def moved_template_def [abs_def])
qed

lemma next_later: "cron_ok nxt \<Longrightarrow> t \<le> now \<Longrightarrow> t < next_or_year nxt now t"
  by (auto simp: next_or_year_def cron_ok_def split: option.split)

text \<open>C13: A due schedule within its catch-up limit fires exactly once: one PENDING instance for the time it
  was due (none if that slot already has a run), and the template moves on to a strictly later time,
  remembering the one it fired. Nothing else changes.\<close>

theorem due_schedule_fires_once:
  assumes "wf_db s" and "r \<in> set (runs s)" and "run_into_model (r, p) = Inr w"
    and "wr_schedule_id r = None" and "wr_available_at r = Some due" and "due \<le> now"
    and "wr_cron_expr r = Some e" and "parse e = Some nxt" and "cron_ok nxt"
    and "wr_max_catchup r \<noteq> 0"
    and "int (length (occurrences nxt now (catchup_cursor w due))) \<le> as_u64 (wr_max_catchup r)"
    and "i \<notin> set (run_ids s)"
    and "\<forall>x\<in>set (runs s). is_active x \<longrightarrow> wr_external_id x \<noteq> ''schedule-instance-'' @ su i"
    and "List.find (\<lambda>q. pl_run_id q = wr_run_id r) (payloads s) = Some q"
  shows "\<exists>t. due < t \<and> fire_template su parse now db_now i True w s = (Inr (),
     let moved = map (\<lambda>x. if x = r then moved_template t due r else x) (runs s)
     in if list_ex (\<lambda>x. wr_schedule_id x = Some (wr_run_id r) \<and> wr_available_at x = Some due) (runs s)
        then s\<lparr>runs := moved\<rparr>
        else s\<lparr>runs := moved @ [instance_run su db_now i due r],
               payloads := payloads s @ [\<lparr>pl_run_id = i, pl_input = pl_input q, pl_output = None\<rparr>]\<rparr>)"
proof (intro exI conjI)
  let ?t = "next_or_year nxt now due"
  show "due < ?t" using assms by (intro next_later)
  note inst = create_instance_run [of s r i su q db_now due, OF assms(1,2,12,13,14)]
  have fire: "fire_template su parse now db_now i True w
      = bind_op (wf_create_schedule_instance su db_now i (wr_run_id r) due) (\<lambda>_.
          wf_update_next_fire (wr_run_id r) ?t (Some due))"
    using assms(5,7,8,10,11) by (simp add: fire_template_def model_fields [OF assms(3)] Let_def nat_less_iff)
  have ne: "instance_run su db_now i due r \<noteq> r" using assms(2,12) by (metis image_eqI list.set_map instance_row_simps(1))
  let ?busy = "list_ex (\<lambda>x. wr_schedule_id x = Some (wr_run_id r) \<and> wr_available_at x = Some due) (runs s)"
  show "fire_template su parse now db_now i True w s = (Inr (),
     let moved = map (\<lambda>x. if x = r then moved_template ?t due r else x) (runs s)
     in if ?busy then s\<lparr>runs := moved\<rparr>
        else s\<lparr>runs := moved @ [instance_run su db_now i due r],
               payloads := payloads s @ [\<lparr>pl_run_id = i, pl_input = pl_input q, pl_output = None\<rparr>]\<rparr>)"
  proof (cases ?busy)
    case True
    then show ?thesis unfolding fire by (simp add: inst bind_op_def next_fire_run [OF assms(1,2,4)])
  next
    case False
    let ?s1 = "s\<lparr>runs := runs s @ [instance_run su db_now i due r],
        payloads := payloads s @ [\<lparr>pl_run_id = i, pl_input = pl_input q, pl_output = None\<rparr>]\<rparr>"
    have made: "wf_create_schedule_instance su db_now i (wr_run_id r) due s = (Inr (Some i), ?s1)"
      using inst False by simp
    have "wf_db ?s1" by (rule keeps_run [OF keeps_instance assms(1) made])
    then show ?thesis
      using False next_fire_run [of ?s1 r ?t due] assms(2,4) ne unfolding fire
      by (simp add: made bind_op_def)
  qed
qed

definition demo_cron :: cron_schedule where
  "demo_cron t = Some ((t div 100 + 1) * 100)"

definition demo_parse :: "string \<Rightarrow> cron_schedule option" where
  "demo_parse e = (if e = ''0 0 0 * * *'' then Some demo_cron else None)"

lemma demo_parse: "demo_parse ''0 0 0 * * *'' = Some demo_cron"
  by (simp add: demo_parse_def)

lemma demo_cron_ok: "cron_ok demo_cron"
proof -
  have "t < (t div 100 + 1) * 100" for t :: int by presburger
  then show ?thesis by (simp add: cron_ok_def demo_cron_def)
qed

definition demo_template_model :: workflow_run where
  "demo_template_model = (case run_into_model (demo_template, demo_payload 4) of
     Inr w \<Rightarrow> w | Inl e \<Rightarrow> undefined)"

lemma demo_template_model: "run_into_model (demo_template, demo_payload 4) = Inr demo_template_model"
  by (simp add: demo_template_model_def demo_template_def run_into_model_def)

lemma demo_template_in: "demo_template \<in> set (runs demo_db)"
  by (simp add: demo_db_def)

lemma due_schedule_fires_once_witness:
  "\<exists>t. 200 < t \<and> fire_template demo_show demo_parse 250 260 31 True demo_template_model demo_db = (Inr (),
     let moved = map (\<lambda>x. if x = demo_template then moved_template t 200 demo_template else x) (runs demo_db)
     in if list_ex (\<lambda>x. wr_schedule_id x = Some (wr_run_id demo_template) \<and> wr_available_at x = Some 200)
             (runs demo_db)
        then demo_db\<lparr>runs := moved\<rparr>
        else demo_db\<lparr>runs := moved @ [instance_run demo_show 260 31 200 demo_template],
               payloads := payloads demo_db @ [\<lparr>pl_run_id = 31, pl_input = pl_input (demo_payload 4),
                  pl_output = None\<rparr>]\<rparr>)"
proof (rule due_schedule_fires_once [OF demo_wf demo_template_in demo_template_model, where e = "''0 0 0 * * *''"
      and nxt = demo_cron])
  show "int (length (occurrences demo_cron 250 (catchup_cursor demo_template_model 200)))
      \<le> as_u64 (wr_max_catchup demo_template)" by code_simp
qed (rule demo_cron_ok demo_parse | code_simp)+

subsection \<open>The catch-up limit\<close>

lemma skip_run:
  assumes "wf_db s" and "r \<in> set (runs s)" and "run_into_model (r, p) = Inr w"
    and "wr_schedule_id r = None" and "wr_available_at r = Some due"
    and "wr_cron_expr r = Some e" and "parse e = Some nxt"
    and "0 < wr_max_catchup r" and "wr_max_catchup r < 2 ^ 31"
    and "occ = occurrences nxt now (catchup_cursor w due)"
    and "wr_max_catchup r < int (length occ)"
  shows "fire_template su parse now db_now i b w s = (Inr (), s\<lparr>runs := map (\<lambda>x. if x = r
       then moved_template (occ ! (length occ - nat (wr_max_catchup r))) now r else x) (runs s)\<rparr>)"
proof -
  have u: "as_u64 (wr_max_catchup r) = wr_max_catchup r" using assms(8,9) by (intro as_u64_id) auto
  have n: "cron_nth nxt (catchup_cursor w due) (length occ - nat (wr_max_catchup r))
      = Some (occ ! (length occ - nat (wr_max_catchup r)))"
    unfolding assms(10) using assms(8,10,11) by (intro cron_nth_occurrences) simp
  show ?thesis
    using assms(5,6,7,8,10,11) n
    by (simp add: fire_template_def model_fields [OF assms(3)] Let_def u nat_less_iff next_fire_run [OF assms(1,2,4)])
qed

text \<open>When more occurrences were missed than \<open>max_catchup\<close> allows, nothing is fired: the template is moved
  to one of the missed occurrences, from which on exactly \<open>max_catchup\<close> of them are left.\<close>

theorem skip_leaves_max_catchup:
  assumes "wf_db s" and "r \<in> set (runs s)" and "run_into_model (r, p) = Inr w"
    and "wr_schedule_id r = None" and "wr_available_at r = Some due"
    and "wr_cron_expr r = Some e" and "parse e = Some nxt"
    and "0 < wr_max_catchup r" and "wr_max_catchup r < 2 ^ 31"
    and "wr_max_catchup r < int (length (occurrences nxt now (catchup_cursor w due)))"
  shows "\<exists>t. fire_template su parse now db_now i b w s = (Inr (),
       s\<lparr>runs := map (\<lambda>x. if x = r then moved_template t now r else x) (runs s)\<rparr>)
     \<and> t \<in> set (occurrences nxt now (catchup_cursor w due))
     \<and> int (length (t # occurrences nxt now t)) = wr_max_catchup r"
proof -
  let ?occ = "occurrences nxt now (catchup_cursor w due)"
  let ?k = "length ?occ - nat (wr_max_catchup r)"
  have k: "?k < length ?occ" using assms(8,10) by simp
  have "int (length (?occ ! ?k # occurrences nxt now (?occ ! ?k))) = wr_max_catchup r"
    unfolding occurrences_from_nth [OF k] using assms(8,10) by simp
  then show ?thesis using skip_run [OF assms(1-4), of due e parse nxt ?occ now] assms(5-10) nth_mem [OF k] by blast
qed

definition demo_small :: run_row where
  "demo_small = demo_template\<lparr>wr_max_catchup := 2, wr_available_at := Some 500\<rparr>"

definition demo_small_db :: db where
  "demo_small_db = demo_db\<lparr>runs := [demo_waiting, demo_running, demo_done, demo_small]\<rparr>"

definition demo_small_model :: workflow_run where
  "demo_small_model = (case run_into_model (demo_small, demo_payload 4) of
     Inr w \<Rightarrow> w | Inl e \<Rightarrow> undefined)"

lemma demo_small_facts: "wf_db demo_small_db" "demo_small \<in> set (runs demo_small_db)"
  "run_into_model (demo_small, demo_payload 4) = Inr demo_small_model"
proof -
  show "wf_db demo_small_db" by code_simp
  show "demo_small \<in> set (runs demo_small_db)" by (simp add: demo_small_db_def)
  show "run_into_model (demo_small, demo_payload 4) = Inr demo_small_model"
    by (simp add: demo_small_model_def demo_small_def demo_template_def run_into_model_def)
qed

lemma skip_leaves_max_catchup_witness:
  "\<exists>t. fire_template demo_show demo_parse 520 530 31 True demo_small_model demo_small_db = (Inr (),
       demo_small_db\<lparr>runs := map (\<lambda>x. if x = demo_small then moved_template t 520 demo_small else x)
          (runs demo_small_db)\<rparr>)
     \<and> t \<in> set (occurrences demo_cron 520 (catchup_cursor demo_small_model 500))
     \<and> int (length (t # occurrences demo_cron 520 t)) = wr_max_catchup demo_small"
  by (rule skip_leaves_max_catchup [OF demo_small_facts, where e = "''0 0 0 * * *''" and nxt = demo_cron])
    (rule demo_parse | code_simp)+

text \<open>Skipping can move a schedule backwards: \<open>last_fired_at\<close> is not touched while a schedule is paused,
  so when it is due again after a long pause, the missed occurrences are counted from before the pause
  and the template is put back to one of them, earlier than the time it was due at, to be fired late.\<close>

theorem skip_can_rewind:
  assumes "wf_db s" and "r \<in> set (runs s)" and "run_into_model (r, p) = Inr w"
    and "wr_schedule_id r = None" and "wr_available_at r = Some due"
    and "wr_cron_expr r = Some e" and "parse e = Some nxt"
    and "0 < wr_max_catchup r" and "wr_max_catchup r < 2 ^ 31"
    and "occ = occurrences nxt now (catchup_cursor w due)"
    and "wr_max_catchup r < int (length occ)"
    and "j < length occ" and "occ ! j = due" and "length occ - nat (wr_max_catchup r) < j"
  shows "\<exists>t < due. fire_template su parse now db_now i b w s = (Inr (),
       s\<lparr>runs := map (\<lambda>x. if x = r then moved_template t now r else x) (runs s)\<rparr>)"
proof -
  have "occ ! (length occ - nat (wr_max_catchup r)) < occ ! j"
    using assms(12,14) occurrences_sorted [of nxt now "catchup_cursor w due"]
    unfolding assms(10) [symmetric]
    by (metis nth_eq_iff_index_eq order.strict_trans sorted_iff_nth_mono_less nless_le)
  then show ?thesis using skip_run [OF assms(1-4), of due e parse nxt occ now su db_now i b] assms(5-11,13) by auto
qed

lemma skip_can_rewind_witness:
  "\<exists>t < 500. fire_template demo_show demo_parse 520 530 31 True demo_small_model demo_small_db = (Inr (),
       demo_small_db\<lparr>runs := map (\<lambda>x. if x = demo_small then moved_template t 520 demo_small else x)
          (runs demo_small_db)\<rparr>)"
  by (rule skip_can_rewind [OF demo_small_facts, where e = "''0 0 0 * * *''" and nxt = demo_cron
        and j = 4 and occ = "occurrences demo_cron 520 (catchup_cursor demo_small_model 500)"])
    (rule demo_parse | code_simp)+

subsection \<open>A whole tick\<close>

text \<open>
  \<open>fire_template\<close> makes two kinds of calls for the template; a property of the database that both keep
  is kept by the loop.
\<close>

lemma keeps_fire_template_by:
  assumes "\<And>t l. keeps J (wf_update_next_fire (w_run_id w) t l)"
    and "\<And>t. w_max_catchup w \<noteq> 0 \<Longrightarrow> keeps J (wf_create_schedule_instance su db_now i (w_run_id w) t)"
  shows "keeps J (fire_template su parse now db_now i b w)"
proof (cases "w_max_catchup w = 0")
  case True
  then show ?thesis unfolding fire_template_def using assms(1)
    by (simp only: simp_thms if_True) (intro keeps_rules assms(1))
next
  case False
  show ?thesis unfolding fire_template_def Let_def using False by (intro keeps_rules assms)
qed

lemma keeps_fire_all_by:
  assumes "\<And>w t l. w \<in> set ws \<Longrightarrow> keeps J (wf_update_next_fire (w_run_id w) t l)"
    and "\<And>w t i db_now. w \<in> set ws \<Longrightarrow> w_max_catchup w \<noteq> 0
           \<Longrightarrow> keeps J (wf_create_schedule_instance su db_now i (w_run_id w) t)"
  shows "keeps J (fire_all su parse now t u allow ws)"
  using assms
proof (induction ws arbitrary: t u allow)
  case Nil
  show ?case unfolding fire_all.simps by (rule keeps_rules)
next
  case (Cons w ws)
  show ?case unfolding fire_all.simps
    by (intro keeps_rules keeps_fire_template_by Cons.IH) (simp_all add: Cons.prems)
qed

definition due_rows :: "string \<Rightarrow> timestamp \<Rightarrow> db \<Rightarrow> (run_row \<times> payload_row) list" where
  "due_rows ns now s = filter (\<lambda>(w, p). (ns = ''*'' \<or> wr_namespace w = ns)
     \<and> wr_status w = show_status WsScheduled
     \<and> (case wr_available_at w of None \<Rightarrow> False | Some t \<Rightarrow> t \<le> now)) (runs_with_payload s)"

lemma find_due_rows:
  assumes "wf_find_due_schedules ns now n s = (Inr ws, s')"
  obtains rows where "sql_limit n (order_by (<) (available_key \<circ> fst) (due_rows ns now s)) = Inr rows"
    and "collect_results (map run_into_model rows) = Inr ws" and "s' = s"
  using assms unfolding wf_find_due_schedules_def query_op_simp res_bind_def due_rows_def [symmetric]
  by (cases "sql_limit n (order_by (<) (available_key \<circ> fst) (due_rows ns now s))") simp_all

lemma due_templates:
  assumes "wf_find_due_schedules ns now n s = (Inr ws, s')"
  shows "s' = s \<and> (\<forall>w\<in>set ws. \<exists>r p. r \<in> set (runs s) \<and> run_into_model (r, p) = Inr w
     \<and> wr_status r = show_status WsScheduled)"
  using assms
proof (rule find_due_rows)
  fix rows assume lim: "sql_limit n (order_by (<) (available_key \<circ> fst) (due_rows ns now s)) = Inr rows"
    and ws: "collect_results (map run_into_model rows) = Inr ws" and s': "s' = s"
  have rows: "set rows \<subseteq> set (due_rows ns now s)" using sql_limit_Inr [OF lim] by simp
  have "\<exists>r p. r \<in> set (runs s) \<and> run_into_model (r, p) = Inr w \<and> wr_status r = show_status WsScheduled"
    if w: "w \<in> set ws" for w
  proof -
    obtain r p where "(r, p) \<in> set rows" "run_into_model (r, p) = Inr w"
      using collected [OF ws w] by (metis surj_pair)
    then show ?thesis using rows by (force simp: due_rows_def runs_with_payload_def)
  qed
  then show ?thesis using s' by blast
qed

lemma tick_keeps_by:
  assumes "J s"
    and "\<And>ws. wf_find_due_schedules ''*'' now (batch_size cs) s = (Inr ws, s)
           \<Longrightarrow> J (snd (fire_all su parse now t u allow ws s))"
    and "keeps J (wk_mark_stale_offline wnow (worker_stale_threshold_secs cs))"
  shows "J (snd (coordinator_tick su parse cs now t u allow wnow s))"
proof -
  have "J (snd (fire_due_schedules su parse cs now t u allow s))"
  proof (cases "wf_find_due_schedules ''*'' now (batch_size cs) s")
    case (Pair res s1)
    then have s1: "s1 = s" by (auto simp: wf_find_due_schedules_def)
    show ?thesis
    proof (cases res)
      case (Inl e)
      then show ?thesis using Pair s1 assms(1) by (simp add: fire_due_schedules_def)
    next
      case (Inr ws)
      then show ?thesis using Pair s1 assms(2) by (simp add: fire_due_schedules_def)
    qed
  qed
  moreover have "keeps J (mark_stale_workers wnow (worker_stale_threshold_secs cs))"
    unfolding mark_stale_workers_def by (intro keeps_rules assms(3))
  ultimately show ?thesis
    by (simp add: coordinator_tick_def bind_op_def ignore_op_def keepsD)
qed

lemma stale_same_runs: "runs (snd (wk_mark_stale_offline now n s)) = runs s"
  using keepsD [OF same_runs_watchdog, of s "runs s"] by simp

text \<open>The ids of the runs that belong to a schedule.\<close>

definition firings :: "uuid \<Rightarrow> db \<Rightarrow> uuid list" where
  "firings k s = map wr_run_id (filter (\<lambda>r. wr_schedule_id r = Some k) (runs s))"

definition no_catchup :: "uuid \<Rightarrow> db \<Rightarrow> bool" where
  "no_catchup k s \<longleftrightarrow> wf_db s \<and> k \<in> set (run_ids s)
     \<and> (\<forall>r\<in>set (runs s). wr_run_id r = k \<longrightarrow> wr_max_catchup r = 0)"

lemma next_fire_keeps_firings:
  "keeps (\<lambda>s. no_catchup k s \<and> firings k s = F) (wf_update_next_fire i t l)"
proof (rule keepsI)
  fix s assume s: "no_catchup k s \<and> firings k s = F"
  have wf: "wf_db (snd (wf_update_next_fire i t l s))" using s keepsD [OF keeps_next_fire] by (simp add: no_catchup_def)
  have "\<exists>P f. wf_update_next_fire i t l = update_runs P f \<and> (\<forall>r. wr_run_id (f r) = wr_run_id r
      \<and> wr_schedule_id (f r) = wr_schedule_id r \<and> wr_max_catchup (f r) = wr_max_catchup r)"
    unfolding wf_update_next_fire_def by (cases l) force+
  then obtain P f where u: "wf_update_next_fire i t l = update_runs P f" and
    f: "\<And>r. wr_run_id (f r) = wr_run_id r" "\<And>r. wr_schedule_id (f r) = wr_schedule_id r"
      "\<And>r. wr_max_catchup (f r) = wr_max_catchup r" by blast
  consider "snd (update_runs P f s) = s" | "snd (update_runs P f s) = s\<lparr>runs := sql_update P f (runs s)\<rparr>"
    by (cases "update_runs P f s"; cases "fst (update_runs P f s)") (auto dest: update_runs_Inl update_runs_Inr)
  then show "no_catchup k (snd (wf_update_next_fire i t l s)) \<and> firings k (snd (wf_update_next_fire i t l s)) = F"
  proof cases
    case 1
    then show ?thesis using s by (simp add: u)
  next
    case 2
    have "filter (\<lambda>r. wr_schedule_id r = Some k) (sql_update P f (runs s))
        = sql_update P f (filter (\<lambda>r. wr_schedule_id r = Some k) (runs s))"
      by (rule filter_sql_update) (simp add: f)
    then show ?thesis using s wf f unfolding u 2
      by (auto simp: no_catchup_def firings_def map_sql_update in_sql_update split: if_splits)
  qed
qed

lemma instance_snd:
  "\<exists>new. runs (snd (wf_create_schedule_instance su now new_id k t s)) = runs s @ new
     \<and> (\<forall>r\<in>set new. wr_schedule_id r = Some k \<and> wr_run_id r = new_id)"
proof (cases "List.find (\<lambda>r. wr_run_id r = k) (runs s)")
  case None
  then show ?thesis by (simp add: wf_create_schedule_instance_def)
next
  case (Some r)
  then have "wr_run_id r = k" using find_Some_in by fast
  then show ?thesis using Some
    by (auto simp: wf_create_schedule_instance_def transact_def bind_op_def insert_run_def put_runs_def
        insert_payload_def split: option.split prod.split sum.split)
qed

lemma instance_keeps_firings:
  assumes "k' \<noteq> k"
  shows "keeps (\<lambda>s. no_catchup k s \<and> firings k s = F) (wf_create_schedule_instance su now new_id k' t)"
proof (rule keepsI)
  fix s assume s: "no_catchup k s \<and> firings k s = F"
  let ?s' = "snd (wf_create_schedule_instance su now new_id k' t s)"
  obtain new where new: "runs ?s' = runs s @ new" "\<And>r. r \<in> set new \<Longrightarrow> wr_schedule_id r = Some k'"
    using instance_snd by metis
  have wf: "wf_db ?s'" using s keepsD [OF keeps_instance] by (simp add: no_catchup_def)
  then have "distinct (run_ids ?s')" by (simp add: wf_db_def runs_violation_None)
  then have "wr_run_id r \<noteq> k" if "r \<in> set new" for r
    using that s by (force simp: new(1) no_catchup_def)
  then show "no_catchup k ?s' \<and> firings k ?s' = F"
    using s wf new assms by (auto simp: no_catchup_def firings_def filter_empty_conv)
qed

inductive tick_step :: "(uuid \<Rightarrow> string) \<Rightarrow> (string \<Rightarrow> cron_schedule option) \<Rightarrow> coordinator_settings
    \<Rightarrow> db \<Rightarrow> db \<Rightarrow> bool" for su parse cs where
  one_tick: "tick_step su parse cs s (snd (coordinator_tick su parse cs now t u allow wnow s))"

lemma tick_keeps_firings:
  assumes "no_catchup k s"
  shows "no_catchup k (snd (coordinator_tick su parse cs now t u allow wnow s))
     \<and> firings k (snd (coordinator_tick su parse cs now t u allow wnow s)) = firings k s"
proof (rule tick_keeps_by)
  fix ws assume "wf_find_due_schedules ''*'' now (batch_size cs) s = (Inr ws, s)"
  note due = due_templates [OF this]
  have "w_run_id w \<noteq> k" if w: "w \<in> set ws" "w_max_catchup w \<noteq> 0" for w
  proof -
    obtain r p where "r \<in> set (runs s)" "run_into_model (r, p) = Inr w" using due w(1) by blast
    then show ?thesis using assms w(2) by (auto simp: no_catchup_def model_fields)
  qed
  then have "keeps (\<lambda>s'. no_catchup k s' \<and> firings k s' = firings k s) (fire_all su parse now t u allow ws)"
    by (intro keeps_fire_all_by next_fire_keeps_firings instance_keeps_firings)
  then show "no_catchup k (snd (fire_all su parse now t u allow ws s))
      \<and> firings k (snd (fire_all su parse now t u allow ws s)) = firings k s"
    using assms by (auto dest: keepsD [of _ _ s])
next
  show "keeps (\<lambda>s'. no_catchup k s' \<and> firings k s' = firings k s)
      (wk_mark_stale_offline wnow (worker_stale_threshold_secs cs))"
  proof (rule keepsI)
    fix s0 assume s0: "no_catchup k s0 \<and> firings k s0 = firings k s"
    then have "wf_db (snd (wk_mark_stale_offline wnow (worker_stale_threshold_secs cs) s0))"
      by (intro keepsD [OF keeps_worker_updates(4)]) (simp add: no_catchup_def)
    then show "no_catchup k (snd (wk_mark_stale_offline wnow (worker_stale_threshold_secs cs) s0))
        \<and> firings k (snd (wk_mark_stale_offline wnow (worker_stale_threshold_secs cs) s0)) = firings k s"
      using s0 by (simp add: no_catchup_def firings_def stale_same_runs)
  qed
qed (simp add: assms)

interpretation idle_schedule: governed_steps "tick_step su parse cs" "no_catchup k"
  "\<lambda>s s'. firings k s' = firings k s"
  by unfold_locales (auto elim!: tick_step.cases simp: tick_keeps_firings)

text \<open>A schedule with \<open>max_catchup = 0\<close> never fires: a template is only looked at once its time has come,
  and then the coordinator always takes the branch that skips to the next occurrence, also when the run is
  not late at all. However many ticks pass, not one run of that schedule is created.\<close>

theorem zero_catchup_never_fires:
  assumes "(tick_step su parse cs)\<^sup>*\<^sup>* s s'" and "wf_db s" and "r \<in> set (runs s)" and "wr_max_catchup r = 0"
  shows "firings (wr_run_id r) s' = firings (wr_run_id r) s"
proof -
  have "no_catchup (wr_run_id r) s"
    using assms(2-4) run_unique [OF assms(2) _ assms(3)] by (auto simp: no_catchup_def)
  then show ?thesis by (rule idle_schedule.run_rel [OF assms(1)])
qed

definition demo_idle :: run_row where
  "demo_idle = demo_template\<lparr>wr_max_catchup := 0\<rparr>"

definition demo_idle_db :: db where
  "demo_idle_db = demo_db\<lparr>runs := [demo_waiting, demo_idle]\<rparr>\<lparr>payloads := map demo_payload [1, 4]\<rparr>"

lemma zero_catchup_never_fires_witness:
  "firings 4 (snd (coordinator_tick demo_show demo_parse default_coordinator_settings 250 (\<lambda>_. 260) (\<lambda>_. 31)
     (\<lambda>_. True) 270 demo_idle_db)) = firings 4 demo_idle_db"
proof -
  have "wf_db demo_idle_db" by code_simp
  moreover have "demo_idle \<in> set (runs demo_idle_db)" by (simp add: demo_idle_db_def)
  ultimately show ?thesis
    using zero_catchup_never_fires [of demo_show demo_parse default_coordinator_settings demo_idle_db
        "snd (coordinator_tick demo_show demo_parse default_coordinator_settings 250 (\<lambda>_. 260) (\<lambda>_. 31)
           (\<lambda>_. True) 270 demo_idle_db)" demo_idle]
    by (simp add: demo_idle_def demo_template_def run_defaults_def one_tick r_into_rtranclp)
qed

text \<open>A tick is a chain of calls: the templates of the batch are SCHEDULED, and no call of the chain changes that.\<close>

definition batch_ok :: "store_config \<Rightarrow> db \<Rightarrow> workflow_run list \<Rightarrow> db \<Rightarrow> bool" where
  "batch_ok cfg s0 ws s \<longleftrightarrow> db_ok s \<and> (store_step cfg)\<^sup>*\<^sup>* s0 s
     \<and> (\<forall>w\<in>set ws. \<exists>r\<in>set (runs s). wr_run_id r = w_run_id w \<and> wr_status r = show_status WsScheduled)"

lemma batch_step:
  assumes "batch_ok cfg s0 ws s" and "store_step cfg s s'"
  shows "batch_ok cfg s0 ws s'"
proof -
  have s: "db_ok s" "(store_step cfg)\<^sup>*\<^sup>* s0 s" using assms(1) by (simp_all add: batch_ok_def)
  have "\<exists>x\<in>set (runs s'). wr_run_id x = wr_run_id r \<and> wr_status x = show_status WsScheduled"
    if r: "r \<in> set (runs s)" "wr_status r = show_status WsScheduled" for r
  proof -
    obtain x where "x \<in> set (runs s')" "run_history r x"
      using store.step_rel [OF s(1) assms(2)] r(1) by (rule history_row)
    then show ?thesis using r(2) scheduled_stays [of "wr_status x"]
      by (auto simp: run_history_def same_identity_def)
  qed
  then have "\<forall>w\<in>set ws. \<exists>r\<in>set (runs s'). wr_run_id r = w_run_id w \<and> wr_status r = show_status WsScheduled"
    using assms(1) unfolding batch_ok_def by metis
  then show ?thesis
    using store.step_inv [OF s(1) assms(2)] s(2) assms(2) by (simp add: batch_ok_def rtranclp.rtrancl_into_rtrancl)
qed

lemma batch_next_fire:
  assumes "w \<in> set ws"
  shows "keeps (batch_ok cfg s0 ws) (wf_update_next_fire (w_run_id w) t l)"
proof (rule keepsI)
  fix s assume s: "batch_ok cfg s0 ws s"
  obtain r where r: "r \<in> set (runs s)" "wr_run_id r = w_run_id w" "wr_status r = show_status WsScheduled"
    using s assms by (auto simp: batch_ok_def)
  have "wr_status x = show_status WsScheduled" if "x \<in> set (runs s)" "wr_run_id x = w_run_id w" for x
    using run_unique [of s x r] s r that by (auto simp: batch_ok_def db_ok_def)
  then show "batch_ok cfg s0 ws (snd (wf_update_next_fire (w_run_id w) t l s))"
    by (intro batch_step [OF s] drives do_next_fire)
qed

lemma batch_instance: "keeps (batch_ok cfg s0 ws) (wf_create_schedule_instance su now i k t)"
  using batch_step [OF _ drives [OF do_instance]] by (intro keepsI)

lemma batch_stale: "keeps (batch_ok cfg s0 ws) (wk_mark_stale_offline now n)"
  using batch_step [OF _ marks_stale] by (intro keepsI)

lemma tick_batch:
  assumes "db_ok s"
  shows "batch_ok cfg s [] (snd (coordinator_tick su parse cs now t u allow wnow s))"
proof (rule tick_keeps_by)
  fix ws assume "wf_find_due_schedules ''*'' now (batch_size cs) s = (Inr ws, s)"
  note due = due_templates [OF this]
  have start: "batch_ok cfg s ws s"
    using assms due by (force simp: batch_ok_def model_fields)
  have "keeps (batch_ok cfg s ws) (fire_all su parse now t u allow ws)"
    by (intro keeps_fire_all_by batch_next_fire batch_instance)
  then have "batch_ok cfg s ws (snd (fire_all su parse now t u allow ws s))" using start by (rule keepsD)
  then show "batch_ok cfg s [] (snd (fire_all su parse now t u allow ws s))" by (simp add: batch_ok_def)
next
  show "keeps (batch_ok cfg s []) (wk_mark_stale_offline wnow (worker_stale_threshold_secs cs))" by (rule batch_stale)
qed (simp add: batch_ok_def assms)

text \<open>A tick of the coordinator is lawful, whatever happens in it (invalid expressions, a full rate limit,
  errors of single calls): it keeps the lifecycle invariant, changes no finished run, no identity of a
  run and lowers no attempt count.\<close>

theorem tick_is_lawful:
  assumes "db_ok s"
  shows "db_ok (snd (coordinator_tick su parse cs now t u allow wnow s))
     \<and> history s (snd (coordinator_tick su parse cs now t u allow wnow s))"
  using store.run_both [of default_store_config] tick_batch [OF assms] assms unfolding batch_ok_def by blast

lemma tick_is_lawful_witness:
  "db_ok (snd (coordinator_tick demo_show demo_parse default_coordinator_settings 250 (\<lambda>_. 260) (\<lambda>_. 31)
      (\<lambda>_. True) 270 demo_db))
   \<and> history demo_db (snd (coordinator_tick demo_show demo_parse default_coordinator_settings 250 (\<lambda>_. 260)
      (\<lambda>_. 31) (\<lambda>_. True) 270 demo_db))"
  by (rule tick_is_lawful) code_simp

lemma stale_same_payloads: "payloads (snd (wk_mark_stale_offline now n s)) = payloads s"
  by (auto simp: wk_mark_stale_offline_def update_workers_count_def bind_op_def update_workers_def
      put_workers_def split: option.splits prod.splits sum.splits)

definition first_scheduled :: "run_row \<Rightarrow> db \<Rightarrow> bool" where
  "first_scheduled r s \<longleftrightarrow> r \<in> set (runs s) \<and> wr_status r = show_status WsScheduled
     \<and> wr_available_at r \<noteq> None \<and> (\<exists>p\<in>set (payloads s). pl_run_id p = wr_run_id r)
     \<and> (\<forall>x\<in>set (runs s). wr_status x = show_status WsScheduled \<and> x \<noteq> r \<longrightarrow> available_key r < available_key x)"

lemma first_scheduled_found:
  assumes "first_scheduled r s" and "1 \<le> n"
    and "wf_find_due_schedules ''*'' now n s = (Inr ws, s')"
  shows "ws = [] \<or> (\<exists>w ws' p. ws = w # ws' \<and> run_into_model (r, p) = Inr w)"
proof -
  let ?due = "due_rows ''*'' now s"
  let ?found = "order_by (<) (available_key \<circ> fst) ?due"
  obtain rows where lim: "sql_limit n ?found = Inr rows"
    and ws: "collect_results (map run_into_model rows) = Inr ws"
    using assms(3) by (rule find_due_rows)
  have rows: "rows = take (nat n) ?found" using lim assms(2) by (simp add: sql_limit_def)
  show ?thesis
  proof (cases ?found)
    case Nil
    have "rows = []" unfolding rows Nil by simp
    then show ?thesis using ws by simp
  next
    case (Cons x xs)
    obtain m where m: "nat n = Suc m" using assms(2) by (cases "nat n") auto
    have x: "x \<in> set ?due" and least: "\<And>y. y \<in> set ?due \<Longrightarrow> available_key (fst x) \<le> available_key (fst y)"
      using by_time.order_by_hd_least [OF Cons] by force+
    obtain p where p: "p \<in> set (payloads s)" "pl_run_id p = wr_run_id r"
      using assms(1) by (auto simp: first_scheduled_def)
    obtain t where t: "wr_available_at (fst x) = Some t" "t \<le> now" and xs: "fst x \<in> set (runs s)"
        "wr_status (fst x) = show_status WsScheduled"
      using x by (auto simp: due_rows_def runs_with_payload_def split: option.splits)
    have "fst x = r"
    proof (rule ccontr)
      assume ne: "fst x \<noteq> r"
      then have lt: "available_key r < available_key (fst x)" using assms(1) xs by (simp add: first_scheduled_def)
      then have "(r, p) \<in> set ?due"
        using assms(1) p t by (auto simp: first_scheduled_def due_rows_def runs_with_payload_def available_key_def)
      then show False using least lt by force
    qed
    then obtain q where "x = (r, q)" by (cases x) auto
    then have "rows = (r, q) # take m xs" unfolding rows Cons m by simp
    then show ?thesis using ws unfolding collect_results_Inr by (auto simp: list_all2_Cons1)
  qed
qed

interpretation stuck_batch: governed_steps "tick_step su parse cs"
  "\<lambda>s. first_scheduled r s \<and> wr_cron_expr r = Some e \<and> parse e = None \<and> 1 \<le> batch_size cs"
  "\<lambda>s s'. runs s' = runs s \<and> payloads s' = payloads s"
proof -
  have tick: "runs s' = runs s \<and> payloads s' = payloads s"
    if inv: "first_scheduled r s \<and> wr_cron_expr r = Some e \<and> parse e = None \<and> 1 \<le> batch_size cs"
      and step: "tick_step su parse cs s s'" for s s'
    using step
  proof (cases rule: tick_step.cases)
    case (one_tick now t u allow wnow)
    show ?thesis unfolding one_tick
    proof (rule tick_keeps_by)
      fix ws assume f: "wf_find_due_schedules ''*'' now (batch_size cs) s = (Inr ws, s)"
      have r: "wr_available_at r \<noteq> None" using inv by (simp add: first_scheduled_def)
      have "ws = [] \<or> (\<exists>w ws' p. ws = w # ws' \<and> run_into_model (r, p) = Inr w)"
        using first_scheduled_found [OF _ _ f] inv by simp
      then have "snd (fire_all su parse now t u allow ws s) = s"
        using r inv by (auto simp: fire_template_def model_fields)
      then show "runs (snd (fire_all su parse now t u allow ws s)) = runs s
          \<and> payloads (snd (fire_all su parse now t u allow ws s)) = payloads s" by simp
    qed (simp_all add: keeps_def stale_same_runs stale_same_payloads)
  qed
  show "governed_steps (tick_step su parse cs)
      (\<lambda>s. first_scheduled r s \<and> wr_cron_expr r = Some e \<and> parse e = None \<and> 1 \<le> batch_size cs)
      (\<lambda>s s'. runs s' = runs s \<and> payloads s' = payloads s)"
  proof (rule governed_steps.intro)
    fix s s'
    assume inv: "first_scheduled r s \<and> wr_cron_expr r = Some e \<and> parse e = None \<and> 1 \<le> batch_size cs"
      and step: "tick_step su parse cs s s'"
    show "runs s' = runs s \<and> payloads s' = payloads s" by (rule tick [OF inv step])
    then show "first_scheduled r s' \<and> wr_cron_expr r = Some e \<and> parse e = None \<and> 1 \<le> batch_size cs"
      using inv by (simp add: first_scheduled_def)
  qed simp_all
qed

text \<open>C39: One schedule whose expression does not parse starves all others: the loop over the batch returns at
  it, so while it is the first in the order of due times, no later schedule is fired, by no number of
  ticks at whatever time: the runs and payloads stay exactly as they are.\<close>

theorem invalid_cron_starves_schedules:
  assumes "(tick_step su parse cs)\<^sup>*\<^sup>* s s'" and "first_scheduled r s"
    and "wr_cron_expr r = Some e" and "parse e = None" and "1 \<le> batch_size cs"
  shows "runs s' = runs s \<and> payloads s' = payloads s"
  using stuck_batch.run_rel [OF assms(1), of r e] assms(2-5) by simp

lemma invalid_cron_starves_schedules_witness:
  "runs (snd (coordinator_tick demo_show (\<lambda>_. None) default_coordinator_settings 250 (\<lambda>_. 260) (\<lambda>_. 31)
     (\<lambda>_. True) 270 demo_db)) = runs demo_db
   \<and> payloads (snd (coordinator_tick demo_show (\<lambda>_. None) default_coordinator_settings 250 (\<lambda>_. 260) (\<lambda>_. 31)
     (\<lambda>_. True) 270 demo_db)) = payloads demo_db"
proof (rule invalid_cron_starves_schedules)
  show "(tick_step demo_show (\<lambda>_. None) default_coordinator_settings)\<^sup>*\<^sup>* demo_db
      (snd (coordinator_tick demo_show (\<lambda>_. None) default_coordinator_settings 250 (\<lambda>_. 260) (\<lambda>_. 31)
        (\<lambda>_. True) 270 demo_db))"
    by (intro r_into_rtranclp one_tick)
  show "first_scheduled demo_template demo_db" by code_simp
  show "wr_cron_expr demo_template = Some ''0 0 0 * * *''" by code_simp
qed (simp_all add: default_coordinator_settings_def)

end
