(* ===== verification/ServerSteps.thy ===== *)
theory ServerSteps
  imports AdminService CoordinatorCorrect
begin

text \<open>
  The server as a whole: one step is any request of a worker, a client or an administrator, with any
  arguments, or a tick of the coordinator, or a single call of a repository by a request that is under way.
  Each request is a chain of calls, so a sequence of requests is a sequence of calls, and the requests
  that run at the same time are an interleaving of theirs. The requests that edit schedules are not
  steps here: they write rows without looking at their status (\<open>ScheduleCorrect\<close>).
\<close>

subsection \<open>Requests\<close>

text \<open>The other connections that act between the rounds of a long poll make calls of their own.\<close>

definition calls_between :: "store_config \<Rightarrow> poll_round \<Rightarrow> bool" where
  "calls_between cfg r \<longleftrightarrow> (\<forall>s. (store_step cfg)\<^sup>*\<^sup>* s (round_others r s))"

lemma chain_dispatch [keeps_rules]: "keeps ((store_step cfg)\<^sup>*\<^sup>* s0) (dispatch E cfg t i c)"
  unfolding dispatch_def by (intro keeps_rules)

lemma chain_poll_loop:
  "list_all (calls_between cfg) rs \<Longrightarrow> keeps ((store_step cfg)\<^sup>*\<^sup>* s0) (poll_loop E cfg ws t i ns q w types rs)"
  by (rule keeps_poll_loop_by) (auto simp: list_all_iff calls_between_def intro: keeps_rules rtranclp_trans)

inductive server_step ::
  "env \<Rightarrow> (string \<Rightarrow> cron_schedule option) \<Rightarrow> store_config \<Rightarrow> worker_settings \<Rightarrow> coordinator_settings
    \<Rightarrow> db \<Rightarrow> db \<Rightarrow> bool"
  for E :: env and parse :: "string \<Rightarrow> cron_schedule option" and cfg :: store_config
    and ws :: worker_settings and cs :: coordinator_settings where
  register: "server_step E parse cfg ws cs s (snd (ws_register E ws now i rreq s))"
| heartbeat: "server_step E parse cfg ws cs s (snd (ws_heartbeat E ws t worker s))"
| deregister: "server_step E parse cfg ws cs s (snd (ws_deregister E now worker drain s))"
| poll: "list_all (calls_between cfg) (r # rs)
    \<Longrightarrow> server_step E parse cfg ws cs s (snd (ws_poll_task E cfg ws t i r rs preq s))"
| begin_step: "server_step E parse cfg ws cs s (snd (ws_begin_step E cfg t u breq s))"
| complete_step: "server_step E parse cfg ws cs s (snd (ws_complete_step E cfg now i run step out s))"
| fail_step: "server_step E parse cfg ws cs s (snd (ws_fail_step E t i run step err s))"
| complete_workflow: "server_step E parse cfg ws cs s (snd (ws_complete_workflow E cfg t i run out s))"
| fail_workflow: "server_step E parse cfg ws cs s (snd (ws_fail_workflow E cfg t i run err s))"
| sleep: "server_step E parse cfg ws cs s (snd (ws_sleep E now run d s))"
| start: "server_step E parse cfg ws cs s (snd (wv_start_workflow E cfg t u sreq s))"
| cancel: "server_step E parse cfg ws cs s (snd (wv_cancel_workflow E cfg t i run ns s))"
| retry: "server_step E parse cfg ws cs s (snd (wv_retry_workflow E cfg now i run ns s))"
| terminate: "server_step E parse cfg ws cs s (snd (wv_terminate_workflow E now run ns reason s))"
| create_namespace: "server_step E parse cfg ws cs s (snd (nv_create_namespace E now i nreq s))"
| update_namespace: "server_step E parse cfg ws cs s (snd (nv_update_namespace E now ns dn descr s))"
| enable_namespace: "server_step E parse cfg ws cs s (snd (nv_enable_namespace E now ns s))"
| disable_namespace: "server_step E parse cfg ws cs s (snd (nv_disable_namespace E now ns s))"
| drain_worker: "server_step E parse cfg ws cs s (snd (av_drain_worker E worker s))"
| tick: "server_step E parse cfg ws cs s
    (snd (coordinator_tick (show_uuid E) parse cs now t u allow wnow s))"
| call: "store_step cfg s s' \<Longrightarrow> server_step E parse cfg ws cs s s'"

lemma chain_requests:
  "keeps ((store_step cfg)\<^sup>*\<^sup>* s0) (ws_register E ws now i rreq)"
  "keeps ((store_step cfg)\<^sup>*\<^sup>* s0) (ws_heartbeat E ws t worker)"
  "keeps ((store_step cfg)\<^sup>*\<^sup>* s0) (ws_deregister E now worker drain)"
  "keeps ((store_step cfg)\<^sup>*\<^sup>* s0) (ws_begin_step E cfg t u breq)"
  "keeps ((store_step cfg)\<^sup>*\<^sup>* s0) (ws_complete_step E cfg now i run step out)"
  "keeps ((store_step cfg)\<^sup>*\<^sup>* s0) (ws_fail_step E t i run step err)"
  "keeps ((store_step cfg)\<^sup>*\<^sup>* s0) (ws_complete_workflow E cfg t i run out)"
  "keeps ((store_step cfg)\<^sup>*\<^sup>* s0) (ws_fail_workflow E cfg t i run err)"
  "keeps ((store_step cfg)\<^sup>*\<^sup>* s0) (ws_sleep E now run d)"
  "keeps ((store_step cfg)\<^sup>*\<^sup>* s0) (wv_start_workflow E cfg t u sreq)"
  "keeps ((store_step cfg)\<^sup>*\<^sup>* s0) (wv_cancel_workflow E cfg t i run ns)"
  "keeps ((store_step cfg)\<^sup>*\<^sup>* s0) (wv_retry_workflow E cfg now i run ns)"
  "keeps ((store_step cfg)\<^sup>*\<^sup>* s0) (wv_terminate_workflow E now run ns reason)"
  "keeps ((store_step cfg)\<^sup>*\<^sup>* s0) (nv_create_namespace E now i nreq)"
  "keeps ((store_step cfg)\<^sup>*\<^sup>* s0) (nv_update_namespace E now ns dn descr)"
  "keeps ((store_step cfg)\<^sup>*\<^sup>* s0) (nv_enable_namespace E now ns)"
  "keeps ((store_step cfg)\<^sup>*\<^sup>* s0) (nv_disable_namespace E now ns)"
  "keeps ((store_step cfg)\<^sup>*\<^sup>* s0) (av_drain_worker E worker)"
  unfolding ws_register_def ws_heartbeat_def ws_deregister_def ws_begin_step_def ws_complete_step_def
    ws_fail_step_def ws_complete_workflow_def ws_fail_workflow_def ws_sleep_def wv_start_workflow_def
    wv_cancel_workflow_def wv_retry_workflow_def wv_terminate_workflow_def nv_create_namespace_def
    nv_update_namespace_def nv_enable_namespace_def nv_disable_namespace_def av_drain_worker_def Let_def
  by (intro keeps_rules)+

lemma chain_poll_request:
  "list_all (calls_between cfg) (r # rs) \<Longrightarrow> keeps ((store_step cfg)\<^sup>*\<^sup>* s0) (ws_poll_task E cfg ws t i r rs preq)"
  unfolding ws_poll_task_def Let_def by (intro keeps_rules chain_poll_loop)

lemma step_is_calls:
  assumes "server_step E parse cfg ws cs s s'" and "db_ok s"
  shows "(store_step cfg)\<^sup>*\<^sup>* s s'"
  using assms(1)
proof (cases rule: server_step.cases)
  case (tick now t u allow wnow)
  then show ?thesis using tick_batch [OF assms(2)] by (simp add: batch_ok_def)
next
  case call
  then show ?thesis by (rule r_into_rtranclp)
qed (simp_all only:, (rule keepsD [where I = "(store_step cfg)\<^sup>*\<^sup>* s"], rule chain_requests chain_poll_request,
    assumption?, rule rtranclp.rtrancl_refl)+)

lemma steps_are_calls:
  assumes "(server_step E parse cfg ws cs)\<^sup>*\<^sup>* s s'" and "db_ok s"
  shows "(store_step cfg)\<^sup>*\<^sup>* s s'"
  using assms
proof (induction rule: rtranclp_induct)
  case (step y z)
  then have "db_ok y" using store.run_inv by blast
  then show ?case using step step_is_calls by (meson rtranclp_trans)
qed simp

end
