(* ===== verification/StepCorrect.thy ===== *)
theory StepCorrect
  imports StepStore Fixtures
begin

text \<open>
  What the step repository promises: the memoisation contract \<open>memo_store\<close> on which the replay of a
  workflow rests, interpreted on \<open>st_begin\<close> and \<open>st_complete\<close>; attempt numbers; the retry decision.
\<close>

subsection \<open>The contract of a memo\<close>

text \<open>
  \<open>begin a k\<close> asks whether the result of step \<open>k\<close> is known: \<open>Some v\<close> is the known result, \<open>None\<close> tells the
  caller to execute the step; \<open>finish a k b\<close> records the result \<open>val b\<close>. The argument \<open>a\<close> is what else
  the call takes (clock, identifiers, parameters), \<open>ok a\<close> that it is acceptable.
\<close>

locale memo_store =
  fixes inv :: "'s \<Rightarrow> bool" and known :: "'k \<Rightarrow> 's \<Rightarrow> 'v option" and ok :: "'a \<Rightarrow> bool"
    and begin_step :: "'a \<Rightarrow> 'k \<Rightarrow> 's \<Rightarrow> ('e + 'v option) \<times> 's"
    and finish_step :: "'a \<Rightarrow> 'k \<Rightarrow> 'b \<Rightarrow> 's \<Rightarrow> ('e + unit) \<times> 's"
    and val :: "'b \<Rightarrow> 'v"
  assumes begin_hit: "inv s \<Longrightarrow> ok a \<Longrightarrow> known k s = Some v \<Longrightarrow> begin_step a k s = (Inr (Some v), s)"
    and begin_Inr: "inv s \<Longrightarrow> begin_step a k s = (Inr res, s')
      \<Longrightarrow> res = known k s \<and> inv s' \<and> (\<forall>k'. known k' s' = known k' s)"
    and begin_Inl: "begin_step a k s = (Inl e, s') \<Longrightarrow> s' = s"
    and finish_Inr: "inv s \<Longrightarrow> finish_step a k b s = (Inr (), s')
      \<Longrightarrow> inv s' \<and> known k s' = (case known k s of Some v \<Rightarrow> Some v | None \<Rightarrow> Some (val b))
          \<and> (\<forall>k'. k' \<noteq> k \<longrightarrow> known k' s' = known k' s)"
    and finish_Inl: "finish_step a k b s = (Inl e, s') \<Longrightarrow> s' = s"
begin

text \<open>
  Running a step: ask, execute the body only if the result is not known, record it. The result counts
  how often the body ran.
\<close>

definition run_step :: "'a \<Rightarrow> 'a \<Rightarrow> 'k \<Rightarrow> 'b \<Rightarrow> 's \<Rightarrow> ('e + 'v) \<times> nat \<times> 's" where
  "run_step a1 a2 k body s = (case begin_step a1 k s of
       (Inl e, s1) \<Rightarrow> (Inl e, 0, s1)
     | (Inr (Some v), s1) \<Rightarrow> (Inr v, 0, s1)
     | (Inr None, s1) \<Rightarrow> (case finish_step a2 k body s1 of
         (Inl e, s2) \<Rightarrow> (Inl e, 1, s2)
       | (Inr _, s2) \<Rightarrow> (Inr (val body), 1, s2)))"

lemma run_step_inv: "inv s \<Longrightarrow> run_step a1 a2 k body s = (r, n, s') \<Longrightarrow> inv s'"
  unfolding run_step_def
  by (auto split: prod.splits sum.splits option.splits dest: begin_Inr begin_Inl finish_Inr finish_Inl)

text \<open>A result that was recorded stays, whatever steps run.\<close>

lemma run_step_keeps_known:
  assumes "inv s" and "known k' s = Some v" and "run_step a1 a2 k body s = (r, n, s')"
  shows "known k' s' = Some v"
proof (cases "begin_step a1 k s")
  case (Pair x s1)
  show ?thesis
  proof (cases x)
    case (Inl e)
    then show ?thesis using Pair assms begin_Inl by (fastforce simp: run_step_def)
  next
    case (Inr o1)
    then have b: "o1 = known k s" "inv s1" "known k' s1 = Some v"
      using begin_Inr [OF assms(1)] Pair assms(2) by auto
    show ?thesis
    proof (cases o1)
      case (Some w)
      then show ?thesis using Pair Inr b assms(3) by (simp add: run_step_def)
    next
      case None
      then have "k' \<noteq> k" using b(1) assms(2) by auto
      then show ?thesis
        using Pair Inr None assms(3) b finish_Inr [OF b(2)] finish_Inl
        by (fastforce simp: run_step_def split: prod.splits sum.splits)
    qed
  qed
qed

lemma run_step_result:
  assumes "inv s" and "run_step a1 a2 k body s = (Inr v, n, s')"
  shows "known k s' = Some v"
proof (cases "begin_step a1 k s")
  case (Pair x s1)
  then obtain o1 where x: "x = Inr o1" using assms(2) by (cases x) (auto simp: run_step_def)
  then have b: "o1 = known k s" "inv s1" "known k s1 = known k s"
    using begin_Inr [OF assms(1)] Pair by auto
  show ?thesis
  proof (cases o1)
    case (Some w)
    then show ?thesis using Pair x b assms(2) by (simp add: run_step_def)
  next
    case None
    then show ?thesis
      using Pair x None assms(2) b finish_Inr [OF b(2)]
      by (fastforce simp: run_step_def split: prod.splits sum.splits)
  qed
qed

text \<open>Replaying a step whose result was returned once: the body does not run, nothing changes.\<close>

lemma replay_step:
  assumes "inv s" and "known k s = Some v" and "ok a1"
  shows "run_step a1 a2 k body s = (Inr v, 0, s)"
  using begin_hit [OF assms(1,3,2)] by (simp add: run_step_def)

end

subsection \<open>Steps of a table and its latest attempts\<close>

definition step_known :: "uuid \<times> string \<Rightarrow> db \<Rightarrow> bytes option option" where
  "step_known = (\<lambda>(i, k) s. case find_latest i k s of
       Some r \<Rightarrow> if sr_status r = show_step_status SsCompleted then Some (sr_output r) else None
     | None \<Rightarrow> None)"

lemma find_sql_update_disjoint:
  assumes "\<And>r. P r \<Longrightarrow> \<not> Q r \<and> \<not> Q (f r)"
  shows "List.find Q (sql_update P f t) = List.find Q t"
proof (induction t)
  case (Cons r t)
  then show ?case using assms [of r] by (cases "P r") (simp_all add: sql_update_def)
qed (simp add: sql_update_def)

lemma find_append:
  "List.find P (xs @ ys) = (case List.find P xs of Some x \<Rightarrow> Some x | None \<Rightarrow> List.find P ys)"
  by (induction xs) auto

lemma find_cleared: "List.find (latest_of i k) (sql_update (latest_of i k) (\<lambda>r. r\<lparr>sr_is_latest := False\<rparr>) t) = None"
  by (induction t) (simp_all add: sql_update_def latest_of_def)

lemma find_other_cleared:
  "(i', k') \<noteq> (i, k) \<Longrightarrow>
    List.find (latest_of i' k') (sql_update (latest_of i k) (\<lambda>r. r\<lparr>sr_is_latest := False\<rparr>) t)
     = List.find (latest_of i' k') t"
  by (rule find_sql_update_disjoint) (auto simp: latest_of_def)

lemma max_attempt_cleared:
  "max_attempt i k (sql_update P (\<lambda>r. r\<lparr>sr_is_latest := b\<rparr>) t) = max_attempt i k t"
proof -
  have "map sr_attempt_number (filter (\<lambda>r. sr_run_id r = i \<and> sr_step_id r = k)
          (sql_update P (\<lambda>r. r\<lparr>sr_is_latest := b\<rparr>) t))
      = map sr_attempt_number (filter (\<lambda>r. sr_run_id r = i \<and> sr_step_id r = k) t)"
    by (induction t) (auto simp: sql_update_def)
  then show ?thesis by (simp add: max_attempt_def)
qed

lemma max_attempt_upper:
  assumes "r \<in> set t" and "sr_run_id r = i" and "sr_step_id r = k"
  shows "sr_attempt_number r \<le> max_attempt i k t"
proof -
  let ?ns = "map sr_attempt_number (filter (\<lambda>r. sr_run_id r = i \<and> sr_step_id r = k) t)"
  have ge: "n \<le> foldl max n ns" "\<And>m. m \<in> set ns \<Longrightarrow> m \<le> foldl max n ns" for n :: int and ns
  proof -
    have "n \<le> foldl max n ns \<and> (\<forall>m\<in>set ns. m \<le> foldl max n ns)"
    proof (induction ns arbitrary: n)
      case (Cons a ns)
      from Cons [of "max n a"] show ?case by auto
    qed simp
    then show "n \<le> foldl max n ns" "\<And>m. m \<in> set ns \<Longrightarrow> m \<le> foldl max n ns" by auto
  qed
  have "sr_attempt_number r \<in> set ?ns" using assms by auto
  then show ?thesis using ge unfolding max_attempt_def by (cases ?ns) auto
qed

text \<open>A cleared table takes a new latest attempt.\<close>

lemma clear_latest_ok:
  assumes "wf_db s"
  shows "clear_latest i k s = (Inr (), s\<lparr>steps :=
           sql_update (latest_of i k) (\<lambda>r. r\<lparr>sr_is_latest := False\<rparr>) (steps s)\<rparr>)"
  unfolding clear_latest_def using assms by (intro update_steps_narrow) (auto simp: step_key_def)

lemma insert_step_ok:
  assumes wf: "wf_db s" and run: "List.find (\<lambda>w. wr_run_id w = sr_run_id r) (runs s) = Some w"
    and free: "find_latest (sr_run_id r) (sr_step_id r) s = None"
    and fresh: "sr_attempt_id r \<notin> sr_attempt_id ` set (steps s)"
    and n: "pg_int4 (max_attempt (sr_run_id r) (sr_step_id r) (steps s) + 1) = Some n"
  shows "insert_step_row r s = (Inr (), s\<lparr>steps := steps s @
           [r\<lparr>sr_attempt_number := n, sr_namespace := wr_namespace w\<rparr>]\<rparr>)"
proof -
  let ?r = "r\<lparr>sr_attempt_number := n, sr_namespace := wr_namespace w\<rparr>"
  have old: "steps_violation (run_ids s) (ns_names s) (steps s) = None" using wf by (simp add: wf_db_def)
  have w: "w \<in> set (runs s)" "wr_run_id w = sr_run_id r" using find_Some_in [OF run] by auto
  have nsw: "wr_namespace w \<in> set (ns_names s)" using wf w by (simp add: wf_db_def runs_violation_None)
  have other: "step_key x \<noteq> step_key ?r" if "x \<in> set (steps s)" "sr_is_latest x" for x
    using free that by (auto simp: find_latest_def find_None_all latest_of_def step_key_def)
  have "steps_violation (run_ids s) (ns_names s) (steps s @ [?r]) = None"
    unfolding steps_violation_None
  proof (intro conjI)
    show "distinct (map sr_attempt_id (steps s @ [?r]))"
      using old fresh by (simp add: steps_violation_None)
    show "distinct (map step_key (filter sr_is_latest (steps s @ [?r])))"
      using old other by (auto simp: steps_violation_None image_iff) (metis other)
    show "\<forall>x\<in>set (steps s @ [?r]). sr_run_id x \<in> set (run_ids s)"
      using old w by (auto simp: steps_violation_None) (metis image_eqI)
    show "\<forall>x\<in>set (steps s @ [?r]). sr_namespace x \<in> set (ns_names s)"
      using old nsw by (auto simp: steps_violation_None)
  qed
  then show ?thesis using run n by (simp add: insert_step_row_def put_steps_def)
qed

subsection \<open>What \<open>begin\<close> does\<close>

definition attempt_row ::
  "timestamp \<Rightarrow> uuid \<Rightarrow> begin_step_params \<Rightarrow> int \<Rightarrow> string \<Rightarrow> step_row" where
  "attempt_row now new_id p n ns = (step_defaults now new_id (bs_run_id p) (bs_step_id p)
     (bs_step_kind p) SsRunning)\<lparr>sr_input := bs_input p, sr_started_at := Some now,
     sr_retry_policy := bs_retry_policy p, sr_attempt_number := n, sr_namespace := ns\<rparr>"

lemma step_defaults_simps [simp]:
  "sr_run_id (step_defaults now a i k kind st) = i" "sr_step_id (step_defaults now a i k kind st) = k"
  "sr_attempt_id (step_defaults now a i k kind st) = a"
  "sr_status (step_defaults now a i k kind st) = show_step_status st"
  "sr_is_latest (step_defaults now a i k kind st)"
  by (simp_all add: step_defaults_def)

text \<open>The step is done already: the stored output is returned.\<close>

lemma begin_known:
  assumes "validate_optional cfg (bs_input p) ''Step input'' = Inr ()"
    and "step_known (bs_run_id p, bs_step_id p) s = Some out"
  shows "st_begin cfg now new_id p s = (Inr \<lparr>br_should_execute = False, br_cached_output = out\<rparr>, s)"
proof -
  obtain r where r: "find_latest (bs_run_id p) (bs_step_id p) s = Some r"
    "sr_status r = show_step_status SsCompleted" "sr_output r = out"
    using assms(2) by (auto simp: step_known_def split: option.splits if_splits)
  show ?thesis
    using assms(1) r by (simp add: st_begin_def transact_def bind_op_def)
qed

text \<open>Otherwise the latest mark moves to a new attempt, unless the insert fails.\<close>

lemma begin_unknown:
  assumes wf: "wf_db s" and "validate_optional cfg (bs_input p) ''Step input'' = Inr ()"
    and "step_known (bs_run_id p, bs_step_id p) s = None"
  shows "st_begin cfg now new_id p s = transact
     (bind_op (insert_step_row ((step_defaults now new_id (bs_run_id p) (bs_step_id p) (bs_step_kind p)
         SsRunning)\<lparr>sr_input := bs_input p, sr_started_at := Some now, sr_retry_policy := bs_retry_policy p\<rparr>))
       (\<lambda>_. ret_op \<lparr>br_should_execute = True, br_cached_output = None\<rparr>) \<circ>
      (\<lambda>s. s\<lparr>steps := sql_update (latest_of (bs_run_id p) (bs_step_id p))
               (\<lambda>r. r\<lparr>sr_is_latest := False\<rparr>) (steps s)\<rparr>)) s"
proof -
  have "\<not> (\<exists>r. find_latest (bs_run_id p) (bs_step_id p) s = Some r \<and> sr_status r = show_step_status SsCompleted)"
    using assms(3) by (auto simp: step_known_def)
  then show ?thesis
    using assms(2) clear_latest_ok [OF wf, of "bs_run_id p" "bs_step_id p"]
    by (auto simp: st_begin_def transact_def bind_op_def Let_def split: option.splits)
qed

lemma put_steps_InrD: "put_steps rs s = (Inr (), s') \<Longrightarrow> s' = s\<lparr>steps := rs\<rparr>"
  by (auto simp: put_steps_def split: option.splits)

lemma insert_step_InrD:
  assumes "insert_step_row r s = (Inr (), s')"
  obtains n ns where "s' = s\<lparr>steps := steps s @ [r\<lparr>sr_attempt_number := n, sr_namespace := ns\<rparr>]\<rparr>"
  using assms unfolding insert_step_row_def by (auto split: option.splits dest: put_steps_InrD)

lemma find_latest_inserted:
  assumes "find_latest (sr_run_id r) (sr_step_id r) s = None" and "sr_is_latest r"
    and "s' = s\<lparr>steps := steps s @ [r\<lparr>sr_attempt_number := n, sr_namespace := ns\<rparr>]\<rparr>"
  shows "find_latest (sr_run_id r) (sr_step_id r) s'
           = Some (r\<lparr>sr_attempt_number := n, sr_namespace := ns\<rparr>)"
    and "(i, k) \<noteq> (sr_run_id r, sr_step_id r) \<Longrightarrow> find_latest i k s' = find_latest i k s"
  using assms by (auto simp: find_latest_def find_append latest_of_def split: option.splits)

text \<open>Replacing the latest attempt of one step: what \<open>begin\<close>, \<open>complete\<close> and \<open>fail\<close> do.\<close>

lemma replace_latest:
  assumes "wf_db s" and "insert_step_row r (s\<lparr>steps := sql_update (latest_of (sr_run_id r) (sr_step_id r))
             (\<lambda>r. r\<lparr>sr_is_latest := False\<rparr>) (steps s)\<rparr>) = (Inr (), s')" and "sr_is_latest r"
  obtains n ns where "find_latest (sr_run_id r) (sr_step_id r) s'
      = Some (r\<lparr>sr_attempt_number := n, sr_namespace := ns\<rparr>)"
    and "\<And>i k. (i, k) \<noteq> (sr_run_id r, sr_step_id r) \<Longrightarrow> find_latest i k s' = find_latest i k s"
proof -
  let ?s1 = "s\<lparr>steps := sql_update (latest_of (sr_run_id r) (sr_step_id r))
             (\<lambda>r. r\<lparr>sr_is_latest := False\<rparr>) (steps s)\<rparr>"
  have none: "find_latest (sr_run_id r) (sr_step_id r) ?s1 = None"
    by (simp add: find_latest_def find_cleared)
  have oth: "find_latest i k ?s1 = find_latest i k s" if "(i, k) \<noteq> (sr_run_id r, sr_step_id r)" for i k
    using that by (simp add: find_latest_def find_other_cleared)
  obtain n ns where s': "s' = ?s1\<lparr>steps := steps ?s1 @ [r\<lparr>sr_attempt_number := n, sr_namespace := ns\<rparr>]\<rparr>"
    using assms(2) by (rule insert_step_InrD)
  show ?thesis
    using that find_latest_inserted [OF none assms(3) s'] oth by metis
qed

lemma step_known_eq: "find_latest i k s' = find_latest i k s \<Longrightarrow> step_known (i, k) s' = step_known (i, k) s"
  by (simp add: step_known_def)

lemma begin_result:
  assumes "wf_db s" and "st_begin cfg now new_id p s = (Inr b, s')"
  shows "(if br_should_execute b then None else Some (br_cached_output b)) = step_known (bs_run_id p, bs_step_id p) s"
    and "wf_db s'" and "step_known ik s' = step_known ik s"
proof -
  show "wf_db s'" using keeps_run [OF keeps_begin assms] .
  have v: "validate_optional cfg (bs_input p) ''Step input'' = Inr ()"
    using assms(2)
    by (cases "validate_optional cfg (bs_input p) ''Step input''")
      (auto simp: st_begin_def transact_def bind_op_def)
  show "(if br_should_execute b then None else Some (br_cached_output b)) = step_known (bs_run_id p, bs_step_id p) s"
    and "step_known ik s' = step_known ik s"
  proof (atomize (full), cases "step_known (bs_run_id p, bs_step_id p) s")
    case (Some out)
    then show "(if br_should_execute b then None else Some (br_cached_output b)) = step_known (bs_run_id p, bs_step_id p) s
      \<and> step_known ik s' = step_known ik s"
      using begin_known [OF v Some] assms(2) by auto
  next
    case None
    let ?r = "(step_defaults now new_id (bs_run_id p) (bs_step_id p) (bs_step_kind p)
         SsRunning)\<lparr>sr_input := bs_input p, sr_started_at := Some now, sr_retry_policy := bs_retry_policy p\<rparr>"
    have ins: "insert_step_row ?r (s\<lparr>steps := sql_update (latest_of (sr_run_id ?r) (sr_step_id ?r))
             (\<lambda>r. r\<lparr>sr_is_latest := False\<rparr>) (steps s)\<rparr>) = (Inr (), s')"
      and b: "b = \<lparr>br_should_execute = True, br_cached_output = None\<rparr>"
      using assms(2) unfolding begin_unknown [OF assms(1) v None]
      by (auto simp: transact_def bind_op_def split: prod.splits sum.splits)
    obtain n ns where f: "find_latest (sr_run_id ?r) (sr_step_id ?r) s'
        = Some (?r\<lparr>sr_attempt_number := n, sr_namespace := ns\<rparr>)"
      and oth: "\<And>i k. (i, k) \<noteq> (sr_run_id ?r, sr_step_id ?r) \<Longrightarrow> find_latest i k s' = find_latest i k s"
      by (rule replace_latest [OF assms(1) ins]) auto
    have "step_known (bs_run_id p, bs_step_id p) s' = None" using f by (simp add: step_known_def)
    moreover have "step_known ik s' = step_known ik s" if "ik \<noteq> (bs_run_id p, bs_step_id p)"
    proof -
      obtain i k where ik: "ik = (i, k)" by (cases ik)
      with that have "find_latest i k s' = find_latest i k s" by (intro oth) simp
      then show ?thesis unfolding ik by (rule step_known_eq)
    qed
    ultimately show "(if br_should_execute b then None else Some (br_cached_output b)) = step_known (bs_run_id p, bs_step_id p) s
      \<and> step_known ik s' = step_known ik s"
      using None b by (cases "ik = (bs_run_id p, bs_step_id p)") auto
  qed
qed

subsection \<open>What \<open>complete\<close> does\<close>

lemma find_latest_updated:
  assumes "\<And>r. latest_of i k (f r) = latest_of i k r" and "\<And>r. latest_of i' k' (f r) = latest_of i' k' r"
    and "s' = s\<lparr>steps := sql_update P f (steps s)\<rparr>"
  shows "find_latest i k s' = map_option (\<lambda>r. if P r then f r else r) (find_latest i k s)"
  unfolding find_latest_def assms(3) using assms(1) by (simp add: find_sql_update)

lemma update_latest_steps:
  assumes "wf_db s" and "\<And>r. sr_attempt_id (f r) = sr_attempt_id r \<and> step_key (f r) = step_key r
      \<and> sr_namespace (f r) = sr_namespace r \<and> sr_is_latest (f r) = sr_is_latest r"
  shows "update_steps_count P f s = (Inr (sql_count P (steps s)), s\<lparr>steps := sql_update P f (steps s)\<rparr>)"
    and "update_steps P f s = (Inr (), s\<lparr>steps := sql_update P f (steps s)\<rparr>)"
    and "find_latest i k (s\<lparr>steps := sql_update P f (steps s)\<rparr>)
           = map_option (\<lambda>r. if P r then f r else r) (find_latest i k s)"
proof -
  show u: "update_steps P f s = (Inr (), s\<lparr>steps := sql_update P f (steps s)\<rparr>)"
    using assms by (intro update_steps_narrow) auto
  then show "update_steps_count P f s = (Inr (sql_count P (steps s)), s\<lparr>steps := sql_update P f (steps s)\<rparr>)"
    by (simp add: update_steps_count_def bind_op_def)
  have "latest_of i k (f r) = latest_of i k r" for r
    using assms(2) [of r] by (auto simp: latest_of_def step_key_def)
  then show "find_latest i k (s\<lparr>steps := sql_update P f (steps s)\<rparr>)
           = map_option (\<lambda>r. if P r then f r else r) (find_latest i k s)"
    by (intro find_latest_updated [of i k f i k]) auto
qed

lemma count_latest_0:
  assumes "wf_db s" and "\<And>r. P r \<Longrightarrow> latest_of i k r"
  shows "sql_count P (steps s) = 0 \<longleftrightarrow> (case find_latest i k s of None \<Rightarrow> True | Some r \<Rightarrow> \<not> P r)"
proof (cases "find_latest i k s")
  case None
  then have "\<not> P r" if "r \<in> set (steps s)" for r
    using that assms(2) by (auto simp: find_latest_def find_None_all)
  then show ?thesis using None by (simp add: sql_count_0)
next
  case (Some r)
  then have r: "r \<in> set (steps s)" "latest_of i k r" using find_Some_in unfolding find_latest_def by fast+
  have u: "x = r" if "x \<in> set (steps s)" "latest_of i k x" for x
    using latest_unique [OF assms(1) that(1) r(1)] that(2) r(2) by (simp add: latest_of_def step_key_def)
  have "(\<forall>x\<in>set (steps s). \<not> P x) \<longleftrightarrow> \<not> P r"
    using u assms(2) r(1) by metis
  then show ?thesis using Some by (simp add: sql_count_0)
qed

text \<open>A RUNNING attempt is completed in place, a COMPLETED one stays as it is.\<close>

lemma complete_running:
  assumes wf: "wf_db s" and len: "length out \<le> payload_max_size_bytes cfg"
    and r: "find_latest i k s = Some r" "sr_status r = show_step_status SsRunning"
  shows "st_complete cfg now new_id i k out s
       = (Inr (), s\<lparr>steps := sql_update (running_latest i k) (completed_step now out) (steps s)\<rparr>)"
proof -
  note u = update_latest_steps(1) [OF wf, of "completed_step now out" "running_latest i k"]
  have "latest_of i k r" using find_Some_in r(1) unfolding find_latest_def by fast
  then have "sql_count (running_latest i k) (steps s) \<noteq> 0"
    using count_latest_0 [OF wf, of "running_latest i k" i k] r by (simp add: running_latest_def)
  then show ?thesis
    using u len r(1)
    by (simp add: st_complete_def transact_def bind_op_def step_validate_payload_size_def
        latest_step_kind_strict_def latest_step_kind_impl_def completed_step_def step_key_def)
qed

lemma complete_completed:
  assumes wf: "wf_db s" and len: "length out \<le> payload_max_size_bytes cfg"
    and r: "find_latest i k s = Some r" "sr_status r = show_step_status SsCompleted"
  shows "st_complete cfg now new_id i k out s = (Inr (), s)"
proof -
  note u = update_latest_steps(1) [OF wf, of "completed_step now out" "running_latest i k"]
  have c0: "sql_count (running_latest i k) (steps s) = 0"
    using count_latest_0 [OF wf, of "running_latest i k" i k] r by (simp add: running_latest_def)
  then have "sql_update (running_latest i k) (completed_step now out) (steps s) = steps s"
    by (intro sql_update_none) (auto simp: sql_count_0)
  then show ?thesis
    using u len r c0
    by (simp add: st_complete_def transact_def bind_op_def step_validate_payload_size_def
        latest_step_kind_strict_def latest_step_kind_impl_def completed_step_def step_key_def)
qed

lemma complete_result:
  assumes wf: "wf_db s" and c: "st_complete cfg now new_id i k out s = (Inr (), s')"
  shows "step_known (i, k) s' = (case step_known (i, k) s of Some v \<Rightarrow> Some v | None \<Rightarrow> Some (Some out))"
    and "wf_db s'" and "ik \<noteq> (i, k) \<Longrightarrow> step_known ik s' = step_known ik s"
    and "length out \<le> payload_max_size_bytes cfg" and "find_latest i k s \<noteq> None"
proof -
  show "wf_db s'" using keeps_run [OF keeps_step_complete wf c] .
  show len: "length out \<le> payload_max_size_bytes cfg"
    using c by (auto simp: st_complete_def transact_def bind_op_def step_validate_payload_size_def
        split: if_splits)
  show "find_latest i k s \<noteq> None"
    using c len by (cases "find_latest i k s")
      (simp_all add: st_complete_def transact_def bind_op_def step_validate_payload_size_def
        latest_step_kind_strict_def latest_step_kind_impl_def)
  then obtain r where r: "find_latest i k s = Some r" by auto
  have lr: "latest_of i k r" using find_Some_in r unfolding find_latest_def by fast
  have "step_known (i, k) s' = (case step_known (i, k) s of Some v \<Rightarrow> Some v | None \<Rightarrow> Some (Some out))
     \<and> (ik \<noteq> (i, k) \<longrightarrow> step_known ik s' = step_known ik s)"
  proof -
    consider "sr_status r = show_step_status SsRunning" | "sr_status r = show_step_status SsCompleted"
      | "sr_status r \<noteq> show_step_status SsRunning" "sr_status r \<noteq> show_step_status SsCompleted" by blast
    then show ?thesis
    proof cases
      case 1
      have s': "s' = s\<lparr>steps := sql_update (running_latest i k) (completed_step now out) (steps s)\<rparr>"
        using complete_running [OF wf len r 1] c by simp
      have f: "find_latest i' k' s' = map_option (\<lambda>r. if running_latest i k r then completed_step now out r else r)
          (find_latest i' k' s)" for i' k'
        unfolding s' by (rule update_latest_steps(3) [OF wf]) (simp add: completed_step_def step_key_def)
      have "step_known (i', k') s' = step_known (i', k') s" if "(i', k') \<noteq> (i, k)" for i' k'
      proof (cases "find_latest i' k' s")
        case (Some x)
        then have "latest_of i' k' x" using find_Some_in unfolding find_latest_def by fast
        then have "\<not> running_latest i k x" using that by (auto simp: running_latest_def latest_of_def)
        then show ?thesis using f [of i' k'] Some by (simp add: step_known_def)
      qed (use f [of i' k'] in \<open>simp add: step_known_def\<close>)
      moreover have "step_known (i, k) s' = Some (Some out)" "step_known (i, k) s = None"
        using f [of i k] r 1 lr by (simp_all add: step_known_def running_latest_def completed_step_def)
      ultimately show ?thesis by (cases ik) auto
    next
      case 2
      then show ?thesis using complete_completed [OF wf len r 2] c r by (simp add: step_known_def)
    next
      case 3
      let ?kind = "if sr_step_kind r = show_step_kind SkSleep then SkSleep else SkFunction"
      let ?r = "(step_defaults now new_id i k ?kind SsCompleted)\<lparr>sr_output := Some out, sr_error := None,
                  sr_finished_at := Some now\<rparr>"
      have c0: "sql_count (running_latest i k) (steps s) = 0"
        using count_latest_0 [OF wf, of "running_latest i k" i k] r 3 by (simp add: running_latest_def)
      then have same: "sql_update (running_latest i k) (completed_step now out) (steps s) = steps s"
        by (intro sql_update_none) (auto simp: sql_count_0)
      have ins: "insert_step_row ?r (s\<lparr>steps := sql_update (latest_of (sr_run_id ?r) (sr_step_id ?r))
             (\<lambda>r. r\<lparr>sr_is_latest := False\<rparr>) (steps s)\<rparr>) = (Inr (), s')"
        using c len r 3 c0 same clear_latest_ok [OF wf, of i k]
          update_latest_steps(1) [OF wf, of "completed_step now out" "running_latest i k"]
        by (auto simp: st_complete_def transact_def bind_op_def step_validate_payload_size_def
          latest_step_kind_strict_def latest_step_kind_impl_def completed_step_def step_key_def
          insert_step_result_def split: prod.splits sum.splits if_splits)
      obtain n ns where f: "find_latest (sr_run_id ?r) (sr_step_id ?r) s'
          = Some (?r\<lparr>sr_attempt_number := n, sr_namespace := ns\<rparr>)"
        and oth: "\<And>i' k'. (i', k') \<noteq> (sr_run_id ?r, sr_step_id ?r) \<Longrightarrow> find_latest i' k' s' = find_latest i' k' s"
        by (rule replace_latest [OF wf ins]) auto
      have "step_known (i, k) s' = Some (Some out)" "step_known (i, k) s = None"
        using f r 3 by (simp_all add: step_known_def)
      moreover have "step_known (i', k') s' = step_known (i', k') s" if "(i', k') \<noteq> (i, k)" for i' k'
        using that by (intro step_known_eq oth) simp
      ultimately show ?thesis by (cases ik) auto
    qed
  qed
  then show "step_known (i, k) s' = (case step_known (i, k) s of Some v \<Rightarrow> Some v | None \<Rightarrow> Some (Some out))"
    and "ik \<noteq> (i, k) \<Longrightarrow> step_known ik s' = step_known ik s" by auto
qed

subsection \<open>The store is a memo\<close>

type_synonym step_call = "timestamp \<times> uuid \<times> step_kind \<times> bytes option \<times> retry_policy option"

definition step_call_ok :: "store_config \<Rightarrow> step_call \<Rightarrow> bool" where
  "step_call_ok cfg = (\<lambda>(now, new_id, kind, inp, pol). validate_optional cfg inp ''Step input'' = Inr ())"

definition store_begin ::
  "store_config \<Rightarrow> step_call \<Rightarrow> uuid \<times> string \<Rightarrow> db \<Rightarrow> (store_error + bytes option option) \<times> db" where
  "store_begin cfg = (\<lambda>(now, new_id, kind, inp, pol) (i, k) s.
     case st_begin cfg now new_id \<lparr>bs_run_id = i, bs_step_id = k, bs_step_kind = kind, bs_input = inp,
            bs_retry_policy = pol\<rparr> s of
       (Inl e, s') \<Rightarrow> (Inl e, s')
     | (Inr b, s') \<Rightarrow> (Inr (if br_should_execute b then None else Some (br_cached_output b)), s'))"

definition store_finish ::
  "store_config \<Rightarrow> step_call \<Rightarrow> uuid \<times> string \<Rightarrow> bytes \<Rightarrow> db \<Rightarrow> (store_error + unit) \<times> db" where
  "store_finish cfg = (\<lambda>(now, new_id, kind, inp, pol) (i, k) out. st_complete cfg now new_id i k out)"

lemma st_begin_rollback: "st_begin cfg now new_id p s = (Inl e, s') \<Longrightarrow> s' = s"
  unfolding st_begin_def by (rule transact_rollback)

lemma st_complete_rollback: "st_complete cfg now new_id i k out s = (Inl e, s') \<Longrightarrow> s' = s"
  unfolding st_complete_def by (rule transact_rollback)

interpretation step_memo: memo_store wf_db step_known "step_call_ok cfg" "store_begin cfg"
  "store_finish cfg" Some
proof (unfold_locales, goal_cases)
  case (1 s a k v)
  then show ?case by (auto simp: store_begin_def step_call_ok_def begin_known split: prod.splits)
next
  case (2 s a k res s')
  obtain now new_id kind inp pol i j where a: "a = (now, new_id, kind, inp, pol)" "k = (i, j)"
    by (metis prod_cases5 surj_pair)
  let ?p = "\<lparr>bs_run_id = i, bs_step_id = j, bs_step_kind = kind, bs_input = inp, bs_retry_policy = pol\<rparr>"
  obtain b where b: "st_begin cfg now new_id ?p s = (Inr b, s')"
    "res = (if br_should_execute b then None else Some (br_cached_output b))"
    using 2(2) by (auto simp: store_begin_def a split: prod.splits sum.splits)
  show ?case using begin_result [OF 2(1) b(1)] b(2) a by simp
next
  case (3 a k s e s')
  then show ?case
    by (auto simp: store_begin_def split: prod.splits sum.splits dest: st_begin_rollback)
next
  case (4 s a k b s')
  obtain now new_id kind inp pol i j where a: "a = (now, new_id, kind, inp, pol)" "k = (i, j)"
    by (metis prod_cases5 surj_pair)
  have c: "st_complete cfg now new_id i j b s = (Inr (), s')"
    using 4(2) by (simp add: store_finish_def a)
  show ?case using complete_result(1-3) [OF 4(1) c] a by simp
next
  case (5 a k b s e s')
  then show ?case by (auto simp: store_finish_def split: prod.splits dest: st_complete_rollback)
qed

subsection \<open>Properties\<close>

text \<open>C8: Beginning a step of an existing run never fails within the limits, and decides alone by the
  latest attempt: a COMPLETED one means "do not execute" and its stored output, with nothing changed;
  otherwise exactly one new RUNNING attempt is added, numbered one above all attempts of that step,
  and it alone is marked the latest.\<close>

theorem begin_exact:
  assumes "wf_db s" and "w \<in> set (runs s)" and "wr_run_id w = bs_run_id p"
    and "validate_optional cfg (bs_input p) ''Step input'' = Inr ()"
    and "new_id \<notin> sr_attempt_id ` set (steps s)"
    and "pg_int4 (max_attempt (bs_run_id p) (bs_step_id p) (steps s) + 1) = Some n"
  shows "st_begin cfg now new_id p s = (case step_known (bs_run_id p, bs_step_id p) s of
       Some out \<Rightarrow> (Inr \<lparr>br_should_execute = False, br_cached_output = out\<rparr>, s)
     | None \<Rightarrow> (Inr \<lparr>br_should_execute = True, br_cached_output = None\<rparr>,
         s\<lparr>steps := map (\<lambda>r. if latest_of (bs_run_id p) (bs_step_id p) r then r\<lparr>sr_is_latest := False\<rparr> else r)
                     (steps s) @ [attempt_row now new_id p n (wr_namespace w)]\<rparr>))
     \<and> (\<forall>r\<in>set (steps s). sr_run_id r = bs_run_id p \<and> sr_step_id r = bs_step_id p \<longrightarrow> sr_attempt_number r < n)"
proof
  have n: "n = max_attempt (bs_run_id p) (bs_step_id p) (steps s) + 1"
    using assms(6) by (auto simp: pg_int4_def split: if_splits)
  then show "\<forall>r\<in>set (steps s). sr_run_id r = bs_run_id p \<and> sr_step_id r = bs_step_id p
      \<longrightarrow> sr_attempt_number r < n"
    using max_attempt_upper by fastforce
  show "st_begin cfg now new_id p s = (case step_known (bs_run_id p, bs_step_id p) s of
       Some out \<Rightarrow> (Inr \<lparr>br_should_execute = False, br_cached_output = out\<rparr>, s)
     | None \<Rightarrow> (Inr \<lparr>br_should_execute = True, br_cached_output = None\<rparr>,
         s\<lparr>steps := map (\<lambda>r. if latest_of (bs_run_id p) (bs_step_id p) r then r\<lparr>sr_is_latest := False\<rparr> else r)
                     (steps s) @ [attempt_row now new_id p n (wr_namespace w)]\<rparr>))"
  proof (cases "step_known (bs_run_id p, bs_step_id p) s")
    case (Some out)
    then show ?thesis using begin_known [OF assms(4)] by simp
  next
    case None
    let ?clear = "sql_update (latest_of (bs_run_id p) (bs_step_id p)) (\<lambda>r. r\<lparr>sr_is_latest := False\<rparr>) (steps s)"
    let ?s1 = "s\<lparr>steps := ?clear\<rparr>"
    let ?r = "(step_defaults now new_id (bs_run_id p) (bs_step_id p) (bs_step_kind p)
         SsRunning)\<lparr>sr_input := bs_input p, sr_started_at := Some now, sr_retry_policy := bs_retry_policy p\<rparr>"
    have wf1: "wf_db ?s1" using keeps_run [OF keeps_update_steps assms(1) clear_latest_ok [unfolded clear_latest_def, OF assms(1)]] .
    have run: "List.find (\<lambda>w. wr_run_id w = sr_run_id ?r) (runs ?s1) = Some w"
      using find_run [OF assms(1,2)] assms(3) by simp
    have free: "find_latest (sr_run_id ?r) (sr_step_id ?r) ?s1 = None"
      by (simp add: find_latest_def find_cleared)
    have fresh: "sr_attempt_id ?r \<notin> sr_attempt_id ` set (steps ?s1)"
      using assms(5) by (auto simp: sql_update_def)
    have num: "pg_int4 (max_attempt (sr_run_id ?r) (sr_step_id ?r) (steps ?s1) + 1) = Some n"
      using assms(6) by (simp add: max_attempt_cleared)
    show ?thesis
      unfolding begin_unknown [OF assms(1,4) None] using insert_step_ok [OF wf1 run free fresh num] None
      by (simp add: transact_def bind_op_def attempt_row_def sql_update_def)
  qed
qed

definition demo_begin :: begin_step_params where
  "demo_begin = \<lparr>bs_run_id = 2, bs_step_id = ''charge'', bs_step_kind = SkFunction,
     bs_input = Some [1], bs_retry_policy = None\<rparr>"

definition demo_attempt :: step_row where
  "demo_attempt = (step_defaults 70 50 2 ''charge'' SkFunction SsRunning)\<lparr>
     sr_namespace := ''default'', sr_started_at := Some 70\<rparr>"

definition demo_steps_db :: db where
  "demo_steps_db = demo_db\<lparr>steps := [demo_attempt]\<rparr>"

lemma demo_steps_wf: "wf_db demo_steps_db"
  by code_simp

lemma begin_exact_witness:
  "map (\<lambda>r. (sr_attempt_number r, sr_is_latest r)) (steps (snd (st_begin demo_cfg 90 51 demo_begin demo_steps_db)))
     = [(1, False), (2, True)]"
proof -
  have k: "step_known (bs_run_id demo_begin, bs_step_id demo_begin) demo_steps_db = None" by code_simp
  have "st_begin demo_cfg 90 51 demo_begin demo_steps_db = (Inr \<lparr>br_should_execute = True, br_cached_output = None\<rparr>,
         demo_steps_db\<lparr>steps := map (\<lambda>r. if latest_of (bs_run_id demo_begin) (bs_step_id demo_begin) r
            then r\<lparr>sr_is_latest := False\<rparr> else r) (steps demo_steps_db)
          @ [attempt_row 90 51 demo_begin 2 (wr_namespace demo_running)]\<rparr>)"
    using begin_exact [OF demo_steps_wf, of demo_running demo_begin demo_cfg 51 2 90] unfolding k option.case
    by (simp add: demo_defs demo_steps_db_def demo_attempt_def demo_begin_def validate_optional_def
        step_validate_payload_size_def step_defaults_def max_attempt_def pg_int4_def)
  then show ?thesis
    by (simp add: demo_steps_db_def demo_attempt_def demo_begin_def latest_of_def attempt_row_def
        step_defaults_def)
qed

text \<open>One call of a worker about its steps.\<close>

inductive memo_call :: "store_config \<Rightarrow> db \<Rightarrow> db \<Rightarrow> bool" for cfg :: store_config where
  call_begin: "memo_call cfg s (snd (st_begin cfg now new_id p s))"
| call_complete: "memo_call cfg s (snd (st_complete cfg now new_id i k out s))"

definition memo_grows :: "db \<Rightarrow> db \<Rightarrow> bool" where
  "memo_grows s s' \<longleftrightarrow> (\<forall>k v. step_known k s = Some v \<longrightarrow> step_known k s' = Some v)"

lemma memo_call_step:
  assumes "memo_call cfg s s'" and "wf_db s"
  shows "wf_db s' \<and> memo_grows s s'"
  using assms(1)
proof cases
  case (call_begin now new_id p)
  show ?thesis
  proof (cases "st_begin cfg now new_id p s")
    case (Pair x s1)
    show ?thesis
    proof (cases x)
      case (Inl e)
      then have "s1 = s" using Pair by (metis st_begin_rollback)
      then show ?thesis using Pair assms(2) call_begin by (simp add: memo_grows_def)
    next
      case (Inr b)
      then have b: "st_begin cfg now new_id p s = (Inr b, s1)" using Pair by simp
      show ?thesis
        using begin_result(2,3) [OF assms(2) b] Pair call_begin by (simp add: memo_grows_def)
    qed
  qed
next
  case (call_complete now new_id i k out)
  show ?thesis
  proof (cases "st_complete cfg now new_id i k out s")
    case (Pair x s1)
    show ?thesis
    proof (cases x)
      case (Inl e)
      then have "s1 = s" using Pair by (metis st_complete_rollback)
      then show ?thesis using Pair assms(2) call_complete by (simp add: memo_grows_def)
    next
      case (Inr u)
      then have c: "st_complete cfg now new_id i k out s = (Inr (), s1)" using Pair by simp
      have "step_known ik s1 = Some v" if "step_known ik s = Some v" for ik v
        using complete_result(1,3) [OF assms(2) c] that by (cases "ik = (i, k)") auto
      then show ?thesis using complete_result(2) [OF assms(2) c] Pair call_complete by (simp add: memo_grows_def)
    qed
  qed
qed

interpretation memo_calls: governed_steps "memo_call cfg" wf_db memo_grows
  by unfold_locales (auto simp: memo_grows_def dest: memo_call_step)

text \<open>C9: Replay is safe: once a step is recorded as completed, then after any sequence of begins and
  completions of steps, of this run or others, beginning it again answers "do not execute" with the
  very output that was recorded, and changes nothing.\<close>

theorem completed_step_is_replayed:
  assumes "wf_db s" and "st_complete cfg now new_id i k out s = (Inr (), s1)"
    and "step_known (i, k) s = None" and "(memo_call cfg)\<^sup>*\<^sup>* s1 s2"
    and "bs_run_id p = i" and "bs_step_id p = k"
    and "validate_optional cfg (bs_input p) ''Step input'' = Inr ()"
  shows "st_begin cfg now' new_id' p s2
       = (Inr \<lparr>br_should_execute = False, br_cached_output = Some out\<rparr>, s2)"
proof -
  have k: "step_known (i, k) s1 = Some (Some out)" "wf_db s1"
    using complete_result(1,2) [OF assms(1,2)] assms(3) by auto
  then have "step_known (i, k) s2 = Some (Some out)"
    using memo_calls.run_rel [OF assms(4)] by (simp add: memo_grows_def)
  then show ?thesis using begin_known [OF assms(7)] assms(5,6) by simp
qed

lemma completed_step_is_replayed_witness:
  "fst (st_begin demo_cfg 99 60 demo_begin
     (snd (st_begin demo_cfg 95 51 (demo_begin\<lparr>bs_step_id := ''ship''\<rparr>)
        (snd (st_complete demo_cfg 90 52 2 ''charge'' [7] demo_steps_db)))))
   = Inr \<lparr>br_should_execute = False, br_cached_output = Some [7]\<rparr>"
proof -
  let ?s1 = "snd (st_complete demo_cfg 90 52 2 ''charge'' [7] demo_steps_db)"
  have "st_complete demo_cfg 90 52 2 ''charge'' [7] demo_steps_db = (Inr (), ?s1)"
    "step_known (2, ''charge'') demo_steps_db = None"
    "bs_run_id demo_begin = 2" "bs_step_id demo_begin = ''charge''"
    "validate_optional demo_cfg (bs_input demo_begin) ''Step input'' = Inr ()"
    by code_simp+
  note * = completed_step_is_replayed [OF demo_steps_wf this(1,2) r_into_rtranclp [of "memo_call demo_cfg", OF call_begin]
      this(3-5)]
  show ?thesis by (simp only: * fst_conv)
qed

subsection \<open>Failing steps\<close>

definition retry_info_of :: "step_row \<Rightarrow> run_row \<Rightarrow> step_retry_info" where
  "retry_info_of r w = \<lparr>ri_attempt_number = sr_attempt_number r,
     ri_retry_policy = Option.bind (case sr_retry_policy r of Some p \<Rightarrow> Some p | None \<Rightarrow> wr_retry_policy w)
       policy_from_value\<rparr>"

lemma get_retry_info_found:
  assumes "find_latest i k s = Some r" and "List.find (\<lambda>w. wr_run_id w = i) (runs s) = Some w"
  shows "st_get_retry_info i k s = (Inr (Some (retry_info_of r w)), s)"
  using assms by (simp add: st_get_retry_info_def retry_info_of_def)

lemma fail_with_retry:
  assumes wf: "wf_db s" and r: "find_latest (fs_run_id p) (fs_step_id p) s = Some r"
    and w: "List.find (\<lambda>w. wr_run_id w = fs_run_id p) (runs s) = Some w"
    and d: "retry_delay bo p (retry_info_of r w) = Some d"
  shows "st_fail bo now new_id p s =
     (Inr \<lparr>fr_scheduled_retry = True, fr_schedule_workflow_retry_ms = Some (as_u64 d)\<rparr>,
      s\<lparr>steps := sql_update (latest_of (fs_run_id p) (fs_step_id p)) (failed_step now (fs_error p)) (steps s)\<rparr>)"
  using d update_latest_steps(2) [OF wf, of "failed_step now (fs_error p)"]
  by (simp add: st_fail_def get_retry_info_found [OF r w] bind_op_def failed_step_def step_key_def)

lemma fail_without_retry:
  assumes wf: "wf_db s" and r: "find_latest (fs_run_id p) (fs_step_id p) s = Some r"
    and run: "sr_status r = show_step_status SsRunning"
    and w: "List.find (\<lambda>w. wr_run_id w = fs_run_id p) (runs s) = Some w"
    and d: "retry_delay bo p (retry_info_of r w) = None"
  shows "st_fail bo now new_id p s =
     (Inr \<lparr>fr_scheduled_retry = False, fr_schedule_workflow_retry_ms = None\<rparr>,
      s\<lparr>steps := sql_update (running_latest (fs_run_id p) (fs_step_id p)) (failed_step now (fs_error p)) (steps s)\<rparr>)"
proof -
  have "latest_of (fs_run_id p) (fs_step_id p) r"
    using find_Some_in r unfolding find_latest_def by fast
  then have "sql_count (running_latest (fs_run_id p) (fs_step_id p)) (steps s) \<noteq> 0"
    using count_latest_0 [OF wf, of "running_latest (fs_run_id p) (fs_step_id p)" "fs_run_id p" "fs_step_id p"] r run
    by (simp add: running_latest_def)
  then show ?thesis
    using d r update_latest_steps(1) [OF wf, of "failed_step now (fs_error p)"
        "running_latest (fs_run_id p) (fs_step_id p)"]
    by (simp add: st_fail_def get_retry_info_found [OF r w] bind_op_def fail_permanently_def transact_def
        latest_step_kind_strict_def latest_step_kind_impl_def failed_step_def step_key_def)
qed

lemma fail_decided:
  assumes "wf_db s" and "find_latest (fs_run_id p) (fs_step_id p) s = Some r"
    and "sr_status r = show_step_status SsRunning"
    and "List.find (\<lambda>w. wr_run_id w = fs_run_id p) (runs s) = Some w"
  defines "policy \<equiv> (case Option.bind (case sr_retry_policy r of Some q \<Rightarrow> Some q | None \<Rightarrow> wr_retry_policy w)
      policy_from_value of Some q \<Rightarrow> q | None \<Rightarrow> default_policy)"
  defines "retry \<equiv> \<not> fs_non_retryable p \<and> \<not> is_non_retryable policy (fs_error p)
      \<and> (maximum_attempts policy < 0 \<or> sr_attempt_number r < maximum_attempts policy)"
  shows "st_fail bo now new_id p s =
     (Inr \<lparr>fr_scheduled_retry = retry, fr_schedule_workflow_retry_ms =
        (if retry then Some (as_u64 (case fs_retry_after_ms p of Some d \<Rightarrow> d
           | None \<Rightarrow> calculate_delay_ms bo policy (sr_attempt_number r))) else None)\<rparr>,
      s\<lparr>steps := map (\<lambda>x. if x = r then failed_step now (fs_error p) r else x) (steps s)\<rparr>)"
proof -
  have r: "r \<in> set (steps s)" "latest_of (fs_run_id p) (fs_step_id p) r"
    using find_Some_in assms(2) unfolding find_latest_def by fast+
  have u: "x = r" if "x \<in> set (steps s)" "latest_of (fs_run_id p) (fs_step_id p) x" for x
    using latest_unique [OF assms(1) that(1) r(1)] that(2) r(2) by (simp add: latest_of_def step_key_def)
  have upd: "sql_update (latest_of (fs_run_id p) (fs_step_id p)) f (steps s)
        = map (\<lambda>x. if x = r then f r else x) (steps s)"
    "sql_update (running_latest (fs_run_id p) (fs_step_id p)) f (steps s)
        = map (\<lambda>x. if x = r then f r else x) (steps s)" for f
    unfolding sql_update_def running_latest_def using u r assms(3) by (intro map_cong refl; metis)+
  have d: "retry_delay bo p (retry_info_of r w) = (if retry then Some (case fs_retry_after_ms p of Some d \<Rightarrow> d
           | None \<Rightarrow> calculate_delay_ms bo policy (sr_attempt_number r)) else None)"
    unfolding retry_delay_def retry_info_of_def retry_def policy_def should_retry_def
    by (simp add: Let_def cong: option.case_cong)
  show ?thesis
  proof (cases retry)
    case True
    then show ?thesis
      using fail_with_retry [OF assms(1,2,4), of bo _ now new_id] d by (simp add: upd)
  next
    case False
    then show ?thesis
      using fail_without_retry [OF assms(1-4), of bo now new_id] d by (simp add: upd)
  qed
qed

text \<open>C17: A failing step is retried exactly when the worker did not call the error final, no prefix of
  \<open>non_retryable_errors\<close> matches it and the attempt is below \<open>maximum_attempts\<close> (negative: no limit) of
  the step's policy, else of the run's, else of the default one. The running attempt becomes FAILED either way,
  and a retry carries the delay the worker asked for or the policy gives. So a policy that allows \<open>n\<close>
  attempts is never scheduled a retry from attempt \<open>n\<close> on.\<close>

theorem fail_retry_decision:
  assumes "wf_db s" and "find_latest (fs_run_id p) (fs_step_id p) s = Some r"
    and "sr_status r = show_step_status SsRunning"
    and "List.find (\<lambda>w. wr_run_id w = fs_run_id p) (runs s) = Some w"
  defines "policy \<equiv> (case Option.bind (case sr_retry_policy r of Some q \<Rightarrow> Some q | None \<Rightarrow> wr_retry_policy w)
      policy_from_value of Some q \<Rightarrow> q | None \<Rightarrow> default_policy)"
  defines "retry \<equiv> \<not> fs_non_retryable p \<and> \<not> is_non_retryable policy (fs_error p)
      \<and> (maximum_attempts policy < 0 \<or> sr_attempt_number r < maximum_attempts policy)"
  shows "st_fail bo now new_id p s =
     (Inr \<lparr>fr_scheduled_retry = retry, fr_schedule_workflow_retry_ms =
        (if retry then Some (as_u64 (case fs_retry_after_ms p of Some d \<Rightarrow> d
           | None \<Rightarrow> calculate_delay_ms bo policy (sr_attempt_number r))) else None)\<rparr>,
      s\<lparr>steps := map (\<lambda>x. if x = r then failed_step now (fs_error p) r else x) (steps s)\<rparr>)"
  using fail_decided [OF assms(1-4), of bo now new_id] unfolding policy_def retry_def .

definition demo_fail :: fail_step_params where
  "demo_fail = \<lparr>fs_run_id = 2, fs_step_id = ''charge'', fs_error = ''timeout'', fs_non_retryable = False,
     fs_retry_after_ms = Some 250\<rparr>"

definition no_backoff :: backoff_iter where
  "no_backoff mn mx k = None"

lemma fail_retry_decision_witness:
  "st_fail no_backoff 90 51 demo_fail demo_steps_db =
     (Inr \<lparr>fr_scheduled_retry = True, fr_schedule_workflow_retry_ms = Some 250\<rparr>,
      demo_steps_db\<lparr>steps := [failed_step 90 ''timeout'' demo_attempt]\<rparr>)"
proof -
  have "find_latest (fs_run_id demo_fail) (fs_step_id demo_fail) demo_steps_db = Some demo_attempt"
    "sr_status demo_attempt = show_step_status SsRunning"
    "List.find (\<lambda>w. wr_run_id w = fs_run_id demo_fail) (runs demo_steps_db) = Some demo_running"
    by code_simp+
  note * = fail_retry_decision [OF demo_steps_wf this, of no_backoff 90 51]
  have "sr_retry_policy demo_attempt = None" "wr_retry_policy demo_running = None"
    "sr_attempt_number demo_attempt = 1" "steps demo_steps_db = [demo_attempt]"
    by (simp_all add: demo_attempt_def step_defaults_def demo_running_def run_defaults_def demo_steps_db_def)
  then show ?thesis unfolding *
    by (simp add: demo_fail_def default_policy_def is_non_retryable_def as_u64_def)
qed

text \<open>The retry branch does not look at the status of the attempt: a late failure report for a
  step whose latest attempt is COMPLETED turns it into FAILED whenever the policy allows a retry, so
  its recorded result is forgotten and the next replay executes the step again.\<close>

theorem late_fail_forgets_result:
  assumes "wf_db s" and "find_latest (fs_run_id p) (fs_step_id p) s = Some r"
    and "sr_status r = show_step_status SsCompleted"
    and "List.find (\<lambda>w. wr_run_id w = fs_run_id p) (runs s) = Some w"
    and "retry_delay bo p (retry_info_of r w) = Some d"
  shows "step_known (fs_run_id p, fs_step_id p) s = Some (sr_output r)
     \<and> step_known (fs_run_id p, fs_step_id p) (snd (st_fail bo now new_id p s)) = None"
proof
  show "step_known (fs_run_id p, fs_step_id p) s = Some (sr_output r)"
    using assms(2,3) by (simp add: step_known_def)
  have "latest_of (fs_run_id p) (fs_step_id p) r" using find_Some_in assms(2) unfolding find_latest_def by fast
  then have "find_latest (fs_run_id p) (fs_step_id p) (snd (st_fail bo now new_id p s))
      = Some (failed_step now (fs_error p) r)"
    unfolding fail_with_retry [OF assms(1,2,4,5)] snd_conv
    using update_latest_steps(3) [OF assms(1), of "failed_step now (fs_error p)"] assms(2)
    by (simp add: failed_step_def step_key_def)
  then show "step_known (fs_run_id p, fs_step_id p) (snd (st_fail bo now new_id p s)) = None"
    by (simp add: step_known_def failed_step_def)
qed

lemma late_fail_forgets_result_witness:
  "step_known (2, ''charge'') (demo_steps_db\<lparr>steps := [completed_step 80 [7] demo_attempt]\<rparr>) = Some (Some [7])
   \<and> step_known (2, ''charge'')
       (snd (st_fail no_backoff 90 51 demo_fail (demo_steps_db\<lparr>steps := [completed_step 80 [7] demo_attempt]\<rparr>))) = None"
proof -
  let ?s = "demo_steps_db\<lparr>steps := [completed_step 80 [7] demo_attempt]\<rparr>"
  have "wf_db ?s" "find_latest (fs_run_id demo_fail) (fs_step_id demo_fail) ?s = Some (completed_step 80 [7] demo_attempt)"
    "sr_status (completed_step 80 [7] demo_attempt) = show_step_status SsCompleted"
    "List.find (\<lambda>w. wr_run_id w = fs_run_id demo_fail) (runs ?s) = Some demo_running"
    by code_simp+
  moreover have "retry_delay no_backoff demo_fail (retry_info_of (completed_step 80 [7] demo_attempt) demo_running)
     = Some 250"
    by (simp add: retry_delay_def retry_info_of_def completed_step_def demo_attempt_def step_defaults_def
        demo_running_def run_defaults_def demo_fail_def default_policy_def is_non_retryable_def should_retry_def)
  ultimately show ?thesis
    using late_fail_forgets_result [of ?s demo_fail "completed_step 80 [7] demo_attempt" demo_running no_backoff 250 90 51]
    by (simp add: demo_fail_def completed_step_def)
qed

end
