(* ===== verification/RegistryCorrect.thy ===== *)
theory RegistryCorrect
  imports WorkerStore NamespaceStore Fixtures
begin

text \<open>
  What the worker and the namespace repository promise: registration is idempotent, exactly the silent
  workers are taken offline, statistics count the tables.
\<close>

definition demo_worker :: worker_row where
  "demo_worker = \<lparr>kr_worker_id = 70, kr_namespace = ''default'', kr_task_queue = ''q'',
     kr_status = show_worker_status WkOnline, kr_hostname = Some ''h'', kr_pid = Some 12,
     kr_version = None, kr_workflow_types = [''Order''], kr_registered_at = 0,
     kr_last_heartbeat_at = 1000000, kr_deregistered_at = None, kr_labels = []\<rparr>"

definition demo_workers_db :: db where
  "demo_workers_db = demo_db\<lparr>workers := [demo_worker, demo_worker\<lparr>kr_worker_id := 71, kr_pid := Some 13,
     kr_status := show_worker_status WkOffline, kr_deregistered_at := Some 900000\<rparr>]\<rparr>"

definition demo_register :: register_worker_params where
  "demo_register = \<lparr>rw_namespace = ''default'', rw_task_queue = ''q'', rw_workflow_types = [''Order'', ''Report''],
     rw_hostname = Some ''h'', rw_pid = Some 12, rw_version = None, rw_labels = [],
     rw_queue_concurrency_limit = None, rw_workflow_type_concurrency = []\<rparr>"

lemma demo_workers_wf: "wf_db demo_workers_db"
  by code_simp



text \<open>C30: The watchdog takes offline exactly the workers that are not OFFLINE and whose last heartbeat is
  older than the threshold, stamps them, leaves all others alone and reports how many there were;
  right afterwards it finds none.\<close>

theorem watchdog_exact:
  assumes "wf_db s" and "pg_ts_add now (- threshold * 1000000) = Some limit"
  shows "\<exists>s'. wk_mark_stale_offline now threshold s
       = (Inr (length (filter (\<lambda>r. kr_status r \<noteq> show_worker_status WkOffline
                                  \<and> kr_last_heartbeat_at r < now - threshold * 1000000) (workers s))), s')
     \<and> s' = s\<lparr>workers := map (\<lambda>r. if kr_status r \<noteq> show_worker_status WkOffline
                                  \<and> kr_last_heartbeat_at r < now - threshold * 1000000
                                 then set_offline now r else r) (workers s)\<rparr>
     \<and> wk_mark_stale_offline now threshold s' = (Inr 0, s')"
proof -
  have l: "limit = now - threshold * 1000000" using pg_ts_add_SomeD [OF assms(2)] by simp
  have st: "stale limit = (\<lambda>r. kr_status r \<noteq> show_worker_status WkOffline
                                  \<and> kr_last_heartbeat_at r < now - threshold * 1000000)"
    by (simp add: stale_def l fun_eq_iff)
  let ?s' = "s\<lparr>workers := sql_update (stale limit) (set_offline now) (workers s)\<rparr>"
  note m = stale_exact [OF assms]
  have none: "\<not> stale limit r" if "r \<in> set (workers ?s')" for r
  proof -
    obtain r0 where "r = (if stale limit r0 then set_offline now r0 else r0)"
      using \<open>r \<in> set (workers ?s')\<close> by (auto simp: in_sql_update)
    then show ?thesis by (cases "stale limit r0") (simp_all add: stale_def set_offline_def)
  qed
  have "wk_mark_stale_offline now threshold ?s' = (Inr 0, ?s')"
    using stale_exact [OF keeps_run [OF keeps_worker_updates(4) assms(1) m] assms(2)] none
    by (simp add: sql_count_0 [THEN iffD2] sql_update_none)
  then show ?thesis using m by (simp add: st sql_count_def sql_update_def)
qed

lemma watchdog_exact_witness:
  "\<exists>s'. wk_mark_stale_offline 32000000 30 demo_workers_db
       = (Inr (length (filter (\<lambda>r. kr_status r \<noteq> show_worker_status WkOffline
                                  \<and> kr_last_heartbeat_at r < 32000000 - 30 * 1000000) (workers demo_workers_db))), s')
     \<and> s' = demo_workers_db\<lparr>workers := map (\<lambda>r. if kr_status r \<noteq> show_worker_status WkOffline
                                  \<and> kr_last_heartbeat_at r < 32000000 - 30 * 1000000
                                 then set_offline 32000000 r else r) (workers demo_workers_db)\<rparr>
     \<and> wk_mark_stale_offline 32000000 30 s' = (Inr 0, s')"
  by (rule watchdog_exact [OF demo_workers_wf, where limit = 2000000]) code_simp

text \<open>The statistics of a namespace are the counts of the tables: the total of the runs is the number of
  rows of the namespace and the sum over the types, the counts per status are exact, and the workers
  are those that are not OFFLINE.\<close>

theorem stats_count_tables:
  "\<exists>st. np_get_stats lt ns s = (Inr st, s)
     \<and> ns_total_workflows st = int (length (filter (\<lambda>r. wr_namespace r = ns) (runs s)))
     \<and> ns_pending_workflows st
         = int (length (filter (\<lambda>r. wr_namespace r = ns \<and> wr_status r = show_status WsPending) (runs s)))
     \<and> ns_running_workflows st
         = int (length (filter (\<lambda>r. wr_namespace r = ns \<and> wr_status r = show_status WsRunning) (runs s)))
     \<and> ns_completed_workflows st
         = int (length (filter (\<lambda>r. wr_namespace r = ns \<and> wr_status r = show_status WsCompleted) (runs s)))
     \<and> ns_failed_workflows st
         = int (length (filter (\<lambda>r. wr_namespace r = ns \<and> wr_status r = show_status WsFailed) (runs s)))
     \<and> ns_total_workers st = int (length (filter (\<lambda>r. kr_namespace r = ns
            \<and> kr_status r \<noteq> show_worker_status WkOffline) (workers s)))
     \<and> ns_total_workflows st = sum_list (map snd (ns_workflows_by_status st))"
proof -
  let ?rs = "runs_in ns s"
  have total: "sum_list (map (\<lambda>(t, total, active, queues). total) (type_counts lt ?rs)) = int (length ?rs)"
    unfolding type_counts_def Let_def map_map o_def prod.case
    using sum_group_sizes [of wr_workflow_type ?rs] by (simp add: sum_list_order_by)
  have by_status: "sum_list (map snd (count_by wr_status ?rs)) = int (length ?rs)"
    using sum_group_sizes [of wr_status ?rs] by (simp add: count_by_def o_def sql_count_def)
  have st: "count_of st (count_by wr_status ?rs)
      = int (length (filter (\<lambda>r. wr_namespace r = ns \<and> wr_status r = st) (runs s)))" for st
    by (simp add: count_of_count_by sql_count_def runs_in_def conj_commute)
  show ?thesis
    by (simp add: np_get_stats_def Let_def total by_status st)
      (simp add: runs_in_def sql_count_def conj_commute)
qed

lemma distinct_replace_one:
  assumes "distinct (map k (filter Q xs))" and "distinct xs" and "r \<in> set xs" and "\<not> Q r"
    and "\<And>x. x \<in> set xs \<Longrightarrow> Q x \<Longrightarrow> k x \<noteq> k r'"
  shows "distinct (map k (filter Q (map (\<lambda>x. if x = r then r' else x) xs)))"
proof -
  obtain ys zs where xs: "xs = ys @ r # zs" and r: "r \<notin> set ys" "r \<notin> set zs"
    using assms(2,3) by (auto dest: split_list)
  have "map (\<lambda>x. if x = r then r' else x) ys = ys" "map (\<lambda>x. if x = r then r' else x) zs = zs"
    using r by (auto intro: map_idI)
  then have "map (\<lambda>x. if x = r then r' else x) xs = ys @ r' # zs" by (simp add: xs)
  moreover have "k r' \<notin> k ` set (filter Q ys)" "k r' \<notin> k ` set (filter Q zs)"
    unfolding image_iff using assms(5) by (auto simp: xs) (metis assms(5) xs in_set_conv_decomp Un_iff set_append list.set_intros(2))+
  moreover have "distinct (map k (filter Q ys @ filter Q zs))" using assms(1,4) by (simp add: xs)
  ultimately show ?thesis by (simp del: set_filter)
qed

text \<open>Draining has no guard on the status: draining a worker that is OFFLINE (deregistered, or timed
  out) makes it DRAINING again, with its deregistration stamp kept, and from then on its heartbeats
  are accepted although the worker was told to stop.\<close>

theorem drain_revives_offline_worker:
  assumes "wf_db s" and "r \<in> set (workers s)" and "kr_status r = show_worker_status WkOffline"
    and "\<forall>x\<in>set (workers s). in_worker_index x \<longrightarrow> worker_key x \<noteq> worker_key r"
  shows "fst (wk_heartbeat now (kr_worker_id r) s) = Inr False
     \<and> fst (wk_heartbeat now (kr_worker_id r)
         (snd (wk_start_drain (kr_worker_id r) (kr_namespace r) s))) = Inr True"
proof -
  let ?d = "\<lambda>r. r\<lparr>kr_status := show_worker_status WkDraining\<rparr>"
  let ?P = "\<lambda>x. kr_worker_id x = kr_worker_id r \<and> kr_namespace x = kr_namespace r"
  have u: "x = r" if "x \<in> set (workers s)" "kr_worker_id x = kr_worker_id r" for x
    using worker_unique [OF assms(1) that(1) assms(2) that(2)] .
  have rs: "sql_update ?P ?d (workers s) = map (\<lambda>x. if x = r then ?d r else x) (workers s)"
    unfolding sql_update_def using u by (intro map_cong) auto
  have hb: "fst (wk_heartbeat now i s) = Inr (\<exists>x\<in>set (workers s). kr_worker_id x = i
      \<and> kr_status x \<noteq> show_worker_status WkOffline)" if "wf_db s" for i s
  proof -
    have "update_workers_count (\<lambda>r. kr_worker_id r = i \<and> kr_status r \<noteq> show_worker_status WkOffline)
        (\<lambda>r. r\<lparr>kr_last_heartbeat_at := now\<rparr>) s
      = (Inr (sql_count (\<lambda>r. kr_worker_id r = i \<and> kr_status r \<noteq> show_worker_status WkOffline) (workers s)),
         s\<lparr>workers := sql_update (\<lambda>r. kr_worker_id r = i \<and> kr_status r \<noteq> show_worker_status WkOffline)
            (\<lambda>r. r\<lparr>kr_last_heartbeat_at := now\<rparr>) (workers s)\<rparr>)"
      by (rule update_workers_count_narrow [OF that])
        (simp add: worker_key_def in_worker_index_def)
    then show ?thesis
      by (simp add: wk_heartbeat_def bind_op_def) (auto simp: sql_count_def filter_empty_conv)
  qed
  have "workers_violation (ns_names s) (workers s) = None" using assms(1) by (simp add: wf_db_def)
  then have old: "distinct (map kr_worker_id (workers s))" "distinct (map worker_key (filter in_worker_index (workers s)))"
    "\<forall>x\<in>set (workers s). kr_namespace x \<in> set (ns_names s)"
    by (auto simp: workers_violation_None)
  have notin: "\<not> in_worker_index r"
    using assms(3) by (simp add: in_worker_index_def worker_online_text_def)
  have keys: "distinct (map worker_key (filter in_worker_index (map (\<lambda>x. if x = r then ?d r else x) (workers s))))"
    using old(2) old(1) [unfolded distinct_map] assms(2,4) notin
    by (intro distinct_replace_one) (auto simp: worker_key_def)
  have "workers_violation (ns_names s) (map (\<lambda>x. if x = r then ?d r else x) (workers s)) = None"
    unfolding workers_violation_None
  proof (intro conjI)
    have "map kr_worker_id (map (\<lambda>x. if x = r then ?d r else x) (workers s)) = map kr_worker_id (workers s)"
      by simp
    then show "distinct (map kr_worker_id (map (\<lambda>x. if x = r then ?d r else x) (workers s)))"
      using old(1) by presburger
    show "distinct (map worker_key (filter in_worker_index (map (\<lambda>x. if x = r then ?d r else x) (workers s))))"
      by (rule keys)
    show "\<forall>x\<in>set (map (\<lambda>x. if x = r then ?d r else x) (workers s)). kr_namespace x \<in> set (ns_names s)"
      using old(3) assms(2) by auto
  qed
  then have drain: "wk_start_drain (kr_worker_id r) (kr_namespace r) s
      = (Inr (), s\<lparr>workers := map (\<lambda>x. if x = r then ?d r else x) (workers s)\<rparr>)"
    by (simp add: wk_start_drain_def update_workers_def rs put_workers_def)
  have wf': "wf_db (snd (wk_start_drain (kr_worker_id r) (kr_namespace r) s))"
    by (rule keepsD [OF keeps_worker_updates(2) assms(1)])
  have "\<exists>x\<in>set (workers (snd (wk_start_drain (kr_worker_id r) (kr_namespace r) s))).
      kr_worker_id x = kr_worker_id r \<and> kr_status x \<noteq> show_worker_status WkOffline"
    unfolding drain using assms(2) by (intro bexI [of _ "?d r"]) auto
  moreover have "\<not> (\<exists>x\<in>set (workers s). kr_worker_id x = kr_worker_id r \<and> kr_status x \<noteq> show_worker_status WkOffline)"
    using u assms(3) by auto
  ultimately show ?thesis using hb [OF assms(1)] hb [OF wf'] by simp
qed

lemma drain_revives_offline_worker_witness:
  "fst (wk_heartbeat 2000000 71 demo_workers_db) = Inr False
     \<and> fst (wk_heartbeat 2000000 71 (snd (wk_start_drain 71 ''default'' demo_workers_db))) = Inr True"
proof -
  let ?r = "demo_worker\<lparr>kr_worker_id := 71, kr_pid := Some 13,
     kr_status := show_worker_status WkOffline, kr_deregistered_at := Some 900000\<rparr>"
  have "?r \<in> set (workers demo_workers_db)" by (simp add: demo_workers_db_def)
  moreover have "\<forall>x\<in>set (workers demo_workers_db). in_worker_index x \<longrightarrow> worker_key x \<noteq> worker_key ?r"
    by code_simp
  ultimately show ?thesis
    using drain_revives_offline_worker [OF demo_workers_wf, of ?r 2000000] by (simp add: demo_worker_def)
qed

end
