(* ===== verification/ServerCorrect.thy ===== *)
theory ServerCorrect
  imports ServerSteps StepCorrect RegistryCorrect
begin

text \<open>
  What clients see: page tokens, starting and terminating workflows, and any number of requests. A
  concrete environment, with decimal text for \<open>Uuid\<close>s and the bytes themselves for Base64,
  shows that the laws of \<open>env_ok\<close> can hold.
\<close>

subsection \<open>A concrete environment\<close>

lemma show_nat_ascii: "ascii (show_nat n)"
  unfolding ascii_def list_all_iff using show_nat_chars digit_chars by blast

lemma demo_env_ok: "env_ok demo_env"
proof -
  have "parse_uuid_str demo_env (show_uuid demo_env u) = Some u" for u
  proof -
    have "unat u < 2 ^ 128" using unsigned_less [of u, where 'a = nat] by simp
    then show ?thesis by (simp add: demo_env_def parse_nat_def parse_show_nat)
  qed
  moreover have "bytes_of_string (string_of_bytes b) = b" for b
  proof -
    have "word_of_nat (unat x mod 256) = x" for x :: "8 word" using unsigned_less [of x, where 'a = nat] by simp
    then show ?thesis by (simp add: bytes_of_string_def string_of_bytes_def o_def map_idI)
  qed
  ultimately show ?thesis by (simp add: env_ok_def demo_env_def show_nat_ascii string_of_bytes_def)
qed

subsection \<open>Reads at the start of a request\<close>

lemma decoded: "map_sum id Some x = Inr (Some w) \<longleftrightarrow> x = Inr w"
  by (cases x) auto

lemma after_read:
  assumes "keeps (\<lambda>x. x = s) m" and "Q s" and "\<And>a. m s = (Inr a, s) \<Longrightarrow> Q (snd (f a s))"
  shows "Q (snd (bind_op m f s))"
proof (cases "m s")
  case (Pair r s1)
  then have "s1 = s" using keepsD [OF assms(1), of s] by simp
  then show ?thesis using Pair assms(2,3) by (cases r) auto
qed

lemma after_call:
  assumes "Q (snd (m s))" and "\<And>a. keeps Q (f a)"
  shows "Q (snd (bind_op m f s))"
  using assms by (cases "m s"; cases "fst (m s)") (auto simp: keeps_def)

lemma snd_call_store [simp]: "snd (call_store m s) = snd (m s)"
  by (cases "m s"; cases "fst (m s)") auto

subsection \<open>Page tokens\<close>

lemma decode_encode:
  assumes "env_ok E" and "- (2 ^ 63) \<le> ms" and "ms < 2 ^ 63"
  shows "decode_cursor E (encode_cursor E ms i)
     = (if millis_ok E ms then Inr (ms * 1000, i) else Inl bad_token)"
proof -
  have "CHR '':'' \<notin> set (show_int ms)" using show_int_chars by blast
  then have s: "split_colon (show_int ms @ '':'' @ show_uuid E i) = (show_int ms, Some (show_uuid E i))"
    by (rule split_colon_append)
  have "ascii (show_uuid E i)" using assms(1) by (simp add: env_ok_def)
  then have "ascii (show_int ms @ '':'' @ show_uuid E i)"
    using show_int_chars [of _ ms] by (auto simp: ascii_def list_all_iff)
  then have "from_utf8 (bytes_of_string (show_int ms @ '':'' @ show_uuid E i))
      = Some (show_int ms @ '':'' @ show_uuid E i)" by (rule ascii_from_utf8)
  then show ?thesis
    using assms s by (simp add: decode_cursor_def encode_cursor_def env_ok_def parse_show_int)
qed

text \<open>A page token decodes to the cursor it was made from, to the millisecond: the \<open>Uuid\<close> comes back exactly,
  the time truncated to a multiple of a millisecond.\<close>

theorem page_token_round_trip:
  assumes "env_ok E" and "millis_ok E (timestamp_millis t)"
    and "- (2 ^ 63) \<le> timestamp_millis t" and "timestamp_millis t < 2 ^ 63"
  shows "decode_cursor E (encode_cursor E (timestamp_millis t) i) = Inr (t - t mod 1000, i)"
  using decode_encode [OF assms(1,3,4)] assms(2)
  by (simp add: timestamp_millis_def minus_mod_eq_div_mult)

lemma page_token_round_trip_witness:
  "decode_cursor demo_env (encode_cursor demo_env (timestamp_millis 1700000000123456) 7)
     = Inr (1700000000123456 - 1700000000123456 mod 1000, 7)"
  by (rule page_token_round_trip [OF demo_env_ok]) (simp_all add: demo_env_def timestamp_millis_def)

lemma next_token_page_cursor:
  assumes "env_ok E" and "millis_ok E (timestamp_millis t)"
    and "- (2 ^ 63) \<le> timestamp_millis t" and "timestamp_millis t < 2 ^ 63"
  shows "page_cursor E (next_token E (Some (t, i))) = Inr (Some (t - t mod 1000, i))"
proof -
  let ?tok = "encode_cursor E (timestamp_millis t) i"
  have dec: "decode_cursor E ?tok = Inr (t - t mod 1000, i)"
    using decode_encode [OF assms(1,3,4)] assms(2) by (simp add: timestamp_millis_def minus_mod_eq_div_mult)
  have "?tok \<noteq> []"
    using assms(1) by (auto simp: encode_cursor_def env_ok_def bytes_of_string_def)
  then show ?thesis using dec by (simp add: page_cursor_def next_token_def)
qed

lemma show_uuid_inj: "env_ok E \<Longrightarrow> show_uuid E a = show_uuid E b \<Longrightarrow> a = b"
  by (metis env_ok_def option.inject)

text \<open>C38: The pages of \<open>ListWorkflows\<close> can skip runs. The token keeps the creation time of the last run only to
  the millisecond, so no later page shows a run created in that millisecond after its first microsecond,
  although such runs are older than the last one shown. (In the witness the first page shows one run of
  four, says that there are more, and the next page is empty.)\<close>

theorem page_token_skips_rows:
  assumes "env_ok E" and "millis_ok E (timestamp_millis t)"
    and "- (2 ^ 63) \<le> timestamp_millis t" and "timestamp_millis t < 2 ^ 63"
    and "wf_db s" and "pg_page_token p = next_token E (Some (t, i))"
    and "wv_list_workflows E now ns st (Some p) s = (Inr resp, s')"
    and "r \<in> set (runs s)" and "t - t mod 1000 < wr_created_at r"
  shows "show_uuid E (wr_run_id r) \<notin> px_run_id ` set (ps_items resp)"
proof
  note cur = next_token_page_cursor [OF assms(1-4), of i]
  assume "show_uuid E (wr_run_id r) \<in> px_run_id ` set (ps_items resp)"
  then obtain w where w: "w \<in> set (ps_items resp)" "px_run_id w = show_uuid E (wr_run_id r)" by auto
  obtain ps res s1 where l: "wf_list ps s = (Inr res, s1)" "lw_cursor ps = Some (t - t mod 1000, i)"
    and it: "collect_results (map (workflow_to_proto E now) (pr_items res)) = Inr (ps_items resp)"
    using assms(7) cur by (auto simp: wv_list_workflows_def success assms(6) Let_def)
  obtain m where m: "m \<in> set (pr_items res)" "workflow_to_proto E now m = Inr w"
    using collected [OF it w(1)] by blast
  obtain x q where x: "x \<in> set (runs s)" "run_into_model (x, q) = Inr m"
    "after_cursor newest_first run_cursor (lw_cursor ps) (x, q)"
    using list_items [OF l(1) m(1)] by blast
  have "wr_run_id x = wr_run_id r"
    using w(2) m(2) model_fields(1) [OF x(2)] show_uuid_inj [OF assms(1)]
    by (auto simp: workflow_to_proto_def)
  then have "x = r" using run_unique [OF assms(5) x(1) assms(8)] by simp
  then show False
    using x(3) assms(9) by (auto simp: l(2) after_cursor_def newest_first_def run_cursor_def)
qed

definition first_page :: "int \<Rightarrow> page_request" where
  "first_page n = \<lparr>pg_page_size = n, pg_page_token = [], pg_include_total_count = False\<rparr>"

lemma page_token_skips_rows_witness:
  "map_sum (\<lambda>e. ()) (\<lambda>resp. (map px_run_id (ps_items resp), ps_has_more resp, ps_next_page_token resp))
       (fst (wv_list_workflows demo_env 0 ''default'' None (Some (first_page 1)) demo_db))
     = Inr ([''1''], True, next_token demo_env (Some (100, 1)))
   \<and> (\<exists>resp s'. wv_list_workflows demo_env 0 ''default'' None
        (Some ((first_page 1)\<lparr>pg_page_token := next_token demo_env (Some (100, 1))\<rparr>)) demo_db = (Inr resp, s')
      \<and> show_uuid demo_env (wr_run_id demo_running) \<notin> px_run_id ` set (ps_items resp))"
proof
  show "map_sum (\<lambda>e. ()) (\<lambda>resp. (map px_run_id (ps_items resp), ps_has_more resp, ps_next_page_token resp))
       (fst (wv_list_workflows demo_env 0 ''default'' None (Some (first_page 1)) demo_db))
     = Inr ([''1''], True, next_token demo_env (Some (100, 1)))"
    by code_simp
next
  let ?p = "(first_page 1)\<lparr>pg_page_token := next_token demo_env (Some (100, 1))\<rparr>"
  have "map_sum (\<lambda>e. ()) (\<lambda>resp. map px_run_id (ps_items resp))
      (fst (wv_list_workflows demo_env 0 ''default'' None (Some ?p) demo_db)) = Inr []"
    by code_simp
  then obtain resp where "fst (wv_list_workflows demo_env 0 ''default'' None (Some ?p) demo_db) = Inr resp"
    by (cases "fst (wv_list_workflows demo_env 0 ''default'' None (Some ?p) demo_db)") auto
  then obtain s' where l: "wv_list_workflows demo_env 0 ''default'' None (Some ?p) demo_db = (Inr resp, s')"
    by (metis prod.collapse)
  have "demo_running \<in> set (runs demo_db)" by (simp add: demo_db_def)
  then have "show_uuid demo_env (wr_run_id demo_running) \<notin> px_run_id ` set (ps_items resp)"
    by (intro page_token_skips_rows [OF demo_env_ok _ _ _ demo_wf _ l, of 100 1])
      (simp_all add: demo_env_def timestamp_millis_def demo_running_def run_defaults_def)
  with l show "\<exists>resp s'. wv_list_workflows demo_env 0 ''default'' None (Some ?p) demo_db = (Inr resp, s')
      \<and> show_uuid demo_env (wr_run_id demo_running) \<notin> px_run_id ` set (ps_items resp)" by blast
qed

interpretation by_cursor: keyset "(<) :: cursor \<Rightarrow> cursor \<Rightarrow> bool"
  by unfold_locales auto

lemma step_list_one:
  assumes wf: "wf_db s" and r: "r \<in> set (steps s)" "step_filter ps r" "step_into_model r = Inr m"
    and r': "r' \<in> set (steps s)" "step_filter ps r'" "step_cursor r < step_cursor r'"
    and cur: "ls_cursor ps = Some (t, i)" "(t, i) < step_cursor r" and size: "ls_page_size ps = 1"
    and gap: "\<And>x. x \<in> set (steps s) \<Longrightarrow> step_filter ps x \<Longrightarrow> step_cursor x < step_cursor r
                \<Longrightarrow> \<not> (t, i) < step_cursor x"
  shows "st_list ps s = (Inr \<lparr>pr_items = [m], pr_next_cursor = Some (step_cursor r), pr_has_more = True\<rparr>, s)"
proof -
  let ?hit = "\<lambda>x. step_filter ps x \<and> after_cursor (<) step_cursor (ls_cursor ps) x"
  let ?found = "order_by (<) step_cursor (filter ?hit (steps s))"
  have hit: "r \<in> set (filter ?hit (steps s))" "r' \<in> set (filter ?hit (steps s))"
    using r r' cur by (auto simp: after_cursor_def intro: order.strict_trans)
  then have hits: "r \<in> set ?found" "r' \<in> set ?found" by simp_all
  obtain x xs where x: "?found = x # xs" using hits(1) by (cases ?found) auto
  have in_x: "x \<in> set (filter ?hit (steps s))" and ge: "\<not> step_cursor r < step_cursor x"
    using by_cursor.order_by_hd_least [OF x] hit(1) by blast+
  have le: "\<not> step_cursor x < step_cursor r"
  proof
    assume "step_cursor x < step_cursor r"
    then have "\<not> (t, i) < step_cursor x" using gap in_x by simp
    then show False using in_x cur(1) by (simp add: after_cursor_def)
  qed
  have "step_cursor x = step_cursor r" using by_cursor.total ge le by blast
  then have "sr_attempt_id x = sr_attempt_id r" "x \<in> set (steps s)" using in_x by (simp_all add: step_cursor_def)
  then have xr: "x = r"
    using wf r(1) by (auto simp: wf_db_def steps_violation_None distinct_map inj_on_def)
  obtain y ys where xs: "xs = y # ys" using hits(2) x xr r'(3) by (cases xs) auto
  have "s_created_at m = Some (sr_created_at r)" "s_attempt_id m = sr_attempt_id r"
    using r(3) by (auto simp: step_into_model_def split: option.splits)
  then show ?thesis
    using x xs xr r(3) size
    by (simp add: st_list_def Let_def sql_limit_def as_i64_id step_cursor_def res_bind_def)
qed


text \<open>The pages of \<open>ListSteps\<close> can repeat forever. Steps are listed oldest first, so a token cut to the
  millisecond points before the step it was made from: with pages of one step, a step that is the first
  of its run in its millisecond and has a successor is answered again, with \<open>has_more\<close> and with the very
  token of the request.\<close>

theorem step_pages_never_end:
  assumes "env_ok E" and "millis_ok E (timestamp_millis t)"
    and "- (2 ^ 63) \<le> timestamp_millis t" and "timestamp_millis t < 2 ^ 63"
    and "wf_db s" and "parse_uuid_str E run = Some (wr_run_id w)" and "w \<in> set (runs s)"
    and "{r, r'} \<subseteq> set (filter (\<lambda>x. sr_run_id x = wr_run_id w \<and> sr_namespace x = wr_namespace w) (steps s))"
    and "step_cursor r = (t, i)" and "t mod 1000 \<noteq> 0" and "step_cursor r < step_cursor r'"
    and "step_into_model r = Inr m" and "step_to_proto E m = Inr x"
    and "list_all (\<lambda>x. sr_created_at x < t - t mod 1000 \<or> \<not> step_cursor x < step_cursor r) (steps s)"
    and "pg_page_size p = 1" and "pg_page_token p = next_token E (Some (t, i))"
  shows "av_list_steps E run None (Some p) s = (Inr \<lparr>ps_items = [x],
     ps_next_page_token = pg_page_token p, ps_has_more = True, ps_total_count = 0\<rparr>, s)"
proof -
  let ?ps = "\<lparr>ls_run_id = wr_run_id w, ls_namespace = wr_namespace w, ls_step_id = None, ls_page_size = 1,
     ls_cursor = Some (t - t mod 1000, i)\<rparr>"
  have ns: "wf_get_namespace (wr_run_id w) s = (Inr (Some (wr_namespace w)), s)"
    using runs_tbl.find_key [OF wf_db_runs [OF assms(5)] assms(7)] by (simp add: wf_get_namespace_def)
  have "0 < t mod 1000" using assms(10) pos_mod_sign [of 1000 t] by linarith
  then have lt: "(t - t mod 1000, i) < step_cursor r" by (simp add: assms(9))
  have "st_list ?ps s = (Inr \<lparr>pr_items = [m], pr_next_cursor = Some (step_cursor r), pr_has_more = True\<rparr>, s)"
    using assms(8,14)
    by (intro step_list_one [OF assms(5) _ _ assms(12) _ _ assms(11) _ lt])
      (auto simp: step_filter_def list_all_iff step_cursor_def)
  then show ?thesis
    using assms(6,13,15,16) ns next_token_page_cursor [OF assms(1-4), of i]
    by (simp add: av_list_steps_def parse_id_def require_some_def step_page_size_def given_def assms(9))
qed


definition demo_step_row :: "timestamp \<Rightarrow> uuid \<Rightarrow> string \<Rightarrow> step_row" where
  "demo_step_row t i name = (step_defaults t i 2 name SkFunction SsCompleted)\<lparr>sr_namespace := ''default''\<rparr>"

definition demo_pages_db :: db where
  "demo_pages_db = demo_db\<lparr>steps := [demo_step_row 2500 50 ''charge'', demo_step_row 3700 51 ''ship'']\<rparr>"

definition demo_step_page :: page_request where
  "demo_step_page = \<lparr>pg_page_size = 1, pg_page_token = next_token demo_env (Some (2500, 50)),
     pg_include_total_count = False\<rparr>"

lemma step_pages_never_end_witness:
  "\<exists>x. py_step_id x = ''charge'' \<and> av_list_steps demo_env ''2'' None (Some demo_step_page) demo_pages_db
     = (Inr \<lparr>ps_items = [x], ps_next_page_token = pg_page_token demo_step_page, ps_has_more = True,
             ps_total_count = 0\<rparr>, demo_pages_db)"
proof -
  let ?r = "demo_step_row 2500 50 ''charge''" and ?r' = "demo_step_row 3700 51 ''ship''"
  have wf: "wf_db demo_pages_db" by code_simp
  have w: "demo_running \<in> set (runs demo_pages_db)" by (simp add: demo_pages_db_def demo_db_def)
  have p: "parse_uuid_str demo_env ''2'' = Some (wr_run_id demo_running)"
    by (simp add: demo_env_def parse_nat_def digit_def demo_running_def run_defaults_def)
  obtain m where m: "step_into_model ?r = Inr m" "s_step_id m = ''charge''"
    by (simp add: step_into_model_def demo_step_row_def step_defaults_def)
  obtain x where x: "step_to_proto demo_env m = Inr x" "py_step_id x = ''charge''"
    using m(2) by (simp add: step_to_proto_def)
  have "av_list_steps demo_env ''2'' None (Some demo_step_page) demo_pages_db
     = (Inr \<lparr>ps_items = [x], ps_next_page_token = pg_page_token demo_step_page, ps_has_more = True,
             ps_total_count = 0\<rparr>, demo_pages_db)"
    by (rule step_pages_never_end [OF demo_env_ok _ _ _ wf p w _ _ _ _ m(1) x(1), of 2500 ?r' 50])
      (simp_all add: demo_env_def timestamp_millis_def demo_pages_db_def demo_step_page_def
        demo_step_row_def step_defaults_def step_cursor_def demo_running_def run_defaults_def)
  then show ?thesis using x(2) by blast
qed

subsection \<open>Starting and terminating\<close>

lemma get_or_create_known:
  assumes "ns \<in> set (ns_names s)"
  obtains r where "np_get_or_create now i ns s = (Inr r, s)"
proof -
  have "find_namespace ns s \<noteq> None"
    using assms by (auto simp: find_namespace_def find_None_iff)
  then show ?thesis using that by (auto simp: np_get_or_create_def np_find_by_id_def)
qed

lemma start_exact:
  assumes "wf_db s" and "sq_namespace req \<in> set (ns_names s)" and "u 1 \<notin> set (run_ids s)"
    and "sq_external_id req \<noteq> [] \<and> sq_task_queue req \<noteq> [] \<and> sq_workflow_type req \<noteq> []
       \<and> sq_namespace req \<noteq> []"
    and "length (payload_to_bytes (sq_input req)) \<le> payload_max_size_bytes cfg"
  shows "wv_start_workflow E cfg t u req s =
     (case List.find (\<lambda>r. is_active r \<and> active_key r = (sq_namespace req, sq_external_id req)) (runs s) of
        Some r \<Rightarrow> (Inr (show_uuid E (wr_run_id r), True), s)
      | None \<Rightarrow> (Inr (show_uuid E (u 1), False), s\<lparr>
          runs := runs s @ [new_run (t 1) (start_params (u 1) req)],
          payloads := payloads s @ [\<lparr>pl_run_id = u 1, pl_input = payload_to_bytes (sq_input req),
                                     pl_output = None\<rparr>]\<rparr>))"
proof -
  let ?dup = "\<lambda>r. is_active r \<and> active_key r = (sq_namespace req, sq_external_id req)"
  obtain n where ns: "np_get_or_create (t 0) (u 0) (sq_namespace req) s = (Inr n, s)"
    using get_or_create_known [OF assms(2)] by blast
  have create: "wf_create cfg (t 1) (start_params (u 1) req) s =
     (if list_ex ?dup (runs s) then (Inl (Conflict (PgText ''uq_active_workflow'')), s)
      else (Inr (u 1), s\<lparr>runs := runs s @ [new_run (t 1) (start_params (u 1) req)],
          payloads := payloads s @ [\<lparr>pl_run_id = u 1, pl_input = payload_to_bytes (sq_input req),
                                     pl_output = None\<rparr>]\<rparr>))"
    using create_run [OF assms(1), of "start_params (u 1) req" cfg "t 1"] assms(2,3,5)
    by (simp add: start_params_def)
  have found: "wf_find_active_by_external_id (sq_namespace req) (sq_external_id req) s
     = (Inr (map_option wr_run_id (List.find ?dup (runs s))), s)"
    unfolding wf_find_active_by_external_id_def get_op_simp
    by (simp add: is_active_def active_text_def active_key_def conj_ac)
  have ex: "list_ex ?dup (runs s) \<longleftrightarrow> List.find ?dup (runs s) \<noteq> None"
    by (simp only: find_None_iff list_ex_iff) blast
  note run = wv_start_workflow_def require_non_empty_def match_op_def require_some_def
  show ?thesis
  proof (cases "List.find ?dup (runs s)")
    case None
    then show ?thesis using assms(4) ns create ex by (simp add: run del: One_nat_def)
  next
    case (Some r)
    then show ?thesis using assms(4) ns create ex found by (simp add: run del: One_nat_def)
  qed
qed

text \<open>C18: Starting a workflow is idempotent on its external id: when the namespace has a run with this id
  that is not finished, the call answers the id of that run with \<open>already_exists\<close> and changes nothing;
  otherwise it adds one PENDING run with the parameters of the request, and its payload.\<close>

theorem start_is_idempotent:
  assumes "wf_db s" and "sq_namespace req \<in> set (ns_names s)" and "u 1 \<notin> set (run_ids s)"
    and "sq_external_id req \<noteq> [] \<and> sq_task_queue req \<noteq> [] \<and> sq_workflow_type req \<noteq> []
       \<and> sq_namespace req \<noteq> []"
    and "length (payload_to_bytes (sq_input req)) \<le> payload_max_size_bytes cfg"
  shows "wv_start_workflow E cfg t u req s =
     (case List.find (\<lambda>r. is_active r \<and> active_key r = (sq_namespace req, sq_external_id req)) (runs s) of
        Some r \<Rightarrow> (Inr (show_uuid E (wr_run_id r), True), s)
      | None \<Rightarrow> (Inr (show_uuid E (u 1), False), s\<lparr>
          runs := runs s @ [new_run (t 1) (start_params (u 1) req)],
          payloads := payloads s @ [\<lparr>pl_run_id = u 1, pl_input = payload_to_bytes (sq_input req),
                                     pl_output = None\<rparr>]\<rparr>))"
  using assms by (rule start_exact)

definition demo_start :: start_request where
  "demo_start = \<lparr>sq_external_id = ''order-2'', sq_task_queue = ''q'', sq_workflow_type = ''Order'',
     sq_input = None, sq_namespace = ''default'', sq_version = [], sq_retry_policy = None\<rparr>"

lemma start_is_idempotent_witness:
  "wv_start_workflow demo_env demo_cfg (\<lambda>k. 2000) (\<lambda>k. 70) demo_start demo_db
     = (Inr (show_uuid demo_env 2, True), demo_db)"
proof -
  have "List.find (\<lambda>r. is_active r
       \<and> active_key r = (sq_namespace demo_start, sq_external_id demo_start)) (runs demo_db) = Some demo_running"
    by code_simp
  moreover have "wr_run_id demo_running = 2" by code_simp
  ultimately show ?thesis
    by (subst start_is_idempotent [OF demo_wf]) (code_simp | simp add: demo_start_def payload_to_bytes_def)+
qed

text \<open>Terminating a workflow fails the RUNNING run with the given id, whatever namespace the caller
  names, and answers "terminated, FAILED" also when the run is waiting, finished or does not exist.\<close>

theorem terminate_ignores_namespace:
  assumes "wf_db s" and "parse_uuid_str E run = Some i" and "ns \<noteq> []"
  shows "wv_terminate_workflow E now run ns reason s
     = (Inr (True, PwFailed), s\<lparr>runs := map (\<lambda>r. if running_row i r then set_failed now reason r else r) (runs s)\<rparr>)"
  using fail_run(1) [OF assms(1), of now i reason] assms(2,3)
  by (simp add: wv_terminate_workflow_def parse_run_id_def require_non_empty_def sql_update_def)

lemma terminate_ignores_namespace_witness:
  "wv_terminate_workflow demo_env 2000 ''2'' ''elsewhere'' ''stop'' demo_db
     = (Inr (True, PwFailed), demo_db\<lparr>runs := [demo_waiting, set_failed 2000 ''stop'' demo_running,
          demo_done, demo_template]\<rparr>)"
proof -
  have "map (\<lambda>r. if running_row 2 r then set_failed 2000 ''stop'' r else r) (runs demo_db)
      = [demo_waiting, set_failed 2000 ''stop'' demo_running, demo_done, demo_template]" by code_simp
  moreover have "parse_uuid_str demo_env ''2'' = Some 2"
    by (simp add: demo_env_def parse_nat_def digit_def)
  ultimately show ?thesis
    using terminate_ignores_namespace [OF demo_wf, of demo_env "''2''" 2 "''elsewhere''" 2000 "''stop''"] by simp
qed

subsection \<open>Any number of requests\<close>



end
