(* ===== verification/StepMemory.thy ===== *)
theory StepMemory
  imports StepCorrect StoreSteps
begin

text \<open>
  What becomes of the memory of steps while anything may happen in the system: the result of a completed step stays,
  whatever calls are made by whomever, unless the step itself is reported as failed afterwards
  (\<open>late_fail_forgets_result\<close>) or a user has named it like an event of the lifecycle.
\<close>

subsection \<open>Calls about another step\<close>

lemma other_step_statements:
  assumes "\<And>r. P r \<Longrightarrow> \<not> latest_of i k r \<and> \<not> latest_of i k (f r)"
  shows "keeps (\<lambda>s. find_latest i k s = L) (update_steps P f)"
    and "keeps (\<lambda>s. find_latest i k s = L) (update_steps_count P f)"
proof -
  have find: "List.find (latest_of i k) (sql_update P f rs) = List.find (latest_of i k) rs" for rs
    using assms by (induction rs) (auto simp: sql_update_def)
  then show "keeps (\<lambda>s. find_latest i k s = L) (update_steps P f)"
    by (auto simp: keeps_def update_steps_def put_steps_def find_latest_def split: option.splits)
  then show "keeps (\<lambda>s. find_latest i k s = L) (update_steps_count P f)"
    by (auto simp: keeps_def update_steps_count_def bind_op_def split: prod.splits sum.splits)
qed

lemma other_step_insert:
  assumes "(sr_run_id r, sr_step_id r) \<noteq> (i, k)"
  shows "keeps (\<lambda>s. find_latest i k s = L) (insert_step_row r)"
proof -
  have "List.find (latest_of i k) (rs @ [r\<lparr>sr_attempt_number := n, sr_namespace := ns\<rparr>]) = List.find (latest_of i k) rs"
    for rs n ns
    using assms by (induction rs) (auto simp: latest_of_def)
  then show ?thesis
    by (auto simp: keeps_def insert_step_row_def put_steps_def find_latest_def split: option.splits)
qed

lemma other_step_methods:
  "(bs_run_id p, bs_step_id p) \<noteq> (i, k) \<Longrightarrow> keeps (\<lambda>s. find_latest i k s = L) (st_begin cfg now n p)"
  "(run, step) \<noteq> (i, k) \<Longrightarrow> keeps (\<lambda>s. find_latest i k s = L) (st_complete cfg now n run step out)"
  "(fs_run_id fp, fs_step_id fp) \<noteq> (i, k) \<Longrightarrow> keeps (\<lambda>s. find_latest i k s = L) (st_fail bo now n fp)"
  "(run, lifecycle_step_id kind) \<noteq> (i, k)
    \<Longrightarrow> keeps (\<lambda>s. find_latest i k s = L) (st_record_lifecycle_event cfg now n run kind lout)"
  unfolding st_begin_def st_complete_def st_fail_def fail_permanently_def st_record_lifecycle_event_def
    insert_step_result_def clear_latest_def Let_def
  by (intro keeps_rules other_step_statements other_step_insert;
      auto simp: latest_of_def running_latest_def completed_step_def failed_step_def step_defaults_def)+

subsection \<open>Calls about the step\<close>

lemma begin_remembers:
  assumes "wf_db s" and "step_known ik s = Some v"
  shows "step_known ik (snd (st_begin cfg now n p s)) = Some v"
proof (cases "st_begin cfg now n p s")
  case (Pair r s')
  show ?thesis
  proof (cases r)
    case (Inl e)
    then show ?thesis using st_begin_rollback [of cfg now n p s e s'] Pair assms(2) by simp
  next
    case (Inr b)
    then show ?thesis using begin_result(3) [OF assms(1), of cfg now n p b s' ik] Pair assms(2) by simp
  qed
qed

lemma complete_remembers:
  assumes "wf_db s" and "step_known ik s = Some v"
  shows "step_known ik (snd (st_complete cfg now n i k out s)) = Some v"
proof (cases "st_complete cfg now n i k out s")
  case (Pair r s')
  show ?thesis
  proof (cases r)
    case (Inl e)
    then show ?thesis using st_complete_rollback [of cfg now n i k out s e s'] Pair assms(2) by simp
  next
    case (Inr z)
    then have c: "st_complete cfg now n i k out s = (Inr (), s')" using Pair by simp
    show ?thesis
    proof (cases "ik = (i, k)")
      case True
      then show ?thesis using complete_result(1) [OF assms(1) c] assms(2) c by simp
    next
      case False
      then show ?thesis using complete_result(3) [OF assms(1) c] assms(2) c by simp
    qed
  qed
qed

text \<open>A sleep that is over is not RUNNING, so that ending the pending sleeps passes it by.\<close>

lemma sleeps_remember:
  assumes "wf_db s" and "step_known (i, k) s = Some v"
  shows "step_known (i, k) (snd (st_complete_pending_sleeps now run s)) = Some v"
proof -
  obtain r where r: "find_latest i k s = Some r" "sr_status r = show_step_status SsCompleted" "sr_output r = v"
    using assms(2) by (auto simp: step_known_def split: option.splits if_splits)
  then have "\<not> pending_sleep run r" by (simp add: pending_sleep_def)
  then show ?thesis
    using update_latest_steps(1,3) [OF assms(1), where P = "pending_sleep run"
        and f = "\<lambda>r. r\<lparr>sr_status := show_step_status SsCompleted, sr_finished_at := Some now\<rparr>"] r
    by (simp add: st_complete_pending_sleeps_def step_known_def step_key_def)
qed

subsection \<open>Calls that remember\<close>

text \<open>One call of anyone that does not report one of the steps \<open>K\<close> of the run \<open>i\<close> as failed.\<close>

inductive memory_step :: "store_config \<Rightarrow> uuid \<Rightarrow> string set \<Rightarrow> db \<Rightarrow> db \<Rightarrow> bool"
  for cfg :: store_config and i :: uuid and K :: "string set" where
  begins: "memory_step cfg i K s (snd (st_begin cfg now n bp s))"
| completes: "memory_step cfg i K s (snd (st_complete cfg now n run k out s))"
| fails: "fs_run_id fp \<noteq> i \<or> fs_step_id fp \<notin> K \<Longrightarrow> memory_step cfg i K s (snd (st_fail bo now n fp s))"
| ends_sleeps: "memory_step cfg i K s (snd (st_complete_pending_sleeps now run s))"
| records: "run \<noteq> i \<or> lifecycle_step_id kind \<notin> K
    \<Longrightarrow> memory_step cfg i K s (snd (st_record_lifecycle_event cfg now n run kind lout s))"
| elsewhere: "store_step cfg s s' \<Longrightarrow> steps s' = steps s \<Longrightarrow> memory_step cfg i K s s'"

lemma step_known_steps: "steps s' = steps s \<Longrightarrow> step_known ik s' = step_known ik s"
  by (cases ik) (simp add: step_known_def find_latest_def)

lemma memory_step_is_call: "memory_step cfg i K s s' \<Longrightarrow> store_step cfg s s'"
  by (cases rule: memory_step.cases) (auto intro: store_step.intros)

lemma memory_step_remembers:
  assumes "memory_step cfg i K s s'" and "wf_db s" and "k \<in> K" and "step_known (i, k) s = Some v"
  shows "step_known (i, k) s' = Some v"
  using assms(1)
proof (cases rule: memory_step.cases)
  case (fails fp bo now n)
  then have "(fs_run_id fp, fs_step_id fp) \<noteq> (i, k)" using assms(3) by auto
  then have "find_latest i k s' = find_latest i k s"
    using keepsD [OF other_step_methods(3) refl] fails(1) by simp
  then show ?thesis using assms(4) by (simp add: step_known_def)
next
  case (records run kind now n lout)
  then have "(run, lifecycle_step_id kind) \<noteq> (i, k)" using assms(3) by auto
  then have "find_latest i k s' = find_latest i k s"
    using keepsD [OF other_step_methods(4) refl] records(1) by simp
  then show ?thesis using assms(4) by (simp add: step_known_def)
next
  case elsewhere
  then show ?thesis using step_known_steps assms(4) by metis
qed (simp_all add: begin_remembers complete_remembers sleeps_remember assms)

text \<open>Every call is one of these but for the reports.\<close>

interpretation runs_beside_steps: runs_frame "\<lambda>s. steps s = S"
  by unfold_locales simp_all

interpretation workers_beside_steps: workers_frame "\<lambda>s. steps s = S"
  by unfold_locales simp

interpretation namespaces_beside_steps: namespaces_frame "\<lambda>s. steps s = S"
  by unfold_locales simp

lemma lifecycle_same_steps:
  assumes "lifecycle_step cfg s s'"
  shows "steps s' = steps s"
  using assms
  by (cases rule: lifecycle_step.cases)
    (simp_all only:, (rule keepsD [where I = "\<lambda>x. steps x = steps s"], rule runs_beside_steps.run_methods, rule refl)+)

lemma call_remembers_or_reports:
  assumes "store_step cfg s s'"
  shows "memory_step cfg i K s s'
    \<or> (\<exists>bo now n fp. s' = snd (st_fail bo now n fp s) \<and> fs_run_id fp = i \<and> fs_step_id fp \<in> K)
    \<or> (\<exists>now n kind out. s' = snd (st_record_lifecycle_event cfg now n i kind out s) \<and> lifecycle_step_id kind \<in> K)"
  using assms
proof (cases rule: store_step.cases)
  case drives
  then show ?thesis using elsewhere [OF assms lifecycle_same_steps] by blast
next
  case (fails bo now n fp)
  then show ?thesis using memory_step.fails by blast
next
  case (records now n run kind out)
  show ?thesis
  proof (cases "run = i \<and> lifecycle_step_id kind \<in> K")
    case True
    then show ?thesis using records by blast
  next
    case False
    then have "memory_step cfg i K s s'" unfolding records by (intro memory_step.records) blast
    then show ?thesis by blast
  qed
qed (blast intro: memory_step.begins memory_step.completes memory_step.ends_sleeps |
    (rule disjI1, rule elsewhere [OF assms], simp only:, rule keepsD [where I = "\<lambda>x. steps x = steps s"],
     rule workers_beside_steps.worker_methods namespaces_beside_steps.namespace_methods, rule refl))+

interpretation memory: governed_steps "memory_step cfg i K" wf_db
  "\<lambda>s s'. wf_db s \<longrightarrow> wf_db s' \<and> (\<forall>k\<in>K. \<forall>v. step_known (i, k) s = Some v \<longrightarrow> step_known (i, k) s' = Some v)"
proof
  show wf: "wf_db s'" if "wf_db s" "memory_step cfg i K s s'" for s s'
    using store_step_wf memory_step_is_call that by metis
  show "wf_db s \<longrightarrow> wf_db s' \<and> (\<forall>k\<in>K. \<forall>v. step_known (i, k) s = Some v \<longrightarrow> step_known (i, k) s' = Some v)"
    if "wf_db s" "memory_step cfg i K s s'" for s s'
    using wf [OF that] memory_step_remembers [OF that(2,1)] by blast
qed blast+

end
