(* ===== verification/WorkCorrect.thy ===== *)
theory WorkCorrect
  imports ServerCorrect StepMemory
begin

text \<open>
  What workers see: which tasks a poll delivers, what completing a workflow or a step does and answers.
\<close>

subsection \<open>Polling\<close>

definition held_by :: "string \<Rightarrow> string \<Rightarrow> string \<Rightarrow> string list \<Rightarrow> run_row \<Rightarrow> bool" where
  "held_by worker ns queue types r \<longleftrightarrow> wr_locked_by r = Some worker \<and> wr_status r = show_status WsRunning
     \<and> wr_namespace r = ns \<and> wr_task_queue r = queue \<and> wr_workflow_type r \<in> set types"

lemma poll_loop_delivers:
  assumes "poll_loop E cfg ws t i ns queue worker types rs s = (Inr resp, s')" and "pp_run_id resp \<noteq> []"
    and "types \<noteq> []"
  shows "\<exists>r\<in>set (runs s'). pp_run_id resp = show_uuid E (wr_run_id r)
     \<and> pp_workflow_type resp = wr_workflow_type r \<and> held_by worker ns queue types r"
  using assms(1)
proof (induction rs arbitrary: s)
  case Nil
  then show ?case using assms(2) by auto
next
  case (Cons rd rs)
  let ?s = "round_others rd s"
  let ?poll = "wf_poll_workflow (round_locked rd) (round_now rd) ns queue worker types (visibility_timeout_secs ws)"
  obtain item s1 where item: "?poll ?s = (Inr item, s1)"
    and rest: "(case item of Some c \<Rightarrow> dispatch E cfg t i c
       | None \<Rightarrow> poll_loop E cfg ws t i ns queue worker types rs) s1 = (Inr resp, s')"
    using Cons.prems by (auto simp: success)
  show ?case
  proof (cases item)
    case None
    then show ?thesis using rest Cons.IH by simp
  next
    case (Some c)
    let ?till = "round_now rd + visibility_timeout_secs ws * 1000000"
    obtain r where r: "r \<in> set (runs ?s)" "claimable (round_now rd) ns queue types r"
      and s1: "runs s1 = sql_update (\<lambda>w. wr_run_id w = wr_run_id r) (claim_run (round_now rd) worker ?till) (runs ?s)"
      and c: "cl_run_id c = wr_run_id r" "cl_workflow_type c = wr_workflow_type r"
      using item unfolding Some by (elim poll_Some) simp
    have resp: "pp_run_id resp = show_uuid E (wr_run_id r)" "pp_workflow_type resp = wr_workflow_type r"
      and "s' = snd (dispatch E cfg t i c s1)"
      using rest by (auto simp: Some dispatch_def success c)
    then have "runs s' = runs s1"
      using keepsD [of "\<lambda>s. runs s = runs s1" "dispatch E cfg t i c" s1]
      by (simp add: dispatch_def keeps_rules same_runs_steps)
    moreover let ?r = "claim_run (round_now rd) worker ?till r"
    have "?r \<in> set (runs s1)" using r(1) by (force simp: s1 in_sql_update)
    moreover have "wr_run_id ?r = wr_run_id r" "wr_workflow_type ?r = wr_workflow_type r"
      "held_by worker ns queue types ?r"
      using r(2) assms(3) by (auto simp: claim_run_def held_by_def claimable_def)
    ultimately show ?thesis using resp by (metis (no_types))
  qed
qed

text \<open>C12: A task that \<open>PollTask\<close> delivers is held by the polling worker, RUNNING, in the namespace and queue of
  the request; the worker was registered there, ONLINE, and the type of the run is one it registered and
  asked for.\<close>

theorem poll_delivers_registered_work:
  assumes "ws_poll_task E cfg ws t i rd rds req s = (Inr resp, s')" and "pp_run_id resp \<noteq> []"
  shows "\<exists>r\<in>set (runs s'). \<exists>k\<in>set (workers s). pp_run_id resp = show_uuid E (wr_run_id r)
     \<and> parse_uuid_str E (po_worker_id req) = Some (kr_worker_id k)
     \<and> kr_status k = show_worker_status WkOnline \<and> kr_namespace k = po_namespace req
     \<and> kr_task_queue k = po_task_queue req
     \<and> held_by (po_worker_id req) (po_namespace req) (po_task_queue req) (kr_workflow_types k) r
     \<and> wr_workflow_type r \<in> set (po_workflow_types req)"
proof -
  let ?types = "\<lambda>w. filter (\<lambda>ty. ty \<in> set (po_workflow_types req)) (k_workflow_types w)"
  obtain w i0 where found: "wk_find_by_id i0 s = (Inr (Some w), s)"
    "parse_uuid_str E (po_worker_id req) = Some i0"
    "k_namespace w = po_namespace req" "k_task_queue w = po_task_queue req"
    "k_status w \<noteq> WkOffline" "k_status w \<noteq> WkDraining"
    and loop: "?types w \<noteq> []" "poll_loop E cfg ws t i (po_namespace req) (po_task_queue req) (po_worker_id req)
         (?types w) (rd # rds) s = (Inr resp, s')"
    using assms(1) unfolding ws_poll_task_def wk_find_by_id_def Let_def
    by (auto simp only: success)
  obtain k where k: "k \<in> set (workers s)" "kr_worker_id k = i0" "worker_into_model k None [] = Inr w"
    using found(1) unfolding wk_find_by_id_def
    by (auto simp: success decoded split: option.splits dest!: find_Some_in)
  have "k_status w = WkOnline" using found(5,6) by (cases "k_status w") auto
  then have "kr_status k = show_worker_status WkOnline" "kr_namespace k = k_namespace w"
    "kr_task_queue k = k_task_queue w" "kr_workflow_types k = k_workflow_types w"
    using k(3) by (auto simp: worker_into_model_def split: option.splits dest: parse_worker_status_SomeD)
  moreover obtain r where "r \<in> set (runs s')" "pp_run_id resp = show_uuid E (wr_run_id r)"
    "held_by (po_worker_id req) (po_namespace req) (po_task_queue req) (?types w) r"
    using poll_loop_delivers [OF loop(2) assms(2) loop(1)] by blast
  ultimately show ?thesis
    using k found(2-4) by (intro bexI [of _ r] bexI [of _ k]) (auto simp: held_by_def)
qed

definition demo_poll :: poll_request where
  "demo_poll = \<lparr>po_worker_id = ''70'', po_namespace = ''default'', po_task_queue = ''q'',
     po_workflow_types = [''Order'', ''Report'']\<rparr>"

definition quiet_round :: "timestamp \<Rightarrow> poll_round" where
  "quiet_round now = \<lparr>round_now = now, round_locked = no_locks, round_others = id\<rparr>"

lemma poll_delivers_registered_work_witness:
  "\<exists>resp s'. ws_poll_task demo_env demo_cfg default_worker_settings (\<lambda>_. 300) 90 (quiet_round 50) [quiet_round 300]
       demo_poll demo_workers_db = (Inr resp, s') \<and> pp_run_id resp = ''1''
     \<and> (\<exists>r\<in>set (runs s'). \<exists>k\<in>set (workers demo_workers_db). show_uuid demo_env (wr_run_id r) = ''1''
          \<and> held_by ''70'' ''default'' ''q'' (kr_workflow_types k) r)"
proof -
  let ?c = "ws_poll_task demo_env demo_cfg default_worker_settings (\<lambda>_. 300) 90 (quiet_round 50) [quiet_round 300]
       demo_poll demo_workers_db"
  have "map_sum id pp_run_id (fst ?c) = Inr ''1''" by code_simp
  then obtain resp where resp: "?c = (Inr resp, snd ?c)" "pp_run_id resp = ''1''"
    by (cases "fst ?c") (auto simp: prod_eq_iff)
  have "pp_run_id resp \<noteq> []" using resp(2) by simp
  from poll_delivers_registered_work [OF resp(1) this] show ?thesis
    unfolding resp(2) using resp by (intro exI conjI) (auto simp: demo_poll_def)
qed

subsection \<open>Completing\<close>

lemma validate_open_run:
  assumes "wf_db s" and "r \<in> set (runs s)" and "wr_status r = show_status st"
  shows "validate_workflow_action (wr_run_id r) allow s =
    (if allow \<or> \<not> is_terminal st then Inr (wr_namespace r) else Inl (precondition_failed_error (FmtTerminal st)), s)"
proof -
  note tbl = wf_db_runs [OF assms(1)]
  have "List.find (\<lambda>x. wr_run_id x = wr_run_id r) (runs s) = Some r"
    "List.find (\<lambda>x. wr_run_id x = wr_run_id r \<and> wr_namespace x = wr_namespace r) (runs s) = Some r"
    using runs_tbl.find_key [OF tbl assms(2)] runs_tbl.find_key_and [OF tbl assms(2)] by auto
  then show ?thesis
    using assms(3)
    by (simp add: validate_workflow_action_def wf_get_namespace_def check_workflow_state_def require_some_def
        ensure_def)
qed

lemma event_same_payloads: "keeps (\<lambda>s. payloads s = P) (st_record_lifecycle_event cfg now i run kind out)"
proof -
  have "keeps (\<lambda>s. payloads s = P) (update_steps Q f)" "keeps (\<lambda>s. payloads s = P) (insert_step_row r)" for Q f r
    by (auto simp: keeps_def put_steps_def update_steps_def insert_step_row_def split: option.splits)
  then show ?thesis
    unfolding st_record_lifecycle_event_def clear_latest_def Let_def by (intro keeps_rules)
qed

lemma output_bytes: "(case payload_to_optional_bytes p of None \<Rightarrow> [] | Some b \<Rightarrow> b) = payload_to_bytes p"
  by (auto simp: payload_to_optional_bytes_def payload_to_bytes_def split: option.split)

text \<open>A poll by a worker that is online and asks for types it registered goes through every guard; handing out a
  task changes neither runs nor payloads.\<close>

lemma poll_task_admitted:
  assumes wf: "wf_db s" and k: "k \<in> set (workers s)" "kr_status k = show_worker_status WkOnline"
    and req: "parse_uuid_str E (po_worker_id req) = Some (kr_worker_id k)" "po_namespace req = kr_namespace k"
      "po_task_queue req = kr_task_queue k" "po_namespace req \<noteq> []"
    and types: "types = filter (\<lambda>ty. ty \<in> set (po_workflow_types req)) (kr_workflow_types k)" "types \<noteq> []"
  shows "ws_poll_task E cfg ws t i rd rds req s =
    poll_loop E cfg ws t i (po_namespace req) (po_task_queue req) (po_worker_id req) types (rd # rds) s"
proof -
  have "List.find (\<lambda>r. kr_worker_id r = kr_worker_id k) (workers s) = Some k"
    using find_worker [OF wf k(1)] by simp
  moreover have "po_workflow_types req \<noteq> []" using types by auto
  ultimately show ?thesis
    using k(2) req types
    by (simp add: ws_poll_task_def parse_id_def wk_find_by_id_def worker_into_model_def require_non_empty_def
        Let_def ensure_def require_some_def call_store_def bind_op_def map_err_op_def del: poll_loop.simps)
qed

lemma dispatch_keeps:
  assumes "wf_db s"
  shows "\<exists>s'. dispatch E cfg t i c s = (Inr \<lparr>pp_run_id = show_uuid E (cl_run_id c), pp_workflow_type = cl_workflow_type c,
             pp_input = bytes_to_payload (Some (cl_input c))\<rparr>, s')
     \<and> wf_db s' \<and> runs s' = runs s \<and> payloads s' = payloads s"
proof -
  have "keeps (\<lambda>s. payloads s = P) (st_complete_pending_sleeps now run)" for P now run
    by (auto simp: keeps_def st_complete_pending_sleeps_def update_steps_count_def bind_op_def update_steps_def put_steps_def
        split: option.splits)
  then have "keeps (\<lambda>s. payloads s = P) (dispatch E cfg t i c)" for P
    unfolding dispatch_def by (intro keeps_rules event_same_payloads)
  moreover have "keeps (\<lambda>s. runs s = R) (dispatch E cfg t i c)" for R
    unfolding dispatch_def by (intro keeps_rules same_runs_steps)
  moreover have "keeps wf_db (dispatch E cfg t i c)"
    unfolding dispatch_def by (intro keeps_rules)
  ultimately have "wf_db (snd (dispatch E cfg t i c s)) \<and> runs (snd (dispatch E cfg t i c s)) = runs s
      \<and> payloads (snd (dispatch E cfg t i c s)) = payloads s"
    using assms by (simp add: keeps_def)
  then show ?thesis
    by (auto simp: dispatch_def ignore_op_def bind_op_def)
qed

text \<open>C37: Completing a run that no worker holds (it waits to be claimed, or it sleeps) answers "COMPLETED", but
  the run stays as it was and will be executed again; only its stored output is overwritten.\<close>

theorem complete_unclaimed_run:
  assumes "wf_db s" and "r \<in> set (runs s)" and "parse_uuid_str E run = Some (wr_run_id r)"
    and "wr_status r \<in> {show_status WsPending, show_status WsSleeping}"
    and "length (payload_to_bytes out) \<le> payload_max_size_bytes cfg"
    and "ws_complete_workflow E cfg t i run out s = (res, s')"
  shows "res = Inr PwCompleted \<and> runs s' = runs s \<and> payloads s' = map (\<lambda>p. if pl_run_id p = wr_run_id r
       then p\<lparr>pl_output := Some (payload_to_bytes out)\<rparr> else p) (payloads s)"
proof -
  let ?b = "payload_to_bytes out"
  let ?s1 = "s\<lparr>payloads := sql_update (\<lambda>p. pl_run_id p = wr_run_id r) (\<lambda>p. p\<lparr>pl_output := Some ?b\<rparr>) (payloads s)\<rparr>"
  let ?event = "st_record_lifecycle_event cfg (t 1) i (wr_run_id r) SkWorkflowCompleted (Some ?b)"
  obtain st where st: "wr_status r = show_status st" "\<not> is_terminal st"
    using assms(4) by auto
  have "\<not> running_row (wr_run_id r) x" if "x \<in> set (runs s)" for x
    using run_unique [OF assms(1) that assms(2)] assms(4) by auto
  then have "sql_update (running_row (wr_run_id r)) (set_completed (t 0)) (runs s) = runs s"
    by (intro sql_update_none) blast
  then have "wf_complete cfg (t 0) (wr_run_id r) ?b s = (Inr (), ?s1)"
    using complete_run [OF assms(1,5)] by simp
  then have "ws_complete_workflow E cfg t i run out s = (Inr PwCompleted, snd (?event ?s1))"
    using validate_open_run [OF assms(1,2) st(1), of False] st(2) assms(3)
    by (simp add: ws_complete_workflow_def parse_id_def output_bytes ignore_op_def Let_def)
  moreover have "runs (snd (?event ?s1)) = runs s"
    using keepsD [OF same_runs_steps(5), of ?s1 "runs s"] by simp
  moreover have "payloads (snd (?event ?s1)) = payloads ?s1"
    using keepsD [OF event_same_payloads, of ?s1 "payloads ?s1"] by simp
  ultimately show ?thesis using assms(6) by (simp add: sql_update_def)
qed

lemma complete_unclaimed_run_witness:
  "fst (ws_complete_workflow demo_env demo_cfg (\<lambda>_. 2000) 80 ''1'' None demo_db) = Inr PwCompleted
   \<and> runs (snd (ws_complete_workflow demo_env demo_cfg (\<lambda>_. 2000) 80 ''1'' None demo_db)) = runs demo_db"
proof -
  let ?c = "ws_complete_workflow demo_env demo_cfg (\<lambda>_. 2000) 80 ''1'' None demo_db"
  have "demo_waiting \<in> set (runs demo_db)" "wr_status demo_waiting \<in> {show_status WsPending, show_status WsSleeping}"
    "length (payload_to_bytes None) \<le> payload_max_size_bytes demo_cfg"
    by (simp_all add: demo_defs payload_to_bytes_def)
  moreover have "parse_uuid_str demo_env ''1'' = Some (wr_run_id demo_waiting)"
    by (simp add: demo_env_def parse_nat_def digit_def demo_waiting_def run_defaults_def)
  ultimately show ?thesis
    using complete_unclaimed_run [OF demo_wf, of demo_waiting demo_env "''1''" None demo_cfg "\<lambda>_. 2000" 80 "fst ?c" "snd ?c"]
    by simp
qed

subsection \<open>Steps\<close>

lemma st_list_first:
  assumes "st_list ps s = (Inr page, s')" and "ls_page_size ps = 1" and "ls_cursor ps = None" and "pr_items page \<noteq> []"
  obtains r m where "pr_items page = [m]" and "step_into_model r = Inr m" and "r \<in> set (steps s)"
    and "step_filter ps r"
    and "\<And>x. x \<in> set (steps s) \<Longrightarrow> step_filter ps x \<Longrightarrow> \<not> step_cursor x < step_cursor r"
proof -
  let ?found = "order_by (<) step_cursor (filter (\<lambda>r. step_filter ps r \<and> True) (steps s))"
  have found: "order_by (<) step_cursor (filter (\<lambda>r. step_filter ps r
      \<and> after_cursor (<) step_cursor (ls_cursor ps) r) (steps s)) = ?found"
    by (simp add: assms(3) after_cursor_def)
  have items: "collect_results (map step_into_model (take 1 ?found)) = Inr (pr_items page)"
    using assms(1,2) unfolding st_list_def query_op_simp Let_def found
    by (auto simp: sql_limit_def as_i64_id res_bind_def take_Suc split: sum.splits)
  obtain r rs where r: "?found = r # rs" using items assms(4) by (cases ?found) (auto simp: order_by_def)
  obtain m where "step_into_model r = Inr m" "pr_items page = [m]"
    using items unfolding r by (cases "step_into_model r") auto
  moreover have "r \<in> set (steps s)" "step_filter ps r"
    "\<And>x. x \<in> set (steps s) \<Longrightarrow> step_filter ps x \<Longrightarrow> \<not> step_cursor x < step_cursor r"
    using by_cursor.order_by_hd_least [OF r] by auto
  ultimately show ?thesis using that by blast
qed

text \<open>The step that \<open>CompleteStep\<close> answers is the oldest attempt of the step, not the attempt that was
  completed: a step that succeeds on a retry is answered as the attempt that failed first.\<close>

theorem complete_step_answers_oldest_attempt:
  assumes "ws_complete_step E cfg now i run step out s = (Inr x, s')"
  shows "\<exists>r\<in>set (steps s'). \<exists>m. parse_uuid_str E run = Some (sr_run_id r) \<and> sr_step_id r = step
     \<and> step_into_model r = Inr m \<and> step_to_proto E m = Inr x
     \<and> (\<forall>y\<in>set (steps s'). sr_run_id y = sr_run_id r \<and> sr_namespace y = sr_namespace r \<and> sr_step_id y = step
          \<longrightarrow> sr_created_at r \<le> sr_created_at y)"
proof -
  obtain run_id ns page s1 where run: "parse_uuid_str E run = Some run_id"
    and page: "st_list \<lparr>ls_run_id = run_id, ls_namespace = ns, ls_step_id = Some step, ls_page_size = 1,
        ls_cursor = None\<rparr> s1 = (Inr page, s')" "pr_items page \<noteq> []"
    and x: "step_to_proto E (last (pr_items page)) = Inr x"
    using assms unfolding ws_complete_step_def by (auto simp only: success split: if_splits)
  have s1: "s1 = s'" using page(1) by (simp add: st_list_def)
  obtain r m where r: "pr_items page = [m]" "step_into_model r = Inr m" "r \<in> set (steps s1)"
    "sr_run_id r = run_id" "sr_namespace r = ns" "sr_step_id r = step"
    and least: "\<And>y. y \<in> set (steps s1) \<Longrightarrow> sr_run_id y = run_id \<and> sr_namespace y = ns \<and> sr_step_id y = step
       \<Longrightarrow> \<not> step_cursor y < step_cursor r"
    by (rule st_list_first [OF page(1) _ _ page(2)]) (auto simp: step_filter_def)
  have "sr_created_at r \<le> sr_created_at y"
    if "y \<in> set (steps s1)" "sr_run_id y = run_id \<and> sr_namespace y = ns \<and> sr_step_id y = step" for y
    using least [OF that] by (auto simp: step_cursor_def)
  then show ?thesis using run x r s1 by auto
qed


definition demo_retry_db :: db where
  "demo_retry_db = demo_db\<lparr>steps := [
     (demo_step_row 70 50 ''charge'')\<lparr>sr_status := show_step_status SsFailed, sr_is_latest := False\<rparr>,
     (demo_step_row 90 51 ''charge'')\<lparr>sr_status := show_step_status SsRunning, sr_attempt_number := 2\<rparr>]\<rparr>"

lemma complete_step_answers_oldest_attempt_witness:
  "\<exists>x s'. ws_complete_step demo_env demo_cfg 2000 80 ''2'' ''charge'' None demo_retry_db = (Inr x, s')
     \<and> py_status x = PsFailed \<and> map sr_status (steps s') = map show_step_status [SsFailed, SsCompleted]
     \<and> (\<exists>r\<in>set (steps s'). \<forall>y\<in>set (steps s'). sr_run_id y = sr_run_id r
          \<and> sr_namespace y = sr_namespace r \<and> sr_step_id y = ''charge'' \<longrightarrow> sr_created_at r \<le> sr_created_at y)"
proof -
  let ?c = "ws_complete_step demo_env demo_cfg 2000 80 ''2'' ''charge'' None demo_retry_db"
  have "map_sum id py_status (fst ?c) = Inr PsFailed" by code_simp
  then obtain x where x: "?c = (Inr x, snd ?c)" "py_status x = PsFailed"
    by (cases "fst ?c") (auto simp: prod_eq_iff)
  have "map sr_status (steps (snd ?c)) = map show_step_status [SsFailed, SsCompleted]" by code_simp
  with complete_step_answers_oldest_attempt [OF x(1)] x show ?thesis by blast
qed

lemma transact_cases:
  "transact (\<lambda>_. x) s = (res, s') \<Longrightarrow> s' = s \<or> x = (Inr (), s')"
  by (auto simp: transact_def split: prod.splits sum.splits)

text \<open>Handing a run to a worker completes its pending sleep; the event it records is a step of its own.\<close>

lemma event_other_latest:
  assumes "(i', k') \<noteq> (i, lifecycle_step_id kind)"
  shows "find_latest i' k' (snd (st_record_lifecycle_event cfg now new_id i kind out s)) = find_latest i' k' s"
  using assms by (intro keepsD [OF other_step_methods(4) refl]) auto

lemma woken_sleep_known:
  assumes wf: "wf_db s" and r: "find_latest (cl_run_id c) k s = Some r"
    and sleep: "sr_step_kind r = show_step_kind SkSleep" "sr_status r = show_step_status SsRunning"
    and k: "k \<noteq> lifecycle_step_id SkWorkflowStarted"
    and d: "dispatch E cfg t new_id c s = (Inr resp, s1)"
  shows "step_known (cl_run_id c, k) s1 = Some (sr_output r)"
proof -
  let ?i = "cl_run_id c"
  let ?f = "\<lambda>r. r\<lparr>sr_status := show_step_status SsCompleted, sr_finished_at := Some (t 0)\<rparr>"
  let ?s = "s\<lparr>steps := sql_update (pending_sleep ?i) ?f (steps s)\<rparr>"
  note u = update_latest_steps [OF wf, where f = ?f and P = "pending_sleep ?i"]
  have s: "snd (st_complete_pending_sleeps (t 0) ?i s) = ?s"
    using u(1) by (simp add: st_complete_pending_sleeps_def step_key_def)
  then have "wf_db ?s" using keepsD [OF keeps_pending_sleeps wf, of "t 0" ?i] by simp
  moreover have "s1 = snd (st_record_lifecycle_event cfg (t 1) new_id ?i SkWorkflowStarted None ?s)"
    using d by (simp add: dispatch_def bind_op_def ignore_op_def s)
  ultimately have "find_latest ?i k s1 = find_latest ?i k ?s"
    using k by (simp add: event_other_latest)
  moreover have "pending_sleep ?i r"
    using sleep find_Some_in [OF r [unfolded find_latest_def]] by (auto simp: pending_sleep_def latest_of_def)
  then have "find_latest ?i k ?s = Some (?f r)" using u(3) r by (simp add: step_key_def)
  ultimately show ?thesis by (simp add: step_known_def)
qed

end
