(* ===== verification/ScheduleService.thy ===== *)
theory ScheduleService
  imports WorkflowService Coordinator
begin

text \<open>
  \<open>crates/kagzi-server/src/workflow_schedule_service.rs\<close>: cron schedules are workflow runs in status
  SCHEDULED or PAUSED. One definition per method, with the prefix \<open>sv_\<close>. \<open>parse\<close> is
  \<open>cron::Schedule::from_str\<close> as in \<open>Coordinator\<close>; \<open>t k\<close> is the \<open>k\<close>-th reading of a clock (\<open>Utc::now()\<close> or
  \<open>NOW()\<close>) in the request, \<open>u k\<close> the \<open>k\<close>-th generated \<open>Uuid\<close>. \<open>split_whitespace\<close> knows the white space of
  ASCII. The fields of the reply that are always zero or unset are left out.
\<close>

definition is_white :: "char \<Rightarrow> bool" where
  "is_white c = (c \<in> {CHR 0x09, CHR 0x0A, CHR 0x0B, CHR 0x0C, CHR 0x0D, CHR '' ''})"

fun fields_of :: "string \<Rightarrow> string \<Rightarrow> string list" where
  "fields_of acc [] = (if acc = [] then [] else [rev acc])"
| "fields_of acc (c # cs) =
     (if is_white c then (if acc = [] then fields_of [] cs else rev acc # fields_of [] cs)
      else fields_of (c # acc) cs)"

definition split_whitespace :: "string \<Rightarrow> string list" where
  "split_whitespace s = fields_of [] s"

definition parse_cron_expr :: "(string \<Rightarrow> cron_schedule option) \<Rightarrow> string \<Rightarrow> status + cron_schedule" where
  "parse_cron_expr parse expr =
     (if list_all is_white expr then Inl (invalid_argument_error (Lit ''cron_expr cannot be empty''))
      else if length (split_whitespace expr) \<noteq> 6
        then Inl (invalid_argument_error (FmtCronFields (length (split_whitespace expr))))
      else (case parse expr of
          None \<Rightarrow> Inl (invalid_argument_error (FmtInvalidCronExpr expr))
        | Some s \<Rightarrow> Inr s))"

definition no_future :: status where
  "no_future = invalid_argument_error (Lit ''Cron expression has no future occurrences'')"

definition next_fire_from_now ::
  "(string \<Rightarrow> cron_schedule option) \<Rightarrow> string \<Rightarrow> timestamp \<Rightarrow> status + timestamp" where
  "next_fire_from_now parse expr now = res_bind (parse_cron_expr parse expr) (\<lambda>nxt.
     case nxt now of None \<Rightarrow> Inl no_future | Some n \<Rightarrow> Inr n)"

record schedule_proto =
  so_schedule_id :: string
  so_namespace :: string
  so_task_queue :: string
  so_workflow_type :: string
  so_cron_expr :: string
  so_input :: payload
  so_enabled :: bool
  so_max_catchup :: int
  so_next_fire_at :: proto_timestamp
  so_last_fired_at :: "proto_timestamp option"
  so_version :: string
  so_created_at :: proto_timestamp

definition workflow_run_to_schedule_proto :: "env \<Rightarrow> workflow_run \<Rightarrow> status + schedule_proto" where
  "workflow_run_to_schedule_proto E w =
     (case w_cron_expr w of
        None \<Rightarrow> Inl (invalid_argument_error (Lit ''Workflow run is not a schedule template''))
      | Some cron_expr \<Rightarrow> (case w_available_at w of
          None \<Rightarrow> Inl (invalid_argument_error (Lit ''Schedule template has no next_fire_at''))
        | Some next_fire_at \<Rightarrow> (case w_created_at w of
            None \<Rightarrow> Inl (invalid_argument_error (Lit ''Schedule template has no created_at''))
          | Some created_at \<Rightarrow> Inr \<lparr>
              so_schedule_id = show_uuid E (w_run_id w), so_namespace = w_namespace w,
              so_task_queue = w_task_queue w, so_workflow_type = w_workflow_type w,
              so_cron_expr = cron_expr, so_input = bytes_to_payload (Some (w_input w)),
              so_enabled = (w_status w = WsScheduled), so_max_catchup = w_max_catchup w,
              so_next_fire_at = timestamp_from next_fire_at,
              so_last_fired_at = map_option timestamp_from (w_last_fired_at w),
              so_version = (case w_version w of None \<Rightarrow> [] | Some v \<Rightarrow> v),
              so_created_at = timestamp_from created_at\<rparr>)))"

subsection \<open>Creating a schedule\<close>

record create_schedule_request =
  hq_namespace :: string
  hq_schedule_id :: string
  hq_task_queue :: string
  hq_workflow_type :: string
  hq_cron_expr :: string
  hq_input :: "payload option"
  hq_enabled :: "bool option"
  hq_max_catchup :: "int option"
  hq_version :: "string option"

definition enabled_status :: "bool \<Rightarrow> workflow_status" where
  "enabled_status b = (if b then WsScheduled else WsPaused)"

definition schedule_params :: "uuid \<Rightarrow> create_schedule_request \<Rightarrow> create_workflow" where
  "schedule_params run_id r = \<lparr>
     cw_run_id = run_id, cw_external_id = ''schedule:'' @ hq_schedule_id r,
     cw_task_queue = hq_task_queue r, cw_workflow_type = hq_workflow_type r,
     cw_input = (case payload_to_optional_bytes (hq_input r) of None \<Rightarrow> [] | Some b \<Rightarrow> b),
     cw_namespace = hq_namespace r,
     cw_version = (case hq_version r of None \<Rightarrow> [] | Some v \<Rightarrow> v), cw_retry_policy = None,
     cw_cron_expr = Some (hq_cron_expr r), cw_schedule_id = None\<rparr>"

text \<open>Two separate transactions: the run is created PENDING and available at once, then updated.\<close>

definition create_template ::
  "env \<Rightarrow> store_config \<Rightarrow> timestamp \<Rightarrow> uuid \<Rightarrow> timestamp \<Rightarrow> bool \<Rightarrow> int \<Rightarrow> create_schedule_request
    \<Rightarrow> schedule_proto handler" where
  "create_template E cfg now run_id first_fire enabled max_catchup req =
     bind_op (call_store (wf_create cfg now (schedule_params run_id req))) (\<lambda>_.
     bind_op (call_store (wf_find_by_id run_id (hq_namespace req))) (\<lambda>found.
     bind_op (require_some (invalid_argument_error (Lit ''Failed to create schedule'')) found) (\<lambda>w.
     let template = w\<lparr>w_status := enabled_status enabled, w_available_at := Some first_fire,
                      w_max_catchup := max_catchup\<rparr> in
     bind_op (call_store (wf_update run_id template)) (\<lambda>_.
     lift_op (workflow_run_to_schedule_proto E template)))))"

definition replace_template ::
  "env \<Rightarrow> uuid \<Rightarrow> timestamp \<Rightarrow> bool \<Rightarrow> int \<Rightarrow> create_schedule_request \<Rightarrow> schedule_proto handler" where
  "replace_template E existing_run_id first_fire enabled max_catchup req =
     bind_op (call_store (wf_find_by_id existing_run_id (hq_namespace req))) (\<lambda>found.
     bind_op (require_some (invalid_argument_error (Lit ''Schedule not found after lookup'')) found) (\<lambda>w.
     let existing = w\<lparr>w_cron_expr := Some (hq_cron_expr req), w_available_at := Some first_fire,
                      w_max_catchup := max_catchup, w_status := enabled_status enabled\<rparr> in
     bind_op (call_store (wf_update existing_run_id existing)) (\<lambda>_.
     lift_op (workflow_run_to_schedule_proto E existing))))"

definition sv_create_workflow_schedule ::
  "env \<Rightarrow> (string \<Rightarrow> cron_schedule option) \<Rightarrow> store_config \<Rightarrow> int \<Rightarrow> (nat \<Rightarrow> timestamp) \<Rightarrow> (nat \<Rightarrow> uuid)
    \<Rightarrow> create_schedule_request \<Rightarrow> schedule_proto handler" where
  "sv_create_workflow_schedule E parse cfg default_catchup t u req =
     bind_op (lift_op (require_non_empty (hq_schedule_id req) ''schedule_id'')) (\<lambda>schedule_id.
     bind_op (lift_op (require_non_empty (hq_task_queue req) ''task_queue'')) (\<lambda>_.
     bind_op (lift_op (require_non_empty (hq_workflow_type req) ''workflow_type'')) (\<lambda>_.
     bind_op (lift_op (require_non_empty (hq_cron_expr req) ''cron_expr'')) (\<lambda>cron_expr.
     bind_op (lift_op (require_non_empty (hq_namespace req) ''namespace'')) (\<lambda>ns.
     bind_op (call_store (np_get_or_create (t 0) (u 0) ns)) (\<lambda>_.
     bind_op (lift_op (next_fire_from_now parse cron_expr (t 1))) (\<lambda>first_fire.
     let enabled = (case hq_enabled req of None \<Rightarrow> True | Some b \<Rightarrow> b);
         max_catchup = (case hq_max_catchup req of None \<Rightarrow> default_catchup | Some n \<Rightarrow> n) in
     bind_op (call_store (wf_find_active_by_external_id ns (''schedule:'' @ schedule_id))) (\<lambda>existing.
     case existing of
       Some existing_run_id \<Rightarrow> replace_template E existing_run_id first_fire enabled max_catchup req
     | None \<Rightarrow> create_template E cfg (t 2) (u 1) first_fire enabled max_catchup req))))))))"

subsection \<open>Reading schedules\<close>

definition parse_schedule_id :: "env \<Rightarrow> string \<Rightarrow> uuid handler" where
  "parse_schedule_id E s = (case parse_uuid_str E s of
       Some u \<Rightarrow> ret_op u
     | None \<Rightarrow> fail_op (invalid_argument_error (Lit ''Invalid schedule_id'')))"

definition schedule_not_found :: "msg \<Rightarrow> status" where
  "schedule_not_found i = not_found_error (Lit ''Schedule not found'') ''schedule'' i"

definition find_schedule :: "uuid \<Rightarrow> string \<Rightarrow> msg \<Rightarrow> workflow_run handler" where
  "find_schedule run_id ns i =
     bind_op (call_store (wf_find_by_id run_id ns)) (\<lambda>found. require_some (schedule_not_found i) found)"

definition sv_get_workflow_schedule :: "env \<Rightarrow> string \<Rightarrow> string \<Rightarrow> schedule_proto handler" where
  "sv_get_workflow_schedule E schedule namespace =
     bind_op (parse_schedule_id E schedule) (\<lambda>run_id.
     bind_op (lift_op (require_non_empty namespace ''namespace'')) (\<lambda>ns.
     bind_op (find_schedule run_id ns (Lit schedule)) (\<lambda>w.
     lift_op (workflow_run_to_schedule_proto E w))))"

definition schedule_page_size :: "page_request option \<Rightarrow> int" where
  "schedule_page_size p = (case p of None \<Rightarrow> 100 | Some q \<Rightarrow> normalize_page_size (pg_page_size q) 100 500)"

definition schedule_page_cursor :: "env \<Rightarrow> page_request option \<Rightarrow> status + cursor option" where
  "schedule_page_cursor E p = (case p of None \<Rightarrow> Inr None | Some q \<Rightarrow> page_cursor E (pg_page_token q))"

text \<open>The request's \<open>task_queue\<close> is not read.\<close>

definition sv_list_workflow_schedules ::
  "env \<Rightarrow> string \<Rightarrow> string option \<Rightarrow> page_request option \<Rightarrow> schedule_proto page_response handler" where
  "sv_list_workflow_schedules E namespace task_queue page =
     bind_op (lift_op (require_non_empty namespace ''namespace'')) (\<lambda>ns.
     bind_op (lift_op (schedule_page_cursor E page)) (\<lambda>cur.
     bind_op (call_store (wf_list \<lparr>lw_namespace = ns, lw_filter_status = Some ''SCHEDULED'',
         lw_page_size = schedule_page_size page, lw_cursor = cur, lw_schedule_id = None\<rparr>)) (\<lambda>result.
     bind_op (lift_op (collect_results (map (workflow_run_to_schedule_proto E) (pr_items result)))) (\<lambda>schedules.
     ret_op \<lparr>ps_items = schedules, ps_next_page_token = next_token E (pr_next_cursor result),
             ps_has_more = pr_has_more result, ps_total_count = 0\<rparr>))))"

definition sv_list_schedule_runs ::
  "env \<Rightarrow> timestamp \<Rightarrow> string \<Rightarrow> string \<Rightarrow> page_request option \<Rightarrow> proto_workflow page_response handler" where
  "sv_list_schedule_runs E now schedule namespace page =
     bind_op (parse_schedule_id E schedule) (\<lambda>schedule_id.
     bind_op (lift_op (require_non_empty namespace ''namespace'')) (\<lambda>ns.
     bind_op (lift_op (schedule_page_cursor E page)) (\<lambda>cur.
     bind_op (call_store (wf_list \<lparr>lw_namespace = ns, lw_filter_status = None,
         lw_page_size = schedule_page_size page, lw_cursor = cur, lw_schedule_id = Some schedule_id\<rparr>)) (\<lambda>result.
     bind_op (lift_op (collect_results (map (workflow_to_proto E now) (pr_items result)))) (\<lambda>workflows.
     ret_op \<lparr>ps_items = workflows, ps_next_page_token = next_token E (pr_next_cursor result),
             ps_has_more = pr_has_more result, ps_total_count = 0\<rparr>)))))"

subsection \<open>Changing schedules\<close>

record update_schedule_request =
  uq_namespace :: string
  uq_schedule_id :: string
  uq_task_queue :: "string option"
  uq_workflow_type :: "string option"
  uq_cron_expr :: "string option"
  uq_input :: "payload option"
  uq_enabled :: "bool option"
  uq_max_catchup :: "int option"
  uq_version :: "string option"

text \<open>A given expression is only validated; of the other fields only \<open>enabled\<close> is read.\<close>

definition validate_cron ::
  "(string \<Rightarrow> cron_schedule option) \<Rightarrow> timestamp \<Rightarrow> string option \<Rightarrow> unit handler" where
  "validate_cron parse now e = (case e of
       None \<Rightarrow> ret_op ()
     | Some expr \<Rightarrow> bind_op (lift_op (next_fire_from_now parse expr now)) (\<lambda>_. ret_op ()))"

definition update_next_fire ::
  "(string \<Rightarrow> cron_schedule option) \<Rightarrow> timestamp \<Rightarrow> workflow_status option \<Rightarrow> workflow_run
    \<Rightarrow> timestamp option handler" where
  "update_next_fire parse now new_status current =
     (if new_status = Some WsScheduled
      then bind_op (require_some (invalid_argument_error
             (Lit ''Cannot enable schedule without cron expression'')) (w_cron_expr current)) (\<lambda>expr.
           bind_op (lift_op (next_fire_from_now parse expr now)) (\<lambda>n. ret_op (Some n)))
      else ret_op None)"

definition sv_update_workflow_schedule ::
  "env \<Rightarrow> (string \<Rightarrow> cron_schedule option) \<Rightarrow> (nat \<Rightarrow> timestamp) \<Rightarrow> update_schedule_request
    \<Rightarrow> schedule_proto handler" where
  "sv_update_workflow_schedule E parse t req =
     bind_op (parse_schedule_id E (uq_schedule_id req)) (\<lambda>run_id.
     bind_op (lift_op (require_non_empty (uq_namespace req) ''namespace'')) (\<lambda>ns.
     bind_op (find_schedule run_id ns (Lit (uq_schedule_id req))) (\<lambda>current.
     bind_op (validate_cron parse (t 0) (uq_cron_expr req)) (\<lambda>_.
     let new_status = map_option enabled_status (uq_enabled req) in
     bind_op (update_next_fire parse (t 1) new_status current) (\<lambda>next_fire.
     bind_op (case new_status of
         None \<Rightarrow> ret_op ()
       | Some st \<Rightarrow> call_store (wf_update run_id (current\<lparr>w_status := st,
           w_available_at := (case next_fire of None \<Rightarrow> w_available_at current | Some f \<Rightarrow> Some f)\<rparr>))) (\<lambda>_.
     bind_op (find_schedule run_id ns (FmtUuid run_id)) (\<lambda>w.
     lift_op (workflow_run_to_schedule_proto E w))))))))"

definition sv_delete_workflow_schedule :: "env \<Rightarrow> string \<Rightarrow> string \<Rightarrow> bool handler" where
  "sv_delete_workflow_schedule E schedule namespace =
     bind_op (parse_schedule_id E schedule) (\<lambda>run_id.
     bind_op (lift_op (require_non_empty namespace ''namespace'')) (\<lambda>ns.
     bind_op (find_schedule run_id ns (Lit schedule)) (\<lambda>_.
     bind_op (call_store (wf_delete run_id)) (\<lambda>_. ret_op True))))"

definition trigger_params :: "env \<Rightarrow> uuid \<Rightarrow> uuid \<Rightarrow> string \<Rightarrow> workflow_run \<Rightarrow> create_workflow" where
  "trigger_params E run_id schedule_id ns w = \<lparr>
     cw_run_id = run_id,
     cw_external_id = ''schedule-'' @ show_uuid E schedule_id @ ''-'' @ show_uuid E run_id,
     cw_task_queue = w_task_queue w, cw_workflow_type = w_workflow_type w, cw_input = w_input w,
     cw_namespace = ns, cw_version = (case w_version w of None \<Rightarrow> [] | Some v \<Rightarrow> v),
     cw_retry_policy = None, cw_cron_expr = None, cw_schedule_id = Some schedule_id\<rparr>"

definition sv_trigger_workflow_schedule ::
  "env \<Rightarrow> store_config \<Rightarrow> timestamp \<Rightarrow> uuid \<Rightarrow> string \<Rightarrow> string \<Rightarrow> string handler" where
  "sv_trigger_workflow_schedule E cfg now new_id schedule namespace =
     bind_op (parse_schedule_id E schedule) (\<lambda>schedule_id.
     bind_op (lift_op (require_non_empty namespace ''namespace'')) (\<lambda>ns.
     bind_op (find_schedule schedule_id ns (Lit schedule)) (\<lambda>w.
     bind_op (call_store (wf_create cfg now (trigger_params E new_id schedule_id ns w))) (\<lambda>_.
     ret_op (show_uuid E new_id)))))"

definition sv_pause_workflow_schedule :: "env \<Rightarrow> string \<Rightarrow> string \<Rightarrow> schedule_proto handler" where
  "sv_pause_workflow_schedule E schedule namespace =
     bind_op (parse_schedule_id E schedule) (\<lambda>run_id.
     bind_op (lift_op (require_non_empty namespace ''namespace'')) (\<lambda>ns.
     bind_op (find_schedule run_id ns (Lit schedule)) (\<lambda>w.
     let paused = w\<lparr>w_status := WsPaused\<rparr> in
     bind_op (call_store (wf_update run_id paused)) (\<lambda>_.
     lift_op (workflow_run_to_schedule_proto E paused)))))"

definition sv_resume_workflow_schedule ::
  "env \<Rightarrow> (string \<Rightarrow> cron_schedule option) \<Rightarrow> timestamp \<Rightarrow> string \<Rightarrow> string \<Rightarrow> schedule_proto handler" where
  "sv_resume_workflow_schedule E parse now schedule namespace =
     bind_op (parse_schedule_id E schedule) (\<lambda>run_id.
     bind_op (lift_op (require_non_empty namespace ''namespace'')) (\<lambda>ns.
     bind_op (find_schedule run_id ns (Lit schedule)) (\<lambda>w.
     bind_op (require_some (invalid_argument_error
       (Lit ''Cannot resume schedule without cron expression'')) (w_cron_expr w)) (\<lambda>expr.
     bind_op (lift_op (next_fire_from_now parse expr now)) (\<lambda>next_fire.
     let resumed = w\<lparr>w_status := WsScheduled, w_available_at := Some next_fire\<rparr> in
     bind_op (call_store (wf_update run_id resumed)) (\<lambda>_.
     lift_op (workflow_run_to_schedule_proto E resumed)))))))"

subsection \<open>Every request keeps the constraints of the schema\<close>

lemma keeps_parse_schedule_id [keeps_rules]: "keeps I (parse_schedule_id E s)"
  unfolding parse_schedule_id_def by (cases "parse_uuid_str E s") (simp_all only: option.case keeps_rules)

lemma parse_schedule_id_success [success]:
  "parse_schedule_id E i s = (Inr u, s') \<longleftrightarrow> parse_uuid_str E i = Some u \<and> s' = s"
  by (auto simp: parse_schedule_id_def split: option.split)

lemma keeps_find_schedule [keeps_rules]: "keeps I (find_schedule i ns m)"
  unfolding find_schedule_def by (intro keeps_rules)

lemma keeps_validate_cron [keeps_rules]: "keeps I (validate_cron parse now e)"
  unfolding validate_cron_def by (intro keeps_rules)

lemma keeps_compute_next_fire [keeps_rules]: "keeps I (update_next_fire parse now st w)"
  unfolding update_next_fire_def by (intro keeps_rules)

lemma keeps_templates [keeps_rules]:
  "keeps wf_db (create_template E cfg now i f b n req)"
  "keeps wf_db (replace_template E i f b n req)"
  unfolding create_template_def replace_template_def Let_def by (intro keeps_rules)+

lemma schedule_service_keeps [keeps_rules]:
  "keeps wf_db (sv_create_workflow_schedule E parse cfg n t u req)"
  "keeps wf_db (sv_get_workflow_schedule E i ns)"
  "keeps wf_db (sv_list_workflow_schedules E ns q pg)"
  "keeps wf_db (sv_list_schedule_runs E now i ns pg)"
  "keeps wf_db (sv_update_workflow_schedule E parse t ureq)"
  "keeps wf_db (sv_delete_workflow_schedule E i ns)"
  "keeps wf_db (sv_trigger_workflow_schedule E cfg now new_id i ns)"
  "keeps wf_db (sv_pause_workflow_schedule E i ns)"
  "keeps wf_db (sv_resume_workflow_schedule E parse now i ns)"
  unfolding sv_create_workflow_schedule_def sv_get_workflow_schedule_def sv_list_workflow_schedules_def
    sv_list_schedule_runs_def sv_update_workflow_schedule_def sv_delete_workflow_schedule_def
    sv_trigger_workflow_schedule_def sv_pause_workflow_schedule_def sv_resume_workflow_schedule_def Let_def
  by (intro keeps_rules)+

end
