(* ===== verification/ScheduleCorrect.thy ===== *)
theory ScheduleCorrect
  imports ScheduleService ServerCorrect CoordinatorCorrect
begin

text \<open>
  What editing a schedule does, and does not do. Pausing, resuming, updating and deleting take the id of any
  run of the namespace and do not look at its status.
\<close>

subsection \<open>Reading and writing back a row\<close>

lemma find_by_id_row:
  assumes "wf_find_by_id i ns s = (Inr (Some w), s')"
  obtains r p where "r \<in> set (runs s)" and "wr_run_id r = i" and "wr_namespace r = ns"
    and "run_into_model (r, p) = Inr w" and "s' = s"
proof -
  let ?hit = "\<lambda>(w, p). wr_run_id w = i \<and> wr_namespace w = ns"
  have q: "(case List.find ?hit (runs_with_payload s) of None \<Rightarrow> Inr None
     | Some x \<Rightarrow> map_sum id Some (run_into_model x)) = Inr (Some w)" "s' = s"
    using assms by (simp_all only: wf_find_by_id_def query_op_success)
  obtain x where x: "List.find ?hit (runs_with_payload s) = Some x"
    using q(1) by (cases "List.find ?hit (runs_with_payload s)") simp_all
  have mx: "run_into_model x = Inr w" using q(1) by (simp only: x option.case decoded)
  obtain r p where rp: "x = (r, p)" by (cases x)
  note f = x [unfolded rp] and m = mx [unfolded rp] q(2)
  note in_f = find_Some_in [OF f]
  then have "r \<in> set (runs s)" by (auto simp: runs_with_payload_def)
  then show ?thesis using that in_f m by simp
qed

text \<open>The columns that editing a schedule is said to change, besides the status and the next firing.\<close>

definition settings_of :: "run_row \<Rightarrow> uuid \<times> string \<times> string \<times> string option \<times> string option \<times> int" where
  "settings_of r = (wr_run_id r, wr_task_queue r, wr_workflow_type r, wr_version r, wr_cron_expr r,
     wr_max_catchup r)"

lemma update_runs_settings:
  assumes "\<And>r. r \<in> set (runs s) \<Longrightarrow> P r \<Longrightarrow> g (f r) = g r"
  shows "map g (runs (snd (update_runs P f s))) = map g (runs s) \<and> payloads (snd (update_runs P f s)) = payloads s"
proof -
  have "map g (sql_update P f (runs s)) = map g (runs s)"
    using assms by (auto simp: sql_update_def)
  then show ?thesis by (auto simp: update_runs_def put_runs_def split: option.splits)
qed

lemma write_back_settings:
  assumes "wf_db s" and "wf_find_by_id i ns s = (Inr (Some w), s)"
    and "w_cron_expr w' = w_cron_expr w" and "w_max_catchup w' = w_max_catchup w"
  shows "map settings_of (runs (snd (wf_update i w' s))) = map settings_of (runs s)
    \<and> payloads (snd (wf_update i w' s)) = payloads s"
proof -
  obtain r p where r: "r \<in> set (runs s)" "wr_run_id r = i" "run_into_model (r, p) = Inr w"
    by (rule find_by_id_row [OF assms(2)])
  show ?thesis
    unfolding wf_update_def
  proof (rule update_runs_settings)
    fix x assume "x \<in> set (runs s)" "wr_run_id x = i"
    then have "x = r" using run_unique [OF assms(1)] r by blast
    then show "settings_of (x\<lparr>wr_status := show_status (w_status w'), wr_available_at := w_available_at w',
        wr_cron_expr := w_cron_expr w', wr_schedule_id := w_schedule_id w', wr_max_catchup := w_max_catchup w',
        wr_last_fired_at := w_last_fired_at w'\<rparr>) = settings_of x"
      using model_fields [OF r(3)] assms(3,4) by (simp add: settings_of_def)
  qed
qed

lemmas schedule_reads = keeps_parse_schedule_id keeps_lift keeps_find_schedule keeps_validate_cron
  keeps_compute_next_fire keeps_require_some

text \<open>\<open>UpdateWorkflowSchedule\<close> changes none of the settings it accepts: whatever expression, queue, type,
  input, version or catch-up limit the request carries and however the call ends, these columns of every
  run and all payloads are as before. (It only switches the schedule on or off.)\<close>

theorem schedule_update_only_toggles:
  assumes "wf_db s" and "sv_update_workflow_schedule E parse t req s = (res, s')"
  shows "map settings_of (runs s') = map settings_of (runs s) \<and> payloads s' = payloads s"
proof -
  let ?Q = "\<lambda>s'. map settings_of (runs s') = map settings_of (runs s) \<and> payloads s' = payloads s"
  have "?Q (snd (sv_update_workflow_schedule E parse t req s))"
    unfolding sv_update_workflow_schedule_def Let_def
  proof ((rule after_read [where Q = ?Q], rule schedule_reads, simp)+, goal_cases)
    case (1 i ns current _ next_fire)
    then have f: "wf_find_by_id i ns s = (Inr (Some current), s)"
      by (auto simp: find_schedule_def success)
    note wb = write_back_settings [OF assms(1) f]
    show ?case
      by (rule after_call [where Q = ?Q]) (auto split: option.split simp: wb intro!: keeps_rules)
  qed
  then show ?thesis using assms(2) by simp
qed

definition demo_update :: update_schedule_request where
  "demo_update = \<lparr>uq_namespace = ''default'', uq_schedule_id = ''4'', uq_task_queue = Some ''other'',
     uq_workflow_type = Some ''Other'', uq_cron_expr = Some ''0 0 0 * * *'', uq_input = None,
     uq_enabled = Some False, uq_max_catchup = Some 3, uq_version = Some ''9''\<rparr>"

lemma schedule_update_only_toggles_witness:
  "map_sum (\<lambda>e. ()) (\<lambda>p. (so_enabled p, so_task_queue p, so_max_catchup p))
     (fst (sv_update_workflow_schedule demo_env demo_parse (\<lambda>_. 300) demo_update demo_db))
     = Inr (False, ''q'', 50)
   \<and> map settings_of (runs (snd (sv_update_workflow_schedule demo_env demo_parse (\<lambda>_. 300) demo_update demo_db)))
     = map settings_of (runs demo_db)"
proof
  let ?c = "sv_update_workflow_schedule demo_env demo_parse (\<lambda>_. 300) demo_update demo_db"
  show "map_sum (\<lambda>e. ()) (\<lambda>p. (so_enabled p, so_task_queue p, so_max_catchup p)) (fst ?c) = Inr (False, ''q'', 50)"
    by code_simp
  show "map settings_of (runs (snd ?c)) = map settings_of (runs demo_db)"
    using schedule_update_only_toggles [OF demo_wf, of demo_env demo_parse "\<lambda>_. 300" demo_update "fst ?c" "snd ?c"]
    by simp
qed

subsection \<open>Editing a run that is no schedule\<close>

text \<open>\<open>PauseWorkflowSchedule\<close> does not ask whether the id belongs to a schedule. For an ordinary run that waits,
  sleeps or executes, it answers an error, but the run is PAUSED by then: it keeps its lock and no poll
  can claim it, at any time and for any queue and types.\<close>

theorem pause_strands_ordinary_run:
  assumes "db_ok s" and "r \<in> set (runs s)" and "wr_cron_expr r = None"
    and "wr_status r \<in> {show_status WsPending, show_status WsRunning, show_status WsSleeping}"
    and "parse_uuid_str E sid = Some (wr_run_id r)" and "wr_namespace r \<noteq> []"
    and "wf_find_by_id (wr_run_id r) (wr_namespace r) s = (Inr (Some w), s)"
  shows "sv_pause_workflow_schedule E sid (wr_namespace r) s
     = (Inl (invalid_argument_error (Lit ''Workflow run is not a schedule template'')),
        s\<lparr>runs := map (\<lambda>x. if x = r then r\<lparr>wr_status := show_status WsPaused\<rparr> else x) (runs s)\<rparr>)
     \<and> \<not> claimable now ns queue types (r\<lparr>wr_status := show_status WsPaused\<rparr>)"
proof
  let ?f = "\<lambda>x. x\<lparr>wr_status := show_status WsPaused, wr_available_at := w_available_at w, wr_cron_expr := w_cron_expr w,
     wr_schedule_id := w_schedule_id w, wr_max_catchup := w_max_catchup w, wr_last_fired_at := w_last_fired_at w\<rparr>"
  have wf: "wf_db s" using assms(1) by (simp add: db_ok_def)
  obtain x p where x: "x \<in> set (runs s)" "wr_run_id x = wr_run_id r" "run_into_model (x, p) = Inr w"
    by (rule find_by_id_row [OF assms(7)])
  have xr: "x = r" using run_unique [OF wf x(1) assms(2) x(2)] .
  note w = model_fields [OF x(3) [unfolded xr]]
  have f: "?f r = r\<lparr>wr_status := show_status WsPaused\<rparr>" using w by simp
  have only: "y = r" if "y \<in> set (runs s)" "wr_run_id y = wr_run_id r" for y
    using run_unique [OF wf that(1) assms(2) that(2)] .
  have "run_ok r" using assms(1,2) by (simp add: db_ok_def list_all_iff)
  then have "wr_available_at r \<noteq> None" using assms(4) by (auto simp: run_ok_def)
  then have "narrows r (?f r)"
    unfolding f using assms(4) by (auto simp: narrows_def chk_available_at_def is_active_def active_text_def)
  then have upd: "wf_update (wr_run_id r) (w\<lparr>w_status := WsPaused\<rparr>) s
      = (Inr (), s\<lparr>runs := sql_update (\<lambda>y. wr_run_id y = wr_run_id r) ?f (runs s)\<rparr>)"
    unfolding wf_update_def using only
    by (subst update_runs_narrow [OF wf]) auto
  have "sql_update (\<lambda>y. wr_run_id y = wr_run_id r) ?f (runs s)
      = map (\<lambda>x. if x = r then r\<lparr>wr_status := show_status WsPaused\<rparr> else x) (runs s)"
    unfolding sql_update_def using only f by (intro map_cong) auto
  then show "sv_pause_workflow_schedule E sid (wr_namespace r) s
     = (Inl (invalid_argument_error (Lit ''Workflow run is not a schedule template'')),
        s\<lparr>runs := map (\<lambda>x. if x = r then r\<lparr>wr_status := show_status WsPaused\<rparr> else x) (runs s)\<rparr>)"
    using assms(3,5-7) upd w(3)
    by (simp add: sv_pause_workflow_schedule_def parse_schedule_id_def require_non_empty_def find_schedule_def
        require_some_def workflow_run_to_schedule_proto_def)
  show "\<not> claimable now ns queue types (r\<lparr>wr_status := show_status WsPaused\<rparr>)"
    by (simp add: claimable_def claimable_text_def)
qed

lemma pause_strands_ordinary_run_witness:
  "fst (sv_pause_workflow_schedule demo_env ''2'' ''default'' demo_db)
     = Inl (invalid_argument_error (Lit ''Workflow run is not a schedule template''))
   \<and> map wr_status (runs (snd (sv_pause_workflow_schedule demo_env ''2'' ''default'' demo_db)))
     = map show_status [WsPending, WsPaused, WsCompleted, WsScheduled]"
proof -
  have "map_sum (\<lambda>e. ()) (map_option w_run_id) (fst (wf_find_by_id 2 ''default'' demo_db)) = Inr (Some 2)"
    by code_simp
  then obtain w where w: "wf_find_by_id 2 ''default'' demo_db = (Inr (Some w), demo_db)"
    by (cases "fst (wf_find_by_id 2 ''default'' demo_db)") (auto simp: wf_find_by_id_def prod_eq_iff)
  have r: "demo_running \<in> set (runs demo_db)" "wr_run_id demo_running = 2" "wr_namespace demo_running = ''default''"
    "wr_cron_expr demo_running = None"
    "wr_status demo_running \<in> {show_status WsPending, show_status WsRunning, show_status WsSleeping}"
    by (simp_all add: demo_defs)
  have "parse_uuid_str demo_env ''2'' = Some 2" by (simp add: demo_env_def parse_nat_def digit_def)
  moreover have "db_ok demo_db" by code_simp
  moreover have "map (\<lambda>x. wr_status (if x = demo_running then demo_running\<lparr>wr_status := show_status WsPaused\<rparr> else x))
      (runs demo_db) = map show_status [WsPending, WsPaused, WsCompleted, WsScheduled]" by code_simp
  ultimately show ?thesis
    using pause_strands_ordinary_run [OF _ r(1,4,5), of demo_env "''2''" w] w r by (simp add: o_def)
qed

subsection \<open>Creating a schedule\<close>

definition target_of :: "run_row \<Rightarrow> uuid \<times> string \<times> string \<times> string option" where
  "target_of r = (wr_run_id r, wr_task_queue r, wr_workflow_type r, wr_version r)"

lemma update_keeps_target:
  "map target_of (runs (snd (wf_update i w s))) = map target_of (runs s) \<and> payloads (snd (wf_update i w s)) = payloads s"
  unfolding wf_update_def by (rule update_runs_settings) (simp add: target_of_def)

text \<open>Creating a schedule again under the same id replaces its expression, catch-up limit, next firing and
  state, but not what it runs: the queue, type, version and input of the second request are dropped.\<close>

theorem recreate_keeps_target:
  assumes "wf_db s" and "r \<in> set (runs s)" and "is_active r"
    and "active_key r = (hq_namespace req, ''schedule:'' @ hq_schedule_id req)"
    and "sv_create_workflow_schedule E parse cfg dflt t u req s = (res, s')"
  shows "map target_of (runs s') = map target_of (runs s) \<and> payloads s' = payloads s"
proof -
  let ?Q = "\<lambda>s'. map target_of (runs s') = map target_of (runs s) \<and> payloads s' = payloads s"
  have "wr_namespace r \<in> set (ns_names s)"
    using assms(1,2) unfolding wf_db_def runs_violation_None by blast
  then have "hq_namespace req \<in> set (ns_names s)" using assms(4) by (simp add: active_key_def)
  then obtain n where "np_get_or_create (t 0) (u 0) (hq_namespace req) s = (Inr n, s)"
    by (rule get_or_create_known)
  then have known: "keeps (\<lambda>x. x = s) (call_store (np_get_or_create (t 0) (u 0) (hq_namespace req)))"
    by (simp add: keeps_def)
  have found: "fst (wf_find_active_by_external_id (hq_namespace req) (''schedule:'' @ hq_schedule_id req) s) \<noteq> Inr None"
    using assms(2-4) by (auto simp: wf_find_active_by_external_id_def find_None_iff is_active_def active_text_def
        active_key_def)
  have active: "keeps (\<lambda>x. x = s) (call_store (wf_find_active_by_external_id ns e))" for ns e
    by (intro keeps_rules)
  have look_up: "keeps (\<lambda>x. x = s) (call_store (wf_find_by_id i ns))" for i ns
    by (intro keeps_rules)
  have replaced: "?Q (snd (replace_template E i f b n req s))" for i f b n
    unfolding replace_template_def Let_def
  proof ((rule after_read [where Q = ?Q], rule keeps_require_some look_up, simp)+, goal_cases)
    case (1 found w)
    show ?case
      by (rule after_call [where Q = ?Q]) (simp_all add: update_keeps_target keeps_rules)
  qed
  let ?rest = "bind_op (call_store (np_get_or_create (t 0) (u 0) (hq_namespace req))) (\<lambda>_.
     bind_op (lift_op (next_fire_from_now parse (hq_cron_expr req) (t 1))) (\<lambda>first_fire.
     bind_op (call_store (wf_find_active_by_external_id (hq_namespace req) (''schedule:'' @ hq_schedule_id req))) (\<lambda>existing.
     case existing of
       Some i \<Rightarrow> replace_template E i first_fire
         (case hq_enabled req of None \<Rightarrow> True | Some b \<Rightarrow> b)
         (case hq_max_catchup req of None \<Rightarrow> dflt | Some n \<Rightarrow> n) req
     | None \<Rightarrow> create_template E cfg (t 2) (u 1) first_fire
         (case hq_enabled req of None \<Rightarrow> True | Some b \<Rightarrow> b)
         (case hq_max_catchup req of None \<Rightarrow> dflt | Some n \<Rightarrow> n) req)))"
  have rest: "?Q (snd (?rest s))"
  proof (rule after_read [where Q = ?Q, OF known], simp, rule after_read [where Q = ?Q, OF keeps_lift], simp,
      rule after_read [where Q = ?Q, OF active], simp, goal_cases)
    case (1 _ _ existing)
    then show ?case using found replaced by (cases existing) (auto simp: success)
  qed
  have "sv_create_workflow_schedule E parse cfg dflt t u req s = ?rest s
      \<or> snd (sv_create_workflow_schedule E parse cfg dflt t u req s) = s"
    by (simp add: sv_create_workflow_schedule_def require_non_empty_def Let_def del: append.simps)
  then have "?Q (snd (sv_create_workflow_schedule E parse cfg dflt t u req s))"
  proof
    assume "sv_create_workflow_schedule E parse cfg dflt t u req s = ?rest s"
    then show ?thesis by (rule ssubst) (rule rest)
  next
    assume "snd (sv_create_workflow_schedule E parse cfg dflt t u req s) = s"
    then show ?thesis by (simp only:)
  qed
  then show ?thesis using assms(5) by simp
qed


definition demo_schedule :: create_schedule_request where
  "demo_schedule = \<lparr>hq_namespace = ''default'', hq_schedule_id = ''nightly'', hq_task_queue = ''q'',
     hq_workflow_type = ''Report'', hq_cron_expr = ''0 0 0 * * *'', hq_input = None, hq_enabled = None,
     hq_max_catchup = None, hq_version = None\<rparr>"

definition demo_schedule_db :: db where
  "demo_schedule_db = snd (sv_create_workflow_schedule demo_env demo_parse demo_cfg 50 (\<lambda>_. 300) (\<lambda>_. 31)
     demo_schedule demo_db)"

lemma recreate_keeps_target_witness:
  "map_sum (\<lambda>e. ()) (\<lambda>p. (so_task_queue p, so_max_catchup p))
     (fst (sv_create_workflow_schedule demo_env demo_parse demo_cfg 50 (\<lambda>_. 400) (\<lambda>_. 32)
       (demo_schedule\<lparr>hq_task_queue := ''other'', hq_max_catchup := Some 7\<rparr>) demo_schedule_db)) = Inr (''q'', 7)
   \<and> map target_of (runs (snd (sv_create_workflow_schedule demo_env demo_parse demo_cfg 50 (\<lambda>_. 400) (\<lambda>_. 32)
       (demo_schedule\<lparr>hq_task_queue := ''other'', hq_max_catchup := Some 7\<rparr>) demo_schedule_db)))
     = map target_of (runs demo_schedule_db)"
proof
  let ?c = "sv_create_workflow_schedule demo_env demo_parse demo_cfg 50 (\<lambda>_. 400) (\<lambda>_. 32)
       (demo_schedule\<lparr>hq_task_queue := ''other'', hq_max_catchup := Some 7\<rparr>) demo_schedule_db"
  show "map_sum (\<lambda>e. ()) (\<lambda>p. (so_task_queue p, so_max_catchup p)) (fst ?c) = Inr (''q'', 7)"
    by code_simp
  have "wf_db demo_schedule_db" by code_simp
  moreover have "list_ex (\<lambda>r. is_active r \<and> active_key r = (''default'', ''schedule:nightly'')) (runs demo_schedule_db)"
    by code_simp
  ultimately show "map target_of (runs (snd ?c)) = map target_of (runs demo_schedule_db)"
    using recreate_keeps_target [of demo_schedule_db _ "demo_schedule\<lparr>hq_task_queue := ''other'',
        hq_max_catchup := Some 7\<rparr>" demo_env demo_parse demo_cfg 50 "\<lambda>_. 400" "\<lambda>_. 32" "fst ?c" "snd ?c"]
    by (auto simp: list_ex_iff demo_schedule_def)
qed



end
