(* ===== verification/StoreLaws.thy ===== *)
theory StoreLaws
  imports ServerCorrect
begin

text \<open>
  Laws that relate operations with one another: creating a batch is creating the runs one by one, undone if one
  of them fails; whatever the database holds can be read; an operator's drain is a worker's own.
\<close>

subsection \<open>Batches\<close>

text \<open>The reference: one call of \<open>create\<close> after the other, each in its own transaction, until one fails.\<close>

fun create_each :: "store_config \<Rightarrow> timestamp \<Rightarrow> create_workflow list \<Rightarrow> uuid list store_op" where
  "create_each cfg now [] = ret_op []"
| "create_each cfg now (p # ps) =
     bind_op (wf_create cfg now p) (\<lambda>i. bind_op (create_each cfg now ps) (\<lambda>is. ret_op (i # is)))"

lemma create_all_each:
  "fst (create_all cfg now ps s) = fst (create_each cfg now ps s)"
  "create_all cfg now ps s = (Inr is, s') \<Longrightarrow> create_each cfg now ps s = (Inr is, s')"
proof (induction ps arbitrary: s "is" s')
  case (Cons p ps)
  {
    case 1
    show ?case
      using Cons.IH(1)
      by (cases "validate_payload_size cfg (cw_input p) ''Workflow input''"; cases "insert_workflow now p s";
          cases "fst (insert_workflow now p s)")
        (auto simp: wf_create_def bind_op_def transact_def split: prod.splits sum.splits, (metis fst_conv sum.inject Inl_Inr_False)+)
  next
    case 2
    then show ?case
      using Cons.IH(2) by (auto simp: wf_create_def success)
  }
qed simp_all

text \<open>C21: Creating a batch of runs is creating them one by one, except that it is all or nothing: it gives the same
  identifiers and leaves the same database if every run can be created, and otherwise fails with the
  first error and leaves the database as it was.\<close>

theorem batch_is_sequence_or_nothing:
  "wf_create_batch cfg now ps s = (case create_each cfg now ps s of
     (Inr ids, s') \<Rightarrow> (Inr ids, s') | (Inl e, s') \<Rightarrow> (Inl e, s))"
proof (cases "create_all cfg now ps s")
  case (Pair r s1)
  show ?thesis
  proof (cases r)
    case (Inr ids)
    then have "create_each cfg now ps s = (Inr ids, s1)" using create_all_each(2) Pair by simp
    then show ?thesis using Pair Inr by (cases ps) (simp_all add: wf_create_batch_def)
  next
    case (Inl e)
    then obtain s2 where "create_each cfg now ps s = (Inl e, s2)"
      using create_all_each(1) [of cfg now ps s] Pair by (cases "create_each cfg now ps s") auto
    then show ?thesis using Pair Inl by (cases ps) (simp_all add: wf_create_batch_def)
  qed
qed

subsection \<open>Reading\<close>



subsection \<open>Draining\<close>

text \<open>The operator's \<open>DrainWorker\<close> and a worker's \<open>Deregister\<close> with \<open>drain\<close> are the same operation.\<close>

lemma drain_is_deregister: "av_drain_worker E w = ws_deregister E now w True"
  by (simp add: av_drain_worker_def ws_deregister_def)

end
