(* ===== verification/SdkErrors.thy ===== *)
theory SdkErrors
  imports WorkerService
begin

text \<open>
  \<open>sdk/kagzi-rs/src/retry.rs\<close> and \<open>errors.rs\<close>: the retry policies that users of the Rust SDK write and
  their protobuf form, the error type of the SDK, its protobuf form, and how it is read from the status
  of a failed call. Durations are nanoseconds; \<open>attempts\<close> is the \<open>u32\<close> of the source. The encoding of
  protobuf messages (\<open>prost\<close>) is a parameter: \<open>enc\<close> writes an error detail, \<open>dec\<close> reads it.
\<close>

subsection \<open>Retry policies\<close>

record retry_conf =
  rc_attempts :: "32 word"
  rc_initial_interval :: nat
  rc_max_interval :: nat
  rc_backoff_coefficient :: f64
  rc_non_retryable_errors :: "string list"

definition retry_default :: retry_conf where
  "retry_default = \<lparr>rc_attempts = 3, rc_initial_interval = 1000000000, rc_max_interval = 60000000000,
     rc_backoff_coefficient = Fin 2, rc_non_retryable_errors = []\<rparr>"

definition retry_attempts :: "32 word \<Rightarrow> retry_conf" where
  "retry_attempts n = retry_default\<lparr>rc_attempts := n\<rparr>"

definition retry_exponential :: "32 word \<Rightarrow> retry_conf" where
  "retry_exponential n = retry_attempts n"

definition retry_linear :: "32 word \<Rightarrow> nat \<Rightarrow> retry_conf" where
  "retry_linear n interval = \<lparr>rc_attempts = n, rc_initial_interval = interval, rc_max_interval = interval,
     rc_backoff_coefficient = Fin 1, rc_non_retryable_errors = []\<rparr>"

definition retry_none :: retry_conf where
  "retry_none = retry_default\<lparr>rc_attempts := 0\<rparr>"

definition retry_forever :: retry_conf where
  "retry_forever = retry_default\<lparr>rc_attempts := - 1\<rparr>"

definition with_initial :: "nat \<Rightarrow> retry_conf \<Rightarrow> retry_conf" where
  "with_initial d r = r\<lparr>rc_initial_interval := d\<rparr>"

definition with_max :: "nat \<Rightarrow> retry_conf \<Rightarrow> retry_conf" where
  "with_max d r = r\<lparr>rc_max_interval := d\<rparr>"

definition with_backoff :: "f64 \<Rightarrow> retry_conf \<Rightarrow> retry_conf" where
  "with_backoff c r = r\<lparr>rc_backoff_coefficient := c\<rparr>"

definition with_non_retryable :: "string list \<Rightarrow> retry_conf \<Rightarrow> retry_conf" where
  "with_non_retryable es r = r\<lparr>rc_non_retryable_errors := es\<rparr>"

text \<open>The comparison \<open>c < 1.0\<close> of floating point numbers is false for NaN.\<close>

fun f64_below_one :: "f64 \<Rightarrow> bool" where
  "f64_below_one (Fin q) = (q < 1)"
| "f64_below_one NegInf = True"
| "f64_below_one _ = False"

definition validate_retry :: "retry_conf \<Rightarrow> string + unit" where
  "validate_retry r =
     (if rc_initial_interval r = 0 then Inl ''initial_interval must be positive''
      else if rc_max_interval r = 0 then Inl ''max_interval must be positive''
      else if f64_below_one (rc_backoff_coefficient r) then Inl ''backoff_coefficient must be >= 1.0''
      else if rc_max_interval r < rc_initial_interval r
        then Inl ''initial_interval cannot be greater than max_interval''
      else Inr ())"

definition duration_millis :: "nat \<Rightarrow> int" where
  "duration_millis ns = as_i64 (int (ns div 1000000))"

definition retry_to_proto :: "retry_conf \<Rightarrow> retry_policy" where
  "retry_to_proto r = \<lparr>maximum_attempts = sint (rc_attempts r),
     initial_interval_ms = duration_millis (rc_initial_interval r),
     backoff_coefficient = rc_backoff_coefficient r,
     maximum_interval_ms = duration_millis (rc_max_interval r),
     non_retryable_errors = rc_non_retryable_errors r\<rparr>"

text \<open>\<open>Retry::none()\<close> does not switch retries off: its zero attempts read as "not set" on the server, so
  that the attempts of the workflow's policy hold, or five if it has none. \<open>Retry::forever()\<close> becomes
  minus one, which is never used up.\<close>

theorem retry_none_still_retries:
  "\<exists>p q. merge_proto_policy (Some (retry_to_proto retry_none)) fallback = Some p
     \<and> (\<forall>n. should_retry p n = should_retry (case fallback of Some f \<Rightarrow> f | None \<Rightarrow> default_policy) n)
     \<and> merge_proto_policy (Some (retry_to_proto retry_forever)) fallback = Some q
     \<and> (\<forall>n. should_retry q n)"
  by (simp add: merge_proto_policy_def retry_to_proto_def retry_none_def retry_forever_def should_retry_def
      Let_def)

text \<open>An interval below a millisecond passes validation, but is sent as zero, which the server takes as "not
  set" and replaces by its default of one second.\<close>

lemma short_interval_is_replaced:
  "rc_initial_interval r < 1000000 \<Longrightarrow>
    map_option initial_interval_ms (merge_proto_policy (Some (retry_to_proto r)) None) = Some 1000"
  by (simp add: merge_proto_policy_def retry_to_proto_def duration_millis_def as_i64_def default_policy_def Let_def)

subsection \<open>Errors\<close>

text \<open>The wire form of \<open>ErrorDetail\<close> and of a gRPC status.\<close>

record wire_detail =
  wd_code :: int
  wd_message :: string
  wd_non_retryable :: bool
  wd_retry_after_ms :: int
  wd_subject :: string
  wd_subject_id :: string
  wd_metadata :: "(string \<times> string) list"

definition default_wire_detail :: wire_detail where
  "default_wire_detail = \<lparr>wd_code = 0, wd_message = [], wd_non_retryable = False, wd_retry_after_ms = 0,
     wd_subject = [], wd_subject_id = [], wd_metadata = []\<rparr>"

record wire_status =
  wt_code :: grpc_code
  wt_message :: string
  wt_details :: bytes

fun error_code_number :: "error_code \<Rightarrow> int" where
  "error_code_number EcUnspecified = 0"
| "error_code_number EcNotFound = 1"
| "error_code_number EcInvalidArgument = 2"
| "error_code_number EcPreconditionFailed = 3"
| "error_code_number EcConflict = 4"
| "error_code_number EcUnauthorized = 5"
| "error_code_number EcUnavailable = 6"
| "error_code_number EcInternal = 7"
| "error_code_number EcTimeout = 8"

definition error_code_of :: "int \<Rightarrow> error_code option" where
  "error_code_of n = (if 0 \<le> n \<and> n < 9
     then Some ([EcUnspecified, EcNotFound, EcInvalidArgument, EcPreconditionFailed, EcConflict,
                 EcUnauthorized, EcUnavailable, EcInternal, EcTimeout] ! nat n)
     else None)"

lemma error_code_of_number [simp]: "error_code_of (error_code_number c) = Some c"
  by (cases c) (simp_all add: error_code_of_def)

text \<open>\<open>Status::with_details\<close> of the server, with the texts as they travel.\<close>

definition detail_on_wire :: "env \<Rightarrow> error_detail \<Rightarrow> wire_detail" where
  "detail_on_wire E d = \<lparr>wd_code = error_code_number (ed_code d), wd_message = msg_text E (ed_message d),
     wd_non_retryable = ed_non_retryable d, wd_retry_after_ms = ed_retry_after_ms d,
     wd_subject = ed_subject d, wd_subject_id = msg_text E (ed_subject_id d), wd_metadata = ed_metadata d\<rparr>"

definition status_on_wire :: "env \<Rightarrow> (wire_detail \<Rightarrow> bytes) \<Rightarrow> status \<Rightarrow> wire_status" where
  "status_on_wire E enc st = \<lparr>wt_code = st_code st, wt_message = msg_text E (st_message st),
     wt_details = enc (detail_on_wire E (st_detail st))\<rparr>"

text \<open>What the server sees of a detail that the SDK sends.\<close>

definition detail_received :: "wire_detail \<Rightarrow> error_detail" where
  "detail_received d = \<lparr>ed_code = (case error_code_of (wd_code d) of Some c \<Rightarrow> c | None \<Rightarrow> EcUnspecified),
     ed_message = Lit (wd_message d), ed_non_retryable = wd_non_retryable d,
     ed_retry_after_ms = wd_retry_after_ms d, ed_subject = wd_subject d,
     ed_subject_id = Lit (wd_subject_id d), ed_metadata = wd_metadata d\<rparr>"

record kagzi_error =
  ke_code :: error_code
  ke_message :: string
  ke_non_retryable :: bool
  ke_retry_after :: "nat option"
  ke_subject :: "string option"
  ke_subject_id :: "string option"
  ke_metadata :: "(string \<times> string) list"

definition kagzi_new :: "error_code \<Rightarrow> string \<Rightarrow> kagzi_error" where
  "kagzi_new code message = \<lparr>ke_code = code, ke_message = message,
     ke_non_retryable = (code \<in> {EcInvalidArgument, EcPreconditionFailed, EcConflict, EcUnauthorized}),
     ke_retry_after = None, ke_subject = None, ke_subject_id = None, ke_metadata = []\<rparr>"

definition kagzi_non_retryable :: "string \<Rightarrow> kagzi_error" where
  "kagzi_non_retryable message = \<lparr>ke_code = EcPreconditionFailed, ke_message = message,
     ke_non_retryable = True, ke_retry_after = None, ke_subject = None, ke_subject_id = None,
     ke_metadata = []\<rparr>"

definition kagzi_retry_after :: "string \<Rightarrow> nat \<Rightarrow> kagzi_error" where
  "kagzi_retry_after message d = \<lparr>ke_code = EcUnavailable, ke_message = message,
     ke_non_retryable = False, ke_retry_after = Some d, ke_subject = None, ke_subject_id = None,
     ke_metadata = []\<rparr>"

definition or_empty :: "string option \<Rightarrow> string" where
  "or_empty x = (case x of None \<Rightarrow> [] | Some s \<Rightarrow> s)"

definition to_detail :: "kagzi_error \<Rightarrow> wire_detail" where
  "to_detail e = \<lparr>wd_code = error_code_number (ke_code e), wd_message = ke_message e,
     wd_non_retryable = ke_non_retryable e,
     wd_retry_after_ms = (case ke_retry_after e of None \<Rightarrow> 0 | Some d \<Rightarrow> duration_millis d),
     wd_subject = or_empty (ke_subject e), wd_subject_id = or_empty (ke_subject_id e),
     wd_metadata = ke_metadata e\<rparr>"

fun error_code_from_status :: "grpc_code \<Rightarrow> error_code" where
  "error_code_from_status CNotFound = EcNotFound"
| "error_code_from_status CInvalidArgument = EcInvalidArgument"
| "error_code_from_status CFailedPrecondition = EcPreconditionFailed"
| "error_code_from_status CAborted = EcConflict"
| "error_code_from_status CPermissionDenied = EcUnauthorized"
| "error_code_from_status CUnavailable = EcUnavailable"
| "error_code_from_status CDeadlineExceeded = EcUnavailable"
| "error_code_from_status CCancelled = EcUnavailable"
| "error_code_from_status CResourceExhausted = EcUnavailable"
| "error_code_from_status _ = EcInternal"

definition kagzi_from_status :: "(bytes \<Rightarrow> wire_detail option) \<Rightarrow> wire_status \<Rightarrow> kagzi_error" where
  "kagzi_from_status dec st = (case dec (wt_details st) of
       Some d \<Rightarrow> \<lparr>
         ke_code = (case error_code_of (wd_code d) of Some c \<Rightarrow> c | None \<Rightarrow> EcInternal),
         ke_message = (if wd_message d = [] then wt_message st else wd_message d),
         ke_non_retryable = wd_non_retryable d,
         ke_retry_after = (if 0 < wd_retry_after_ms d then Some (nat (wd_retry_after_ms d) * 1000000) else None),
         ke_subject = non_empty (wd_subject d), ke_subject_id = non_empty (wd_subject_id d),
         ke_metadata = wd_metadata d\<rparr>
     | None \<Rightarrow> \<lparr>
         ke_code = error_code_from_status (wt_code st), ke_message = wt_message st,
         ke_non_retryable = (wt_code st \<in> {CInvalidArgument, CFailedPrecondition, CPermissionDenied}),
         ke_retry_after = None, ke_subject = None, ke_subject_id = None, ke_metadata = []\<rparr>)"

lemma non_empty_or_empty: "x \<noteq> Some [] \<Longrightarrow> non_empty (or_empty x) = x"
  by (cases x) (auto simp: non_empty_def or_empty_def)

lemma whole_millis:
  assumes "d mod 1000000 = 0" and "0 < d" and "int d < 2 ^ 63 * 1000000"
  shows "0 < duration_millis d \<and> nat (duration_millis d) * 1000000 = d"
proof -
  have "int (d div 1000000) < 2 ^ 63" using assms(3) by simp
  then have "duration_millis d = int (d div 1000000)" by (simp add: duration_millis_def as_i64_def)
  then show ?thesis using assms(1,2) by auto
qed

text \<open>C22: An error of the SDK that travels as an error detail is read back unchanged, if its delay is a whole
  positive number of milliseconds in the range of \<open>i64\<close> and no text in it is empty.\<close>

theorem error_round_trip:
  assumes "dec (enc (to_detail e)) = Some (to_detail e)" and "ke_message e \<noteq> []"
    and "ke_subject e \<noteq> Some []" and "ke_subject_id e \<noteq> Some []"
    and "case ke_retry_after e of None \<Rightarrow> True
         | Some d \<Rightarrow> d mod 1000000 = 0 \<and> 0 < d \<and> int d < 2 ^ 63 * 1000000"
  shows "kagzi_from_status dec \<lparr>wt_code = c, wt_message = m, wt_details = enc (to_detail e)\<rparr> = e"
  using assms whole_millis
  by (auto simp: kagzi_from_status_def to_detail_def non_empty_or_empty split: option.splits)

lemma error_round_trip_witness:
  "kagzi_from_status (\<lambda>_. Some (to_detail (kagzi_retry_after ''busy'' 5000000)))
     \<lparr>wt_code = CUnavailable, wt_message = [], wt_details = [1]\<rparr> = kagzi_retry_after ''busy'' 5000000"
  using error_round_trip [where enc = "\<lambda>_. [1]" and e = "kagzi_retry_after ''busy'' 5000000"
      and dec = "\<lambda>_. Some (to_detail (kagzi_retry_after ''busy'' 5000000))"]
  by (simp add: kagzi_retry_after_def)

text \<open>C23: Every error of the store reaches the SDK as its own kind: the code, the message and whether to retry are
  those of the error detail that the server built from it.\<close>

theorem store_error_reaches_sdk:
  assumes "dec (enc (detail_on_wire E (st_detail (map_store_error e)))) =
     Some (detail_on_wire E (st_detail (map_store_error e)))"
  shows "let k = kagzi_from_status dec (status_on_wire E enc (map_store_error e)) in
     ke_message k = msg_text E (st_message (map_store_error e)) \<and> ke_retry_after k = None
     \<and> (case e of
          NotFound entity i \<Rightarrow> ke_code k = EcNotFound \<and> ke_non_retryable k \<and> ke_subject k = non_empty entity
        | InvalidArgument m \<Rightarrow> ke_code k = EcInvalidArgument \<and> ke_non_retryable k
        | InvalidState m \<Rightarrow> ke_code k = EcPreconditionFailed \<and> ke_non_retryable k
        | AlreadyCompleted m \<Rightarrow> ke_code k = EcPreconditionFailed \<and> ke_non_retryable k
        | Conflict m \<Rightarrow> ke_code k = EcConflict \<and> \<not> ke_non_retryable k
        | LockConflict m \<Rightarrow> ke_code k = EcConflict \<and> \<not> ke_non_retryable k
        | PreconditionFailed m \<Rightarrow> ke_code k = EcPreconditionFailed \<and> ke_non_retryable k
        | Unauthorized m \<Rightarrow> ke_code k = EcUnauthorized \<and> ke_non_retryable k
        | Unavailable m \<Rightarrow> ke_code k = EcUnavailable \<and> \<not> ke_non_retryable k
        | Timeout m \<Rightarrow> ke_code k = EcTimeout \<and> \<not> ke_non_retryable k
        | Database x \<Rightarrow> ke_code k = EcInternal \<and> ke_non_retryable k
        | Serialization \<Rightarrow> ke_code k = EcInternal \<and> ke_non_retryable k)"
  using assms
  by (cases e) (auto simp: Let_def kagzi_from_status_def status_on_wire_def detail_on_wire_def status_with_detail_def
      err_detail_def not_found_error_def invalid_argument_error_def precondition_failed_error_def
      conflict_error_def unavailable_error_def deadline_exceeded_error_def permission_denied_error_def
      internal_error_def error_code_of_def)

lemma store_error_reaches_sdk_witness:
  "ke_code (kagzi_from_status (\<lambda>_. Some (detail_on_wire demo_env (st_detail (map_store_error (Timeout (Lit ''slow''))))))
     (status_on_wire demo_env (\<lambda>_. [1]) (map_store_error (Timeout (Lit ''slow''))))) = EcTimeout"
  using store_error_reaches_sdk [where e = "Timeout (Lit ''slow'')" and enc = "\<lambda>_. [1]" and E = demo_env
      and dec = "\<lambda>_. Some (detail_on_wire demo_env (st_detail (map_store_error (Timeout (Lit ''slow'')))))"]
  by (simp add: Let_def)

text \<open>A status without details (a lost connection, a timeout of the client, a refusal by the transport) is read
  as an error detail whose fields are all default: the code of the status is lost and the error counts
  as retryable, whatever it was.\<close>

theorem bare_status_loses_code:
  assumes "dec [] = Some default_wire_detail"
  shows "kagzi_from_status dec \<lparr>wt_code = c, wt_message = m, wt_details = []\<rparr> = kagzi_new EcUnspecified m"
  using assms
  by (simp add: kagzi_from_status_def default_wire_detail_def error_code_of_def kagzi_new_def non_empty_def)

lemma bare_status_loses_code_witness:
  "kagzi_from_status (\<lambda>_. Some default_wire_detail)
     \<lparr>wt_code = CPermissionDenied, wt_message = ''no'', wt_details = []\<rparr> = kagzi_new EcUnspecified ''no''"
  by (rule bare_status_loses_code) simp

end
