(* ===== verification/SdkContext.thy ===== *)
theory SdkContext
  imports SdkErrors
begin

text \<open>
  \<open>sdk/kagzi-rs/src/context.rs\<close>: what the code of a workflow can do, namely sleep and run steps. The calls of the
  generated client are fields of the record \<open>worker_client\<close>, over any state \<open>'s\<close>; \<open>wait_for\<close> is what happens
  while a task sleeps. A request leaves out the namespace, which the server does not read, and the trace
  headers. From outside the repository come, in the record \<open>sdk_env\<close>, the decoding of \<open>prost\<close>, the durations of
  \<open>humantime\<close>, the text of a status, and the delays of \<open>backon\<close>; a codec is what \<open>serde_json\<close> does for one type.
\<close>

record 's worker_client =
  call_begin_step :: "begin_step_request \<Rightarrow> ('s, wire_status, begin_step_response) op"
  call_complete_step :: "string \<Rightarrow> string \<Rightarrow> payload option \<Rightarrow> ('s, wire_status, proto_step) op"
  call_fail_step :: "string \<Rightarrow> string \<Rightarrow> wire_detail option \<Rightarrow> ('s, wire_status, bool) op"
  call_sleep :: "string \<Rightarrow> string \<Rightarrow> (int \<times> int) option \<Rightarrow> ('s, wire_status, unit) op"
  call_complete_workflow :: "string \<Rightarrow> payload option \<Rightarrow> ('s, wire_status, proto_workflow_status) op"
  call_fail_workflow :: "string \<Rightarrow> wire_detail option \<Rightarrow> ('s, wire_status, proto_workflow_status) op"
  wait_for :: "nat \<Rightarrow> 's \<Rightarrow> 's"

record sdk_env =
  decode_detail :: "bytes \<Rightarrow> wire_detail option"
  parse_duration :: "string \<Rightarrow> string + nat"
  show_wire_status :: "wire_status \<Rightarrow> string"
  complete_delays :: "nat list"

record 'r codec =
  to_vec :: "'r \<Rightarrow> string + bytes"
  from_slice :: "bytes \<Rightarrow> string + 'r"

text \<open>The errors that travel in an \<open>anyhow::Error\<close>.\<close>

datatype sdk_error = SePaused | SeKagzi kagzi_error | SeStatus wire_status | SeOther string

record sdk_context =
  cx_run_id :: string
  cx_default_retry :: "retry_conf option"

definition sdk_payload :: "bytes \<Rightarrow> payload" where
  "sdk_payload d = \<lparr>p_data = d, p_metadata = []\<rparr>"

fun debug_error_code :: "error_code \<Rightarrow> string" where
  "debug_error_code EcUnspecified = ''Unspecified''"
| "debug_error_code EcNotFound = ''NotFound''"
| "debug_error_code EcInvalidArgument = ''InvalidArgument''"
| "debug_error_code EcPreconditionFailed = ''PreconditionFailed''"
| "debug_error_code EcConflict = ''Conflict''"
| "debug_error_code EcUnauthorized = ''Unauthorized''"
| "debug_error_code EcUnavailable = ''Unavailable''"
| "debug_error_code EcInternal = ''Internal''"
| "debug_error_code EcTimeout = ''Timeout''"

definition show_sdk_error :: "sdk_env \<Rightarrow> sdk_error \<Rightarrow> string" where
  "show_sdk_error X e = (case e of
       SePaused \<Rightarrow> ''Workflow paused''
     | SeKagzi k \<Rightarrow> ke_message k @ '' ('' @ debug_error_code (ke_code k) @ '')''
     | SeStatus st \<Rightarrow> show_wire_status X st
     | SeOther s \<Rightarrow> s)"

text \<open>\<open>downcast_ref::<KagziError>()\<close>, or an internal error with the text of the other error.\<close>

definition into_kagzi :: "sdk_env \<Rightarrow> sdk_error \<Rightarrow> kagzi_error" where
  "into_kagzi X e = (case e of
       SeKagzi k \<Rightarrow> k
     | _ \<Rightarrow> kagzi_new EcInternal (show_sdk_error X e))"

definition kagzi_call :: "sdk_env \<Rightarrow> ('s, wire_status, 'a) op \<Rightarrow> ('s, sdk_error, 'a) op" where
  "kagzi_call X = map_err_op (\<lambda>st. SeKagzi (kagzi_from_status (decode_detail X) st))"

subsection \<open>Sleeping\<close>

definition prost_duration :: "nat \<Rightarrow> int \<times> int" where
  "prost_duration ns = (as_i64 (int (ns div 1000000000)), int (ns mod 1000000000))"

definition sleep_begin :: "sdk_context \<Rightarrow> string \<Rightarrow> begin_step_request" where
  "sleep_begin cx name = \<lparr>bq_run_id = cx_run_id cx, bq_step_name = name, bq_kind = 2,
     bq_input = Some (sdk_payload []), bq_retry_policy = None\<rparr>"

definition step_id_or :: "string \<Rightarrow> begin_step_response \<Rightarrow> string" where
  "step_id_or name resp = (if ba_step_id resp = [] then name else ba_step_id resp)"

definition sleep_internal ::
  "sdk_env \<Rightarrow> 's worker_client \<Rightarrow> sdk_context \<Rightarrow> string \<Rightarrow> nat \<Rightarrow> ('s, sdk_error, unit) op" where
  "sleep_internal X c cx name duration =
     bind_op (kagzi_call X (call_begin_step c (sleep_begin cx name))) (\<lambda>begin_resp.
     if \<not> ba_should_execute begin_resp then ret_op ()
     else bind_op (kagzi_call X (call_sleep c (cx_run_id cx) (step_id_or name begin_resp)
            (Some (prost_duration duration)))) (\<lambda>_.
          fail_op SePaused))"

definition ctx_sleep ::
  "sdk_env \<Rightarrow> 's worker_client \<Rightarrow> sdk_context \<Rightarrow> string \<Rightarrow> string \<Rightarrow> ('s, sdk_error, unit) op" where
  "ctx_sleep X c cx name duration = (case parse_duration X duration of
       Inl e \<Rightarrow> fail_op (SeOther (''Invalid duration format: '' @ e))
     | Inr d \<Rightarrow> sleep_internal X c cx name d)"

text \<open>\<open>now\<close> and \<open>till\<close> are nanoseconds since the epoch.\<close>

definition ctx_sleep_until ::
  "sdk_env \<Rightarrow> 's worker_client \<Rightarrow> sdk_context \<Rightarrow> string \<Rightarrow> int \<Rightarrow> int \<Rightarrow> ('s, sdk_error, unit) op" where
  "ctx_sleep_until X c cx name now till =
     (if till \<le> now then ret_op () else sleep_internal X c cx name (nat (till - now)))"

subsection \<open>Running a step\<close>

definition step_begin :: "sdk_context \<Rightarrow> string \<Rightarrow> retry_conf option \<Rightarrow> begin_step_request" where
  "step_begin cx name retry = \<lparr>bq_run_id = cx_run_id cx, bq_step_name = name, bq_kind = 1,
     bq_input = None, bq_retry_policy = map_option retry_to_proto retry\<rparr>"

text \<open>One round of the loop around \<open>CompleteStep\<close>; \<open>again\<close> is what an error leads to that may pass.\<close>

definition complete_round ::
  "sdk_env \<Rightarrow> 's worker_client \<Rightarrow> sdk_context \<Rightarrow> string \<Rightarrow> bytes \<Rightarrow> (wire_status \<Rightarrow> ('s, sdk_error, unit) op)
    \<Rightarrow> ('s, sdk_error, unit) op" where
  "complete_round X c cx step_id output again =
     match_op (call_complete_step c (cx_run_id cx) step_id (Some (sdk_payload output))) (\<lambda>r. case r of
       Inr _ \<Rightarrow> ret_op ()
     | Inl e \<Rightarrow>
         if wt_code e = CNotFound then fail_op (SeKagzi (kagzi_from_status (decode_detail X) e))
         else if wt_code e = CFailedPrecondition then ret_op ()
         else again e)"

text \<open>The remaining delays of the iterator are the argument.\<close>

fun complete_loop ::
  "sdk_env \<Rightarrow> 's worker_client \<Rightarrow> sdk_context \<Rightarrow> string \<Rightarrow> bytes \<Rightarrow> nat list \<Rightarrow> ('s, sdk_error, unit) op" where
  "complete_loop X c cx step_id output [] = complete_round X c cx step_id output
     (\<lambda>e. fail_op (SeKagzi (kagzi_from_status (decode_detail X) e)))"
| "complete_loop X c cx step_id output (d # ds) = complete_round X c cx step_id output
     (\<lambda>e s. complete_loop X c cx step_id output ds (wait_for c d s))"

declare complete_loop.simps [simp del]

text \<open>\<open>f\<close> is the closure of the user; it may act on the state, too.\<close>

definition sdk_step_run ::
  "sdk_env \<Rightarrow> 's worker_client \<Rightarrow> sdk_context \<Rightarrow> 'r codec \<Rightarrow> string \<Rightarrow> retry_conf option
    \<Rightarrow> ('s, sdk_error, 'r) op \<Rightarrow> ('s, sdk_error, 'r) op" where
  "sdk_step_run X c cx J name override f =
     (let retry = (case override of Some r \<Rightarrow> Some r | None \<Rightarrow> cx_default_retry cx) in
     bind_op (map_err_op SeStatus (call_begin_step c (step_begin cx name retry))) (\<lambda>begin_resp.
     let step_id = step_id_or name begin_resp in
     if \<not> ba_should_execute begin_resp
     then lift_op (map_sum SeOther id (from_slice J (p_data (ba_cached_output begin_resp))))
     else match_op f (\<lambda>result. case result of
         Inr value \<Rightarrow>
           bind_op (lift_op (map_sum SeOther id (to_vec J value))) (\<lambda>output.
           bind_op (complete_loop X c cx step_id output (complete_delays X)) (\<lambda>_.
           ret_op value))
       | Inl e \<Rightarrow>
           let kagzi_err = into_kagzi X e in
           bind_op (kagzi_call X (call_fail_step c (cx_run_id cx) step_id (Some (to_detail kagzi_err)))) (\<lambda>scheduled_retry.
           if scheduled_retry then fail_op SePaused else fail_op (SeKagzi kagzi_err)))))"

subsection \<open>The client of the modelled server\<close>

text \<open>
  A call of the server is a request of the model. The state pairs the database with the number of clock
  readings and generated identifiers so far: a request reads \<open>t n\<close>, \<open>t (n + 1)\<close> and \<open>u n\<close>, \<open>u (n + 1)\<close>.
  \<open>others d\<close> is what the rest of the system does to the database in \<open>d\<close> nanoseconds.
\<close>

definition served ::
  "env \<Rightarrow> (wire_detail \<Rightarrow> bytes) \<Rightarrow> (nat \<Rightarrow> 'a handler) \<Rightarrow> (db \<times> nat, wire_status, 'a) op" where
  "served E enc h = (\<lambda>(s, n). case h n s of (r, s') \<Rightarrow> (map_sum (status_on_wire E enc) id r, (s', n + 2)))"

definition server_client ::
  "env \<Rightarrow> (wire_detail \<Rightarrow> bytes) \<Rightarrow> store_config \<Rightarrow> (nat \<Rightarrow> timestamp) \<Rightarrow> (nat \<Rightarrow> uuid)
    \<Rightarrow> (nat \<Rightarrow> db \<Rightarrow> db) \<Rightarrow> (db \<times> nat) worker_client"
where
  "server_client E enc cfg t u others = \<lparr>
     call_begin_step = \<lambda>req. served E enc (\<lambda>n. ws_begin_step E cfg (\<lambda>k. t (n + k)) (\<lambda>k. u (n + k)) req),
     call_complete_step = \<lambda>run step out. served E enc (\<lambda>n. ws_complete_step E cfg (t n) (u n) run step out),
     call_fail_step = \<lambda>run step d. served E enc (\<lambda>n. ws_fail_step E (\<lambda>k. t (n + k)) (u n) run step
       (map_option detail_received d)),
     call_sleep = \<lambda>run step d. served E enc (\<lambda>n. ws_sleep E (t n) run d),
     call_complete_workflow = \<lambda>run out. served E enc (\<lambda>n. ws_complete_workflow E cfg (\<lambda>k. t (n + k)) (u n) run out),
     call_fail_workflow = \<lambda>run d. served E enc (\<lambda>n. ws_fail_workflow E cfg (\<lambda>k. t (n + k)) (u n) run
       (map_option detail_received d)),
     wait_for = \<lambda>d (s, n). (others d s, n)\<rparr>"

lemma kagzi_call_simps [simp]:
  "m s = (Inr a, s') \<Longrightarrow> kagzi_call X m s = (Inr a, s')"
  "m s = (Inl e, s') \<Longrightarrow> kagzi_call X m s = (Inl (SeKagzi (kagzi_from_status (decode_detail X) e)), s')"
  by (simp_all add: kagzi_call_def map_err_op_def)

lemma served_Inr [simp]: "h n s = (Inr a, s') \<Longrightarrow> served E enc h (s, n) = (Inr a, (s', n + 2))"
  by (simp add: served_def)

lemma served_Inl [simp]: "h n s = (Inl e, s') \<Longrightarrow> served E enc h (s, n) = (Inl (status_on_wire E enc e), (s', n + 2))"
  by (simp add: served_def)

lemma match_op_success:
  "match_op m g s = (Inr b, s') \<longleftrightarrow> (\<exists>r s1. m s = (r, s1) \<and> g r s1 = (Inr b, s'))"
  by (auto simp: match_op_def split: prod.splits)

lemma map_error_Inr [simp]: "map_sum g id x = Inr y \<longleftrightarrow> x = Inr y"
  by (cases x) auto

text \<open>When a step gives a value: it is known already, or the closure ran and its value was reported.\<close>

lemma sdk_step_run_success:
  "sdk_step_run X c cx J name p f w = (Inr v, w') \<longleftrightarrow>
    (\<exists>resp w0. call_begin_step c (step_begin cx name (case p of Some r \<Rightarrow> Some r | None \<Rightarrow> cx_default_retry cx)) w
        = (Inr resp, w0)
      \<and> (if ba_should_execute resp
         then \<exists>w1 out. f w0 = (Inr v, w1) \<and> to_vec J v = Inr out
           \<and> complete_loop X c cx (step_id_or name resp) out (complete_delays X) w1 = (Inr (), w')
         else from_slice J (p_data (ba_cached_output resp)) = Inr v \<and> w' = w0))"
proof -
  have closure: "match_op f (\<lambda>result. case result of
         Inr value \<Rightarrow>
           bind_op (lift_op (map_sum SeOther id (to_vec J value))) (\<lambda>output.
           bind_op (complete_loop X c cx i output (complete_delays X)) (\<lambda>_. ret_op value))
       | Inl e \<Rightarrow>
           bind_op (kagzi_call X (call_fail_step c (cx_run_id cx) i (Some (to_detail (into_kagzi X e))))) (\<lambda>scheduled.
           if scheduled then fail_op SePaused else fail_op (SeKagzi (into_kagzi X e)))) w0 = (Inr v, w')
     \<longleftrightarrow> (\<exists>w1 out. f w0 = (Inr v, w1) \<and> to_vec J v = Inr out
           \<and> complete_loop X c cx i out (complete_delays X) w1 = (Inr (), w'))" for i w0
    by (cases "f w0"; cases "fst (f w0)") (auto simp: match_op_def success)
  show ?thesis
    unfolding sdk_step_run_def Let_def
    by (simp only: success closure map_error_Inr split: if_split) (auto simp: success closure)
qed

lemma served_success [success]:
  "served E enc h (s, n) = (Inr a, w) \<longleftrightarrow> (\<exists>s'. h n s = (Inr a, s') \<and> w = (s', n + 2))"
  by (auto simp: served_def split: prod.splits)

lemma server_client_simps [simp]:
  "call_begin_step (server_client E enc cfg t u others) =
     (\<lambda>req. served E enc (\<lambda>n. ws_begin_step E cfg (\<lambda>k. t (n + k)) (\<lambda>k. u (n + k)) req))"
  "call_complete_step (server_client E enc cfg t u others) =
     (\<lambda>run step out. served E enc (\<lambda>n. ws_complete_step E cfg (t n) (u n) run step out))"
  "call_fail_step (server_client E enc cfg t u others) =
     (\<lambda>run step d. served E enc (\<lambda>n. ws_fail_step E (\<lambda>k. t (n + k)) (u n) run step (map_option detail_received d)))"
  "call_sleep (server_client E enc cfg t u others) = (\<lambda>run step d. served E enc (\<lambda>n. ws_sleep E (t n) run d))"
  "call_complete_workflow (server_client E enc cfg t u others) =
     (\<lambda>run out. served E enc (\<lambda>n. ws_complete_workflow E cfg (\<lambda>k. t (n + k)) (u n) run out))"
  "call_fail_workflow (server_client E enc cfg t u others) =
     (\<lambda>run d. served E enc (\<lambda>n. ws_fail_workflow E cfg (\<lambda>k. t (n + k)) (u n) run (map_option detail_received d)))"
  "wait_for (server_client E enc cfg t u others) d (s, n) = (others d s, n)"
  by (simp_all add: server_client_def)

subsection \<open>Invariants\<close>

lemma keeps_served [keeps_rules]: "(\<And>n. keeps I (h n)) \<Longrightarrow> keeps (\<lambda>w. I (fst w)) (served E enc h)"
  by (auto simp: keeps_def served_def split: prod.splits) (metis snd_conv)

end
