(* ===== verification/SdkClient.thy ===== *)
theory SdkClient
  imports SdkContext ScheduleService
begin

text \<open>
  \<open>sdk/kagzi-rs/src/client.rs\<close>: the builders with which a program starts workflows and creates schedules, their
  validation, the requests they send, and the queries of schedules. The calls of the generated clients are
  fields of \<open>service_client\<close>. An input is what \<open>serde_json\<close> makes of a value (a codec); \<open>parse\<close> is
  \<open>cron::Schedule::from_str\<close>, with the text of its error. Connecting to the server is left out.
\<close>

record 's service_client =
  call_start_workflow :: "start_request \<Rightarrow> ('s, wire_status, string \<times> bool) op"
  call_create_schedule :: "create_schedule_request \<Rightarrow> ('s, wire_status, schedule_proto option) op"
  call_get_schedule :: "string \<Rightarrow> string \<Rightarrow> ('s, wire_status, schedule_proto option) op"
  call_list_schedules :: "string \<Rightarrow> string option \<Rightarrow> page_request option
    \<Rightarrow> ('s, wire_status, schedule_proto page_response) op"
  call_delete_schedule :: "string \<Rightarrow> string \<Rightarrow> ('s, wire_status, bool) op"

definition default_namespace :: string where
  "default_namespace = ''default''"

subsection \<open>Starting workflows\<close>

record start_builder =
  sb_workflow_type :: string
  sb_namespace :: string
  sb_input :: "bytes option"
  sb_idempotency_key :: "string option"

definition start :: "string \<Rightarrow> start_builder" where
  "start workflow_type = \<lparr>sb_workflow_type = workflow_type, sb_namespace = default_namespace,
     sb_input = None, sb_idempotency_key = None\<rparr>"

definition start_namespace :: "string \<Rightarrow> start_builder \<Rightarrow> start_builder" where
  "start_namespace ns b = b\<lparr>sb_namespace := ns\<rparr>"

definition start_input :: "'r codec \<Rightarrow> 'r \<Rightarrow> start_builder \<Rightarrow> sdk_error + start_builder" where
  "start_input J x b = (case to_vec J x of
       Inl e \<Rightarrow> Inl (SeOther e) | Inr d \<Rightarrow> Inr (b\<lparr>sb_input := Some d\<rparr>))"

definition idempotency_key :: "string \<Rightarrow> start_builder \<Rightarrow> start_builder" where
  "idempotency_key k b = b\<lparr>sb_idempotency_key := Some k\<rparr>"

definition validate_start :: "start_builder \<Rightarrow> sdk_error + unit" where
  "validate_start b =
     (if sb_workflow_type b = [] then Inl (SeOther ''workflow_type cannot be empty'')
      else if sb_namespace b = [] then Inl (SeOther ''namespace cannot be empty'')
      else Inr ())"

text \<open>\<open>fresh\<close> is the text of a new \<open>Uuid\<close>. The task queue is the workflow type.\<close>

definition start_request_of :: "string \<Rightarrow> start_builder \<Rightarrow> start_request" where
  "start_request_of fresh b = \<lparr>
     sq_external_id = (case sb_idempotency_key b of None \<Rightarrow> fresh | Some k \<Rightarrow> k),
     sq_task_queue = sb_workflow_type b, sq_workflow_type = sb_workflow_type b,
     sq_input = map_option sdk_payload (sb_input b), sq_namespace = sb_namespace b, sq_version = [],
     sq_retry_policy = None\<rparr>"

definition start_send ::
  "sdk_env \<Rightarrow> 's service_client \<Rightarrow> string \<Rightarrow> start_builder \<Rightarrow> ('s, sdk_error, string) op" where
  "start_send X c fresh b =
     bind_op (lift_op (validate_start b)) (\<lambda>_.
     bind_op (kagzi_call X (call_start_workflow c (start_request_of fresh b))) (\<lambda>(run_id, _).
     ret_op run_id))"

subsection \<open>Schedules\<close>

record schedule_builder =
  hb_schedule_id :: string
  hb_namespace :: string
  hb_workflow_type :: "string option"
  hb_cron :: "string option"
  hb_input :: "bytes option"
  hb_max_catchup :: int
  hb_enabled :: bool

definition schedule :: "string \<Rightarrow> schedule_builder" where
  "schedule schedule_id = \<lparr>hb_schedule_id = schedule_id, hb_namespace = default_namespace,
     hb_workflow_type = None, hb_cron = None, hb_input = None, hb_max_catchup = 100, hb_enabled = True\<rparr>"

definition schedule_namespace :: "string \<Rightarrow> schedule_builder \<Rightarrow> schedule_builder" where
  "schedule_namespace ns b = b\<lparr>hb_namespace := ns\<rparr>"

definition schedule_workflow :: "string \<Rightarrow> schedule_builder \<Rightarrow> schedule_builder" where
  "schedule_workflow ty b = b\<lparr>hb_workflow_type := Some ty\<rparr>"

definition schedule_cron :: "string \<Rightarrow> schedule_builder \<Rightarrow> schedule_builder" where
  "schedule_cron expr b = b\<lparr>hb_cron := Some expr\<rparr>"

definition schedule_input :: "'r codec \<Rightarrow> 'r \<Rightarrow> schedule_builder \<Rightarrow> sdk_error + schedule_builder" where
  "schedule_input J x b = (case to_vec J x of
       Inl e \<Rightarrow> Inl (SeOther e) | Inr d \<Rightarrow> Inr (b\<lparr>hb_input := Some d\<rparr>))"

definition schedule_catchup :: "int \<Rightarrow> schedule_builder \<Rightarrow> schedule_builder" where
  "schedule_catchup n b = b\<lparr>hb_max_catchup := n\<rparr>"

definition schedule_enabled :: "bool \<Rightarrow> schedule_builder \<Rightarrow> schedule_builder" where
  "schedule_enabled e b = b\<lparr>hb_enabled := e\<rparr>"

definition validate_schedule ::
  "(string \<Rightarrow> string + cron_schedule) \<Rightarrow> schedule_builder \<Rightarrow> sdk_error + unit" where
  "validate_schedule parse b =
     (if list_all is_white (hb_schedule_id b) then Inl (SeOther ''schedule_id cannot be empty'')
      else if hb_namespace b = [] then Inl (SeOther ''namespace cannot be empty'')
      else (case hb_workflow_type b of
          None \<Rightarrow> Inl (SeOther ''workflow_type is required'')
        | Some workflow_type \<Rightarrow>
            if workflow_type = [] then Inl (SeOther ''workflow_type cannot be empty'')
            else (case hb_cron b of
                None \<Rightarrow> Inl (SeOther ''cron expression is required'')
              | Some cron \<Rightarrow> (case parse cron of
                  Inl e \<Rightarrow> Inl (SeOther (''Invalid cron expression '' @ [CHR 0x27] @ cron @ [CHR 0x27] @ '': '' @ e))
                | Inr _ \<Rightarrow>
                    if hb_max_catchup b < 0 then Inl (SeOther ''max_catchup must be non-negative'')
                    else Inr ()))))"

definition schedule_request_of :: "string \<Rightarrow> string \<Rightarrow> schedule_builder \<Rightarrow> create_schedule_request" where
  "schedule_request_of workflow_type cron b = \<lparr>
     hq_namespace = hb_namespace b, hq_schedule_id = hb_schedule_id b, hq_task_queue = workflow_type,
     hq_workflow_type = workflow_type, hq_cron_expr = cron, hq_input = map_option sdk_payload (hb_input b),
     hq_enabled = Some (hb_enabled b), hq_max_catchup = Some (hb_max_catchup b), hq_version = None\<rparr>"

definition schedule_send ::
  "sdk_env \<Rightarrow> (string \<Rightarrow> string + cron_schedule) \<Rightarrow> 's service_client \<Rightarrow> schedule_builder
    \<Rightarrow> ('s, sdk_error, schedule_proto) op" where
  "schedule_send X parse c b =
     bind_op (lift_op (validate_schedule parse b)) (\<lambda>_.
     case hb_workflow_type b of
       None \<Rightarrow> fail_op (SeOther ''workflow_type is required'')
     | Some workflow_type \<Rightarrow> (case hb_cron b of
         None \<Rightarrow> fail_op (SeOther ''cron expression is required'')
       | Some cron \<Rightarrow>
           bind_op (kagzi_call X (call_create_schedule c (schedule_request_of workflow_type cron b))) (\<lambda>r. case r of
             None \<Rightarrow> fail_op (SeOther ''Workflow schedule not returned by server'')
           | Some p \<Rightarrow> ret_op p)))"

definition sdk_get_schedule ::
  "sdk_env \<Rightarrow> 's service_client \<Rightarrow> string \<Rightarrow> string option \<Rightarrow> ('s, sdk_error, schedule_proto option) op" where
  "sdk_get_schedule X c schedule_id namespace =
     kagzi_call X (call_get_schedule c schedule_id
       (case namespace of None \<Rightarrow> default_namespace | Some ns \<Rightarrow> ns))"

definition sdk_list_schedules ::
  "sdk_env \<Rightarrow> 's service_client \<Rightarrow> string \<Rightarrow> page_request option \<Rightarrow> ('s, sdk_error, schedule_proto list) op" where
  "sdk_list_schedules X c namespace page =
     bind_op (kagzi_call X (call_list_schedules c namespace None
       (Some (case page of
           None \<Rightarrow> \<lparr>pg_page_size = 100, pg_page_token = [], pg_include_total_count = False\<rparr>
         | Some p \<Rightarrow> p)))) (\<lambda>resp. ret_op (ps_items resp))"

definition sdk_delete_schedule ::
  "sdk_env \<Rightarrow> 's service_client \<Rightarrow> string \<Rightarrow> string option \<Rightarrow> ('s, sdk_error, unit) op" where
  "sdk_delete_schedule X c schedule_id namespace =
     bind_op (kagzi_call X (call_delete_schedule c schedule_id
       (case namespace of None \<Rightarrow> default_namespace | Some ns \<Rightarrow> ns))) (\<lambda>_. ret_op ())"

subsection \<open>The client of the modelled server\<close>

definition server_services ::
  "env \<Rightarrow> (wire_detail \<Rightarrow> bytes) \<Rightarrow> store_config \<Rightarrow> (string \<Rightarrow> cron_schedule option) \<Rightarrow> int
    \<Rightarrow> (nat \<Rightarrow> timestamp) \<Rightarrow> (nat \<Rightarrow> uuid) \<Rightarrow> (db \<times> nat) service_client" where
  "server_services E enc cfg parse default_catchup t u = \<lparr>
     call_start_workflow = \<lambda>req. served E enc (\<lambda>n. wv_start_workflow E cfg (\<lambda>k. t (n + k)) (\<lambda>k. u (n + k)) req),
     call_create_schedule = \<lambda>req. served E enc (\<lambda>n. bind_op
       (sv_create_workflow_schedule E parse cfg default_catchup (\<lambda>k. t (n + k)) (\<lambda>k. u (n + k)) req)
       (\<lambda>p. ret_op (Some p))),
     call_get_schedule = \<lambda>i ns. served E enc (\<lambda>n. bind_op (sv_get_workflow_schedule E i ns) (\<lambda>p. ret_op (Some p))),
     call_list_schedules = \<lambda>ns q pg. served E enc (\<lambda>n. sv_list_workflow_schedules E ns q pg),
     call_delete_schedule = \<lambda>i ns. served E enc (\<lambda>n. sv_delete_workflow_schedule E i ns)\<rparr>"

subsection \<open>What the requests of the client are\<close>

lemma start_request_queue: "sq_task_queue (start_request_of fresh b) = sq_workflow_type (start_request_of fresh b)"
  by (simp add: start_request_of_def)

text \<open>A request that passes validation is not refused for an empty field.\<close>

lemma validated_start_accepted:
  assumes "validate_start b = Inr ()" and "fresh \<noteq> []" and "sb_idempotency_key b \<noteq> Some []"
  shows "require_non_empty (sq_external_id (start_request_of fresh b)) f = Inr (sq_external_id (start_request_of fresh b))"
    and "require_non_empty (sq_task_queue (start_request_of fresh b)) f = Inr (sb_workflow_type b)"
    and "require_non_empty (sq_namespace (start_request_of fresh b)) f = Inr (sb_namespace b)"
  using assms by (auto simp: validate_start_def start_request_of_def require_non_empty_def split: if_splits option.splits)

end
