(* ===== verification/SdkWorker.thy ===== *)
theory SdkWorker
  imports SdkContext
begin

text \<open>
  \<open>sdk/kagzi-rs/src/worker.rs\<close>: the builder of a worker, registration, what a worker does with the answer of a poll
  and of a heartbeat, the execution of a workflow, and the main loop as a transition system. JSON values are
  the type \<open>'j\<close>; a workflow is a function that may act on the state \<open>'s\<close> through its context, whose result
  is \<open>Inl\<close> the text of a panic or \<open>Inr\<close> the result of the function. The connection is a parameter.
\<close>

type_synonym ('s, 'j) workflow_fn = "sdk_context \<Rightarrow> 'j \<Rightarrow> 's \<Rightarrow> (string + (sdk_error + 'j)) \<times> 's"

definition default_max_concurrent :: nat where
  "default_max_concurrent = 100"

definition default_heartbeat_interval :: int where
  "default_heartbeat_interval = 10"

record 'f worker_builder =
  wb_addr :: string
  wb_namespace :: string
  wb_max_concurrent :: nat
  wb_default_retry :: "retry_conf option"
  wb_hostname :: "string option"
  wb_version :: "string option"
  wb_labels :: labels
  wb_workflows :: "(string \<times> 'f) list"

definition worker_new :: "string \<Rightarrow> 'f worker_builder" where
  "worker_new addr = \<lparr>wb_addr = addr, wb_namespace = ''default'', wb_max_concurrent = default_max_concurrent,
     wb_default_retry = None, wb_hostname = None, wb_version = None, wb_labels = [], wb_workflows = []\<rparr>"

definition wb_set_namespace :: "string \<Rightarrow> 'f worker_builder \<Rightarrow> 'f worker_builder" where
  "wb_set_namespace ns b = b\<lparr>wb_namespace := ns\<rparr>"

definition wb_set_max :: "nat \<Rightarrow> 'f worker_builder \<Rightarrow> 'f worker_builder" where
  "wb_set_max n b = b\<lparr>wb_max_concurrent := n\<rparr>"

definition wb_retries :: "32 word \<Rightarrow> 'f worker_builder \<Rightarrow> 'f worker_builder" where
  "wb_retries n b = b\<lparr>wb_default_retry := Some (retry_exponential n)\<rparr>"

definition wb_retry :: "retry_conf \<Rightarrow> 'f worker_builder \<Rightarrow> 'f worker_builder" where
  "wb_retry r b = b\<lparr>wb_default_retry := Some r\<rparr>"

definition wb_set_hostname :: "string \<Rightarrow> 'f worker_builder \<Rightarrow> 'f worker_builder" where
  "wb_set_hostname h b = b\<lparr>wb_hostname := Some h\<rparr>"

definition wb_set_version :: "string \<Rightarrow> 'f worker_builder \<Rightarrow> 'f worker_builder" where
  "wb_set_version v b = b\<lparr>wb_version := Some v\<rparr>"

definition wb_label :: "string \<Rightarrow> string \<Rightarrow> 'f worker_builder \<Rightarrow> 'f worker_builder" where
  "wb_label key v b = b\<lparr>wb_labels := (key, v) # filter (\<lambda>(k, _). k \<noteq> key) (wb_labels b)\<rparr>"

text \<open>Decoding of the input, the function of the user, encoding of the output.\<close>

definition wrap_workflow ::
  "string \<Rightarrow> ('j \<Rightarrow> string + 'i) \<Rightarrow> ('o \<Rightarrow> string + 'j) \<Rightarrow> (sdk_context \<Rightarrow> 'i \<Rightarrow> 's \<Rightarrow> (string + (sdk_error + 'o)) \<times> 's)
    \<Rightarrow> ('s, 'j) workflow_fn" where
  "wrap_workflow name from_value to_value handler cx v s = (case from_value v of
       Inl e \<Rightarrow> (Inr (Inl (SeOther (''Failed to deserialize workflow '' @ [CHR 0x27] @ name @ [CHR 0x27] @ '' input: '' @ e))), s)
     | Inr i \<Rightarrow> (case handler cx i s of (r, s') \<Rightarrow>
         (map_sum id (\<lambda>x. res_bind x (\<lambda>out. map_sum SeOther id (to_value out))) r, s')))"

definition wb_add_workflows :: "(string \<times> 'f) list \<Rightarrow> 'f worker_builder \<Rightarrow> 'f worker_builder" where
  "wb_add_workflows ws b = b\<lparr>wb_workflows := wb_workflows b @ ws\<rparr>"

definition validate_worker :: "'f worker_builder \<Rightarrow> string + unit" where
  "validate_worker b =
     (if wb_max_concurrent b = 0 then Inl ''max_concurrent must be greater than 0''
      else res_bind (case wb_default_retry b of
          None \<Rightarrow> Inr ()
        | Some r \<Rightarrow> map_sum (\<lambda>e. ''Invalid retry configuration: '' @ e) id (validate_retry r)) (\<lambda>_.
      if list_ex (\<lambda>(name, _). name = []) (wb_workflows b) then Inl ''Workflow names cannot be empty''
      else Inr ()))"

text \<open>
  A \<open>HashMap\<close> is an association list; an insert replaces. The permits of the semaphore are counted by
  the transition system below.
\<close>

record 'f sdk_worker =
  sw_namespace :: string
  sw_max_concurrent :: nat
  sw_hostname :: "string option"
  sw_version :: "string option"
  sw_labels :: labels
  sw_default_retry :: "retry_conf option"
  sw_workflows :: "string \<Rightarrow> 'f option"
  sw_workflow_types :: "string list"
  sw_worker_id :: "uuid option"
  sw_heartbeat_interval :: int
  sw_poll_failures :: "32 word"

definition build_worker ::
  "(string \<Rightarrow> string + unit) \<Rightarrow> 'f worker_builder \<Rightarrow> string + 'f sdk_worker" where
  "build_worker connect b =
     res_bind (validate_worker b) (\<lambda>_.
     if wb_workflows b = [] then Inl ''At least one workflow must be registered''
     else res_bind (connect (wb_addr b)) (\<lambda>_.
       Inr \<lparr>sw_namespace = wb_namespace b, sw_max_concurrent = wb_max_concurrent b,
            sw_hostname = wb_hostname b, sw_version = wb_version b, sw_labels = wb_labels b,
            sw_default_retry = wb_default_retry b,
            sw_workflows = foldl (\<lambda>m (name, h). m(name \<mapsto> h)) (\<lambda>_. None) (wb_workflows b),
            sw_workflow_types = map fst (wb_workflows b), sw_worker_id = None,
            sw_heartbeat_interval = default_heartbeat_interval, sw_poll_failures = 0\<rparr>))"

subsection \<open>Requests of the worker\<close>

text \<open>\<open>host\<close> and \<open>pid\<close> are read from the operating system.\<close>

definition primary_queue :: "'f sdk_worker \<Rightarrow> string + string" where
  "primary_queue w = (case sw_workflow_types w of
       [] \<Rightarrow> Inl ''No workflows registered'' | q # _ \<Rightarrow> Inr q)"

definition register_request_of :: "string \<Rightarrow> int \<Rightarrow> string \<Rightarrow> 'f sdk_worker \<Rightarrow> register_request" where
  "register_request_of host pid queue w = \<lparr>
     rq_namespace = sw_namespace w, rq_task_queue = queue, rq_workflow_types = sw_workflow_types w,
     rq_hostname = (case sw_hostname w of Some h \<Rightarrow> h | None \<Rightarrow> host), rq_pid = pid,
     rq_version = or_empty (sw_version w), rq_labels = sw_labels w,
     rq_queue_concurrency_limit = None, rq_workflow_type_concurrency = []\<rparr>"

definition after_register :: "env \<Rightarrow> string \<times> int \<Rightarrow> 'f sdk_worker \<Rightarrow> 'f sdk_worker option" where
  "after_register E resp w = (case parse_uuid_str E (fst resp) of
       None \<Rightarrow> None
     | Some i \<Rightarrow> Some (w\<lparr>sw_worker_id := Some i, sw_heartbeat_interval := as_u64 (snd resp)\<rparr>))"

definition poll_request_of :: "env \<Rightarrow> uuid \<Rightarrow> string \<Rightarrow> 'f sdk_worker \<Rightarrow> poll_request" where
  "poll_request_of E worker_id queue w = \<lparr>
     po_worker_id = show_uuid E worker_id, po_namespace = sw_namespace w, po_task_queue = queue,
     po_workflow_types = sw_workflow_types w\<rparr>"

text \<open>What follows from the answer of a poll; \<open>null\<close> is the JSON value that stands in for a bad input.\<close>

datatype ('f, 'j) poll_action = NoTask | RunTask 'f string 'j | NoHandler string | PollFailed

definition handle_poll ::
  "(bytes \<Rightarrow> string + 'j) \<Rightarrow> 'j \<Rightarrow> wire_status + poll_response \<Rightarrow> 'f sdk_worker
    \<Rightarrow> ('f, 'j) poll_action \<times> 'f sdk_worker" where
  "handle_poll from_bytes null resp w = (case resp of
       Inr task \<Rightarrow>
         let w' = w\<lparr>sw_poll_failures := 0\<rparr> in
         if pp_run_id task = [] then (NoTask, w')
         else (case sw_workflows w (pp_workflow_type task) of
             Some h \<Rightarrow> (RunTask h (pp_run_id task) (case from_bytes (p_data (pp_input task)) of
                 Inr v \<Rightarrow> v | Inl _ \<Rightarrow> null), w')
           | None \<Rightarrow> (NoHandler (pp_workflow_type task), w'))
     | Inl e \<Rightarrow>
         if wt_code e \<noteq> CDeadlineExceeded
         then (PollFailed, w\<lparr>sw_poll_failures := sw_poll_failures w + 1\<rparr>)
         else (NoTask, w))"

text \<open>Whether the answer of a heartbeat, (accepted, should_drain), makes the worker shut down.\<close>

definition heartbeat_stops :: "wire_status + bool \<times> bool \<Rightarrow> bool" where
  "heartbeat_stops resp = (case resp of
       Inr (accepted, should_drain) \<Rightarrow> should_drain
     | Inl e \<Rightarrow> wt_code e = CNotFound \<or> wt_code e = CFailedPrecondition)"

subsection \<open>Executing a workflow\<close>

definition execute_workflow ::
  "sdk_env \<Rightarrow> 's worker_client \<Rightarrow> ('j \<Rightarrow> string + bytes) \<Rightarrow> ('s, 'j) workflow_fn \<Rightarrow> string \<Rightarrow> 'j \<Rightarrow> retry_conf option
    \<Rightarrow> 's \<Rightarrow> 's" where
  "execute_workflow X c to_bytes handler run_id input default_retry s =
     (case handler \<lparr>cx_run_id = run_id, cx_default_retry = default_retry\<rparr> input s of (joined, s1) \<Rightarrow>
        (case (case joined of Inr r \<Rightarrow> r | Inl p \<Rightarrow> Inl (SeOther (''workflow panicked: '' @ p))) of
           Inr output \<Rightarrow> (case to_bytes output of
               Inl _ \<Rightarrow> s1
             | Inr data \<Rightarrow> snd (call_complete_workflow c run_id (Some (sdk_payload data)) s1))
         | Inl e \<Rightarrow>
             if e = SePaused then s1
             else snd (call_fail_workflow c run_id (Some (to_detail (into_kagzi X e))) s1)))"

subsection \<open>The main loop\<close>

text \<open>
  \<open>run\<close> after registration: the select loop around \<open>poll_and_execute\<close>, the spawned tasks that hold a permit
  each, the heartbeat task and the shutdown token. A poll in flight holds a permit, which it hands to the
  task that it starts; leaving the loop drops the poll. \<open>limit\<close> is the number of permits.
\<close>

datatype phase = Looping | Draining | Deregistered

record runner =
  ru_phase :: phase
  ru_polling :: bool
  ru_active :: nat
  ru_beating :: bool
  ru_shutdown :: bool

definition runner_start :: runner where
  "runner_start = \<lparr>ru_phase = Looping, ru_polling = False, ru_active = 0, ru_beating = True, ru_shutdown = False\<rparr>"

inductive runner_step :: "nat \<Rightarrow> runner \<Rightarrow> runner \<Rightarrow> bool" for limit :: nat where
  begin_poll: "ru_phase r = Looping \<Longrightarrow> \<not> ru_polling r \<Longrightarrow> ru_active r < limit
    \<Longrightarrow> runner_step limit r (r\<lparr>ru_polling := True\<rparr>)"
| start_task: "ru_polling r
    \<Longrightarrow> runner_step limit r (r\<lparr>ru_polling := False, ru_active := ru_active r + 1\<rparr>)"
| poll_without_task: "ru_polling r \<Longrightarrow> runner_step limit r (r\<lparr>ru_polling := False\<rparr>)"
| task_ends: "0 < ru_active r \<Longrightarrow> runner_step limit r (r\<lparr>ru_active := ru_active r - 1\<rparr>)"
| heartbeat: "ru_beating r
    \<Longrightarrow> runner_step limit r (r\<lparr>ru_shutdown := ru_shutdown r \<or> heartbeat_stops resp\<rparr>)"
| shutdown_called: "runner_step limit r (r\<lparr>ru_shutdown := True\<rparr>)"
| heartbeat_loop_ends: "ru_shutdown r \<Longrightarrow> runner_step limit r (r\<lparr>ru_beating := False\<rparr>)"
| leave_loop: "ru_phase r = Looping \<Longrightarrow> ru_shutdown r
    \<Longrightarrow> runner_step limit r (r\<lparr>ru_phase := Draining, ru_polling := False\<rparr>)"
| deregister: "ru_phase r = Draining \<Longrightarrow> ru_active r = 0
    \<Longrightarrow> runner_step limit r (r\<lparr>ru_phase := Deregistered, ru_beating := False\<rparr>)"

definition runner_ok :: "nat \<Rightarrow> runner \<Rightarrow> bool" where
  "runner_ok limit r \<longleftrightarrow> ru_active r + (if ru_polling r then 1 else 0) \<le> limit
     \<and> (ru_phase r \<noteq> Looping \<longrightarrow> \<not> ru_polling r \<and> ru_shutdown r)
     \<and> (ru_phase r = Deregistered \<longrightarrow> ru_active r = 0 \<and> \<not> ru_beating r)"

text \<open>The phases in their order.\<close>

fun phase_rank :: "phase \<Rightarrow> nat" where
  "phase_rank Looping = 0"
| "phase_rank Draining = 1"
| "phase_rank Deregistered = 2"

lemma phase_rank_inj: "phase_rank p = phase_rank q \<longleftrightarrow> p = q"
  by (cases p; cases q) simp_all

instantiation phase :: linorder
begin

definition less_eq_phase :: "phase \<Rightarrow> phase \<Rightarrow> bool" where
  "less_eq_phase p q \<longleftrightarrow> phase_rank p \<le> phase_rank q"

definition less_phase :: "phase \<Rightarrow> phase \<Rightarrow> bool" where
  "less_phase p q \<longleftrightarrow> phase_rank p < phase_rank q"

instance
  by intro_classes (auto simp: less_eq_phase_def less_phase_def phase_rank_inj)

end

lemma phase_le_simps [simp]:
  "Looping \<le> p" "p \<le> Deregistered" "p \<le> Looping \<longleftrightarrow> p = Looping" "Deregistered \<le> p \<longleftrightarrow> p = Deregistered"
  by (cases p; simp add: less_eq_phase_def)+

text \<open>A shutdown is never taken back, the phases follow one another, and a worker that has left its loop only
  finishes tasks.\<close>

definition runner_later :: "runner \<Rightarrow> runner \<Rightarrow> bool" where
  "runner_later r r' \<longleftrightarrow> (ru_shutdown r \<longrightarrow> ru_shutdown r') \<and> ru_phase r \<le> ru_phase r'
     \<and> (ru_phase r \<noteq> Looping \<longrightarrow> ru_active r' \<le> ru_active r) \<and> (\<not> ru_beating r \<longrightarrow> \<not> ru_beating r')"

interpretation runner: governed_steps "runner_step limit" "runner_ok limit" runner_later
proof (unfold_locales, goal_cases)
  case (1 s s')
  from 1(2,1) show ?case by cases (auto simp: runner_ok_def)
next
  case (2 s s')
  from 2(2,1) show ?case by cases (auto simp: runner_ok_def runner_later_def)
next
  case (4 r r' r'')
  then have "ru_phase r \<noteq> Looping \<Longrightarrow> ru_phase r' \<noteq> Looping"
    by (cases "ru_phase r"; cases "ru_phase r'") (auto simp: runner_later_def)
  with 4 show ?case by (auto simp: runner_later_def)
qed (simp add: runner_later_def)

text \<open>C25: A worker never runs more workflows at once than its limit, counting the task that a poll in flight may
  bring. Once it has left its loop it only finishes tasks, and it deregisters only when none is left.\<close>

theorem worker_respects_limit:
  assumes "(runner_step limit)\<^sup>*\<^sup>* runner_start r"
  shows "ru_active r + (if ru_polling r then 1 else 0) \<le> limit
     \<and> (ru_phase r = Deregistered \<longrightarrow> ru_active r = 0 \<and> \<not> ru_beating r)
     \<and> (\<forall>r'. (runner_step limit)\<^sup>*\<^sup>* r r' \<and> ru_phase r \<noteq> Looping \<longrightarrow>
          ru_active r' \<le> ru_active r \<and> \<not> ru_polling r')"
proof -
  have "runner_ok limit runner_start" by (simp add: runner_ok_def runner_start_def)
  then have ok: "runner_ok limit r" using runner.run_inv [OF assms] by simp
  have "ru_active r' \<le> ru_active r \<and> \<not> ru_polling r'"
    if "(runner_step limit)\<^sup>*\<^sup>* r r'" "ru_phase r \<noteq> Looping" for r'
  proof -
    have "runner_later r r'" "runner_ok limit r'" using runner.run_both [OF that(1) ok] by auto
    moreover from this have "ru_phase r' \<noteq> Looping"
      using that(2) by (cases "ru_phase r"; cases "ru_phase r'") (auto simp: runner_later_def)
    ultimately show ?thesis using that(2) by (simp add: runner_later_def runner_ok_def)
  qed
  then show ?thesis using ok by (auto simp: runner_ok_def)
qed

text \<open>A path: a task is started, the server asks to drain, the heartbeats end while the task still runs.\<close>

definition silent_drain :: runner where
  "silent_drain = \<lparr>ru_phase = Draining, ru_polling = False, ru_active = 1, ru_beating = False, ru_shutdown = True\<rparr>"

lemma silent_drain_reachable: "(runner_step 1)\<^sup>*\<^sup>* runner_start silent_drain"
proof -
  note start = begin_poll [of runner_start 1] start_task [of "runner_start\<lparr>ru_polling := True\<rparr>" 1]
    shutdown_called [of 1 "runner_start\<lparr>ru_active := 1\<rparr>"]
    heartbeat_loop_ends [of "runner_start\<lparr>ru_active := 1, ru_shutdown := True\<rparr>" 1]
    leave_loop [of "runner_start\<lparr>ru_active := 1, ru_shutdown := True, ru_beating := False\<rparr>" 1]
  show ?thesis
    using start unfolding runner_start_def silent_drain_def by simp
qed

lemma worker_respects_limit_witness:
  "(let idle = silent_drain\<lparr>ru_active := 0\<rparr>
    in ru_active silent_drain \<le> 1 \<and> ru_active idle \<le> ru_active silent_drain \<and> \<not> ru_polling idle)"
proof -
  have "(runner_step 1)\<^sup>*\<^sup>* silent_drain (silent_drain\<lparr>ru_active := 0\<rparr>)"
    using task_ends [of silent_drain 1] by (simp add: silent_drain_def r_into_rtranclp)
  then show ?thesis
    using worker_respects_limit [OF silent_drain_reachable] by (auto simp: silent_drain_def Let_def)
qed

end
