(* ===== verification/SdkDurable.thy ===== *)
theory SdkDurable
  imports SdkContext
begin

text \<open>
  What the SDK relies on when it runs a step: a contract between \<open>StepBuilder::run\<close> of \<open>context.rs\<close> and the
  calls of its client, and what follows from it for a step, whatever serves the calls.
\<close>

subsection \<open>The contract of a step\<close>

text \<open>
  For one step of one run: \<open>known\<close> is the result that the server remembers, \<open>inv\<close> an invariant of the state, \<open>live\<close>
  says that the run is open, and \<open>same\<close> that a call has changed nothing that matters.

  \<^item> a call of \<open>BeginStep\<close> that is answered tells what is known, and leaves it;
  \<^item> for a known result of an open run it is answered, and changes nothing;
  \<^item> a call of \<open>CompleteStep\<close> leaves what is known or records the result, and has recorded it if the run is open
    and the answer is one that the SDK takes for done;
  \<^item> while the SDK waits, what is known stays.
\<close>

locale durable_step =
  fixes c :: "'s worker_client" and cx :: sdk_context and name :: string
    and inv :: "'s \<Rightarrow> bool" and live :: "'s \<Rightarrow> bool" and known :: "'s \<Rightarrow> bytes option option"
    and same :: "'s \<Rightarrow> 's \<Rightarrow> bool"
  assumes begin_Inr: "inv s \<Longrightarrow> call_begin_step c (step_begin cx name p) s = (Inr resp, s')
      \<Longrightarrow> inv s' \<and> known s' = known s \<and> ba_step_id resp = name
        \<and> (if ba_should_execute resp then known s = None
           else \<exists>v. known s = Some v \<and> ba_cached_output resp = bytes_to_payload v)"
    and begin_hit: "inv s \<Longrightarrow> live s \<Longrightarrow> known s = Some v
      \<Longrightarrow> \<exists>s'. call_begin_step c (step_begin cx name p) s = (Inr \<lparr>ba_step_id = name, ba_should_execute = False,
            ba_cached_output = bytes_to_payload v\<rparr>, s') \<and> same s s'"
    and complete: "inv s \<Longrightarrow> call_complete_step c (cx_run_id cx) name (Some (sdk_payload out)) s = (r, s')
      \<Longrightarrow> inv s' \<and> (known s' = known s \<or> known s = None \<and> known s' = Some (Some out))
        \<and> (live s' \<longrightarrow> (case r of Inr _ \<Rightarrow> True | Inl e \<Rightarrow> wt_code e = CFailedPrecondition) \<longrightarrow> known s' \<noteq> None)"
    and wait: "inv s \<Longrightarrow> inv (wait_for c d s) \<and> known (wait_for c d s) = known s"
begin

lemma round_records:
  assumes "complete_round X c cx name out again s = (Inr (), s1)"
    and "inv s" and "known s \<in> {None, Some (Some out)}" and "live s1"
  shows "known s1 = Some (Some out) \<and> inv s1
    \<or> (\<exists>e s'. again e s' = (Inr (), s1) \<and> inv s' \<and> known s' \<in> {None, Some (Some out)})"
proof -
  obtain r s' where r: "call_complete_step c (cx_run_id cx) name (Some (sdk_payload out)) s = (r, s')" by force
  note did = complete [OF assms(2) r]
  have poss: "inv s'" "known s' \<in> {None, Some (Some out)}" using did assms(3) by auto
  show ?thesis
  proof (cases "s1 = s' \<and> (case r of Inr _ \<Rightarrow> True | Inl e \<Rightarrow> wt_code e = CFailedPrecondition)")
    case True
    then have "known s' \<noteq> None" using did assms(4) by blast
    then show ?thesis using poss True by auto
  next
    case False
    then obtain e where "again e s' = (Inr (), s1)"
      using assms(1) r by (auto simp: complete_round_def match_op_def split: sum.splits if_splits)
    then show ?thesis using poss by blast
  qed
qed

lemma loop_records:
  assumes "complete_loop X c cx name out ds s = (Inr (), s1)"
    and "inv s" and "known s \<in> {None, Some (Some out)}" and "live s1"
  shows "known s1 = Some (Some out) \<and> inv s1"
  using assms(1-3)
proof (induction ds arbitrary: s)
  case Nil
  from round_records [OF Nil.prems(1) [unfolded complete_loop.simps] Nil.prems(2,3) assms(4)] show ?case by simp
next
  case (Cons d ds)
  from round_records [OF Cons.prems(1) [unfolded complete_loop.simps] Cons.prems(2,3) assms(4)] show ?case
  proof (elim disjE exE conjE)
    fix s' assume "complete_loop X c cx name out ds (wait_for c d s') = (Inr (), s1)"
      and "inv s'" "known s' \<in> {None, Some (Some out)}"
    then show ?thesis using Cons.IH wait by metis
  qed simp
qed

text \<open>A step that returned a value has left it behind.\<close>

lemma result_is_known:
  assumes "sdk_step_run X c cx J name p f s = (Inr v, s1)" and "inv s" and "live s1"
    and f: "\<And>s. inv s \<Longrightarrow> inv (snd (f s)) \<and> known (snd (f s)) = known s"
    and J: "\<And>b. to_vec J v = Inr b \<Longrightarrow> from_slice J b = Inr v"
  obtains o1 where "known s1 = Some o1" and "from_slice J (p_data (bytes_to_payload o1)) = Inr v"
proof -
  obtain r resp s0 where b: "call_begin_step c (step_begin cx name r) s = (Inr resp, s0)"
    and rest: "if \<not> ba_should_execute resp
      then from_slice J (p_data (ba_cached_output resp)) = Inr v \<and> s0 = s1
      else \<exists>w out. f s0 = (Inr v, w) \<and> to_vec J v = Inr out
        \<and> complete_loop X c cx (step_id_or name resp) out (complete_delays X) w = (Inr (), s1)"
    using assms(1) unfolding sdk_step_run_success by (auto split: if_splits)
  note known = begin_Inr [OF assms(2) b]
  show ?thesis
  proof (cases "ba_should_execute resp")
    case False
    then show ?thesis using rest known that by force
  next
    case True
    then obtain w out where w: "f s0 = (Inr v, w)" "to_vec J v = Inr out"
      and loop: "complete_loop X c cx name out (complete_delays X) w = (Inr (), s1)"
      using rest known by (auto simp: step_id_or_def split: if_splits)
    have "inv w \<and> known w = None" using f [of s0] known w(1) True by simp
    then have "known s1 = Some (Some out)" using loop_records [OF loop] assms(3) by simp
    then show ?thesis using that J [OF w(2)] by (simp add: bytes_to_payload_def)
  qed
qed

text \<open>A known value comes back without running the closure.\<close>

lemma known_is_replayed:
  assumes "inv s" and "live s" and "known s = Some o1" and "from_slice J (p_data (bytes_to_payload o1)) = Inr v"
  obtains s' where "sdk_step_run X c cx J name p g s = (Inr v, s')" and "same s s'"
proof -
  obtain s' where "call_begin_step c (step_begin cx name (case p of Some r \<Rightarrow> Some r | None \<Rightarrow> cx_default_retry cx)) s
      = (Inr \<lparr>ba_step_id = name, ba_should_execute = False, ba_cached_output = bytes_to_payload o1\<rparr>, s')" "same s s'"
    using begin_hit [OF assms(1-3)] by blast
  then show ?thesis using that assms(4) by (simp add: sdk_step_run_def map_err_op_def)
qed

end

end
