(* ===== verification/SdkCorrect.thy ===== *)
theory SdkCorrect
  imports SdkClient SdkWorker WorkCorrect SdkDurable
begin

text \<open>
  What the code of a workflow sees when the Rust SDK runs it against the server: steps run once, sleeps end,
  and the calls that report a result are bounded.
\<close>

subsection \<open>Errors of completing a step\<close>

definition fails_in :: "'e set \<Rightarrow> ('s, 'e, 'a) op \<Rightarrow> bool" where
  "fails_in Q m \<longleftrightarrow> (\<forall>s e s'. m s = (Inl e, s') \<longrightarrow> e \<in> Q)"

named_theorems fails_rules \<open>which errors an operation can answer\<close>

lemma fails_simple [fails_rules]: "fails_in Q (ret_op a)" "fails_in Q (get_op f)"
  by (simp_all add: fails_in_def)

lemma fails_bind [fails_rules]: "fails_in Q m \<Longrightarrow> (\<And>a. fails_in Q (f a)) \<Longrightarrow> fails_in Q (bind_op m f)"
  by (auto simp: fails_in_def bind_op_def split: prod.splits sum.splits)

lemma fails_transact [fails_rules]: "fails_in Q m \<Longrightarrow> fails_in Q (transact m)"
  by (auto simp: fails_in_def transact_def split: prod.splits sum.splits)

lemma fails_if [fails_rules]: "fails_in Q m \<Longrightarrow> fails_in Q m' \<Longrightarrow> fails_in Q (if b then m else m')"
  by simp

lemma fails_case_option [fails_rules]:
  "fails_in Q m \<Longrightarrow> (\<And>a. fails_in Q (f a)) \<Longrightarrow> fails_in Q (case x of None \<Rightarrow> m | Some a \<Rightarrow> f a)"
  by (cases x) auto

definition not_precondition :: "store_error set" where
  "not_precondition = {e. st_code (map_store_error e) \<noteq> CFailedPrecondition}"

lemma sql_error_code: "st_code (map_store_error (store_error_from e)) \<noteq> CFailedPrecondition"
  by (cases e) (simp_all add: conflict_error_def invalid_argument_error_def internal_error_def status_with_detail_def)

lemma fails_put_steps: "fails_in not_precondition (put_steps rs)"
  by (auto simp: fails_in_def put_steps_def not_precondition_def sql_error_code split: option.splits)

lemma st_complete_fails: "fails_in not_precondition (st_complete cfg now new_id i k out)"
proof -
  have 1: "fails_in not_precondition (update_steps P f)" for P f
    using fails_put_steps by (simp add: fails_in_def update_steps_def)
  have 2: "fails_in not_precondition (update_steps_count P f)" for P f
    using 1 [of P f] by (auto simp: fails_in_def update_steps_count_def bind_op_def split: prod.splits sum.splits)
  have 3: "fails_in not_precondition (insert_step_row r)" for r
    using fails_put_steps by (auto simp: fails_in_def insert_step_row_def not_precondition_def
        internal_error_def status_with_detail_def out_of_range_def split: option.splits)
  have 4: "fails_in not_precondition (lift_op (step_validate_payload_size cfg b x))" for b x
    by (auto simp: fails_in_def step_validate_payload_size_def not_precondition_def
        invalid_argument_error_def status_with_detail_def)
  have 5: "fails_in not_precondition (latest_step_kind_strict i k)"
    by (auto simp: fails_in_def latest_step_kind_strict_def latest_step_kind_impl_def not_precondition_def
        not_found_error_def status_with_detail_def split: option.splits)
  show ?thesis
    unfolding st_complete_def clear_latest_def insert_step_result_def Let_def
    by (intro fails_rules 1 2 3 4 5)
qed

subsection \<open>Calls about an open run\<close>

definition open_run :: "uuid \<Rightarrow> db \<Rightarrow> bool" where
  "open_run i s = list_ex (\<lambda>r. wr_run_id r = i
     \<and> (case parse_status (wr_status r) of None \<Rightarrow> False | Some st \<Rightarrow> \<not> is_terminal st)) (runs s)"

lemma validate_open:
  assumes "wf_db s" and "open_run i s"
  obtains ns where "validate_workflow_action i allow s = (Inr ns, s)"
proof -
  obtain r st where "r \<in> set (runs s)" "wr_run_id r = i" "wr_status r = show_status st" "\<not> is_terminal st"
    using assms(2) unfolding open_run_def
    by (auto simp: list_ex_iff split: option.splits dest: parse_status_SomeD)
  then show ?thesis using validate_open_run [OF assms(1), of r st allow] that by simp
qed

lemma validate_reads: "snd (validate_workflow_action i b s) = s"
  using keepsD [of "\<lambda>x. x = s" "validate_workflow_action i b" s]
  by (simp add: validate_workflow_action_def wf_get_namespace_def check_workflow_state_def keeps_rules)

lemma begin_step_Inr:
  assumes "wf_db s" and "ws_begin_step E cfg t u req s = (Inr resp, s')" and "bq_kind req = 1"
    and "parse_uuid_str E (bq_run_id req) = Some i"
  shows "ba_step_id resp = bq_step_name req" and "wf_db s'"
    and "step_known (i, bq_step_name req) s =
      (if ba_should_execute resp then None else step_known (i, bq_step_name req) s)"
    and "\<not> ba_should_execute resp \<Longrightarrow> \<exists>v. step_known (i, bq_step_name req) s = Some v
      \<and> ba_cached_output resp = bytes_to_payload v"
    and "step_known ik s' = step_known ik s"
proof -
  have read: "s1 = s" if "validate_workflow_action i False s = (r, s1)" for r s1
    using validate_reads [of i False s] that by simp
  obtain p b where b: "st_begin cfg (t 0) (u 0) p s = (Inr b, s')" "bs_run_id p = i"
    "bs_step_id p = bq_step_name req"
    and resp: "resp = \<lparr>ba_step_id = bq_step_name req, ba_should_execute = br_should_execute b,
             ba_cached_output = bytes_to_payload (br_cached_output b)\<rparr>"
    using assms(2-4) unfolding ws_begin_step_def map_proto_step_kind_def proto_step_kind_of_def wf_get_retry_policy_def
    by (auto simp: success dest!: read)
  note r = begin_result [OF assms(1) b(1)]
  show "ba_step_id resp = bq_step_name req" "wf_db s'" "step_known ik s' = step_known ik s"
    using r resp by auto
  show "step_known (i, bq_step_name req) s =
      (if ba_should_execute resp then None else step_known (i, bq_step_name req) s)"
    "\<not> ba_should_execute resp \<Longrightarrow> \<exists>v. step_known (i, bq_step_name req) s = Some v
      \<and> ba_cached_output resp = bytes_to_payload v"
    using r(1) [symmetric] resp b(2,3) by (auto split: if_splits)
qed

lemma begin_step_replay:
  assumes "wf_db s" and "open_run i s" and "bq_kind req = 1" and "parse_uuid_str E (bq_run_id req) = Some i"
    and "bq_input req = None" and "step_known (i, bq_step_name req) s = Some v"
  shows "ws_begin_step E cfg t u req s =
    (Inr \<lparr>ba_step_id = bq_step_name req, ba_should_execute = False, ba_cached_output = bytes_to_payload v\<rparr>, s)"
proof -
  obtain ns where ns: "validate_workflow_action i False s = (Inr ns, s)"
    using validate_open [OF assms(1,2)] .
  have b: "st_begin cfg (t 0) (u 0) \<lparr>bs_run_id = i, bs_step_id = bq_step_name req, bs_step_kind = SkFunction,
      bs_input = payload_to_optional_bytes None, bs_retry_policy = pol\<rparr> s
    = (Inr \<lparr>br_should_execute = False, br_cached_output = v\<rparr>, s)" for pol
    using assms(6) by (intro begin_known) (simp_all add: payload_to_optional_bytes_def validate_optional_def)
  show ?thesis
    using ns assms(3-5)
    by (simp add: ws_begin_step_def parse_id_def wf_get_retry_policy_def map_proto_step_kind_def
        proto_step_kind_of_def b)
qed

text \<open>
  What \<open>CompleteStep\<close> does: nothing, or it records the result. A call that counts as done for the SDK has
  recorded it, if the run is still open.
\<close>

lemma complete_step_effect:
  assumes "wf_db s" and "parse_uuid_str E run = Some i"
    and "ws_complete_step E cfg now new_id run k out s = (r, s')"
  shows "s' = s \<or> st_complete cfg now new_id i k (payload_to_bytes out) s = (Inr (), s')"
    and "open_run i s' \<Longrightarrow> r = Inr x \<or> r = Inl e \<and> st_code e = CFailedPrecondition \<Longrightarrow>
      st_complete cfg now new_id i k (payload_to_bytes out) s = (Inr (), s')"
proof -
  let ?done = "st_complete cfg now new_id i k (payload_to_bytes out) s = (Inr (), s')"
  let ?ok = "r = Inr x \<or> r = Inl e \<and> st_code e = CFailedPrecondition"
  have list: "snd (st_list ps z) = z" for ps z by (simp add: st_list_def)
  obtain v where v: "validate_workflow_action i False s = (v, s)"
    using validate_reads [of i False s] by (metis surj_pair snd_conv)
  obtain c s1 where c: "st_complete cfg now new_id i k (payload_to_bytes out) s = (c, s1)" by force
  have "(s' = s \<or> ?done) \<and> (open_run i s' \<longrightarrow> ?ok \<longrightarrow> ?done)"
  proof (cases v)
    case (Inl err)
    then have "r = Inl err" "s' = s" using assms(2,3) v by (simp_all add: ws_complete_step_def parse_id_def)
    moreover have "\<not> open_run i s" using validate_open [OF assms(1)] v Inl by (metis Inl_Inr_False prod.inject)
    ultimately show ?thesis by simp
  next
    case ns: (Inr ns)
    show ?thesis
    proof (cases c)
      case (Inr z)
      then have "s' = s1"
        using assms(2,3) v ns c list [of _ s1]
        by (auto simp: ws_complete_step_def parse_id_def output_bytes bind_op_def call_store_def map_err_op_def
            split: prod.splits sum.splits if_splits) (metis snd_conv)+
      then show ?thesis using c Inr by simp
    next
      case (Inl err)
      then have "r = Inl (map_store_error err)" "s' = s1"
        using assms(2,3) v ns c by (simp_all add: ws_complete_step_def parse_id_def output_bytes)
      moreover have "err \<in> not_precondition"
        using st_complete_fails c Inl unfolding fails_in_def by blast
      moreover have "s1 = s" using c Inl st_complete_rollback by metis
      ultimately show ?thesis by (auto simp: not_precondition_def)
    qed
  qed
  then show "s' = s \<or> ?done" and "open_run i s' \<Longrightarrow> ?ok \<Longrightarrow> ?done" by auto
qed

subsection \<open>Steps run once\<close>

text \<open>Code that keeps the constraints and what is known of a step.\<close>

definition undisturbed :: "uuid \<Rightarrow> string \<Rightarrow> (db \<Rightarrow> db) \<Rightarrow> bool" where
  "undisturbed i k g \<longleftrightarrow> (\<forall>s. wf_db s \<longrightarrow> wf_db (g s) \<and> step_known (i, k) (g s) = step_known (i, k) s)"

definition reported :: "sdk_env \<Rightarrow> env \<Rightarrow> (wire_detail \<Rightarrow> bytes) \<Rightarrow> status \<Rightarrow> sdk_error" where
  "reported X E enc e = SeKagzi (kagzi_from_status (decode_detail X) (status_on_wire E enc e))"

lemma complete_loop_served:
  assumes "ws_complete_step E cfg (t n) (u n) (cx_run_id cx) k (Some (sdk_payload out)) s = (r, s')"
  shows "complete_loop X (server_client E enc cfg t u others) cx k out ds (s, n) = (case r of
       Inr _ \<Rightarrow> (Inr (), (s', n + 2))
     | Inl e \<Rightarrow>
         if st_code e = CNotFound then (Inl (reported X E enc e), (s', n + 2))
         else if st_code e = CFailedPrecondition then (Inr (), (s', n + 2))
         else (case ds of
             d # ds' \<Rightarrow> complete_loop X (server_client E enc cfg t u others) cx k out ds' (others d s', n + 2)
           | [] \<Rightarrow> (Inl (reported X E enc e), (s', n + 2))))"
  using assms
  by (cases ds) (simp_all add: complete_loop.simps complete_round_def match_op_def served_def reported_def
      status_on_wire_def split: sum.split)


text \<open>The worker service keeps the SDK's contract of a step, for a run that it knows and others that leave the step.\<close>

definition step_inv :: "env \<Rightarrow> sdk_context \<Rightarrow> uuid \<Rightarrow> string \<Rightarrow> (nat \<Rightarrow> db \<Rightarrow> db) \<Rightarrow> db \<times> nat \<Rightarrow> bool" where
  "step_inv E cx i name others w \<longleftrightarrow> wf_db (fst w) \<and> parse_uuid_str E (cx_run_id cx) = Some i
     \<and> (\<forall>d. undisturbed i name (others d))"

interpretation served: durable_step "server_client E enc cfg t u others" cx name "step_inv E cx i name others"
  "\<lambda>w. open_run i (fst w)" "\<lambda>w. step_known (i, name) (fst w)" "\<lambda>w w'. w' = (fst w, snd w + 2)"
proof (unfold_locales, goal_cases)
  case (1 w p resp w')
  then obtain s n s' where w: "w = (s, n)" "w' = (s', n + 2)"
    and b: "ws_begin_step E cfg (\<lambda>k. t (n + k)) (\<lambda>k. u (n + k)) (step_begin cx name p) s = (Inr resp, s')"
    using 1(2) that by (cases w) (simp add: success, blast)
  have i: "wf_db s" "parse_uuid_str E (cx_run_id cx) = Some i" using 1(1) by (simp_all add: step_inv_def w)
  note facts = begin_step_Inr [OF i(1) b, of i, unfolded step_begin_def, simplified, OF i(2)]
  have "ba_should_execute resp \<Longrightarrow> step_known (i, name) s = None" using facts(3) by metis
  then show ?case using 1(1) facts(1,2,4) facts(5) [of "(i, name)"] by (simp add: step_inv_def w)
next
  case (2 w v p)
  then show ?case
    using begin_step_replay [of "fst w" i "step_begin cx name p" E v cfg "\<lambda>k. t (snd w + k)" "\<lambda>k. u (snd w + k)"]
    by (cases w) (simp add: step_inv_def step_begin_def)
next
  case (3 w out r w')
  obtain s n where w: "w = (s, n)" by (cases w)
  obtain r0 s' where c: "ws_complete_step E cfg (t n) (u n) (cx_run_id cx) name (Some (sdk_payload out)) s = (r0, s')"
    by force
  have w': "w' = (s', n + 2)" "r = map_sum (status_on_wire E enc) id r0"
    using 3(2) c by (simp_all add: w served_def)
  have i: "wf_db s" "parse_uuid_str E (cx_run_id cx) = Some i" using 3(1) by (simp_all add: step_inv_def w)
  have out: "payload_to_bytes (Some (sdk_payload out)) = out" by (simp add: payload_to_bytes_def sdk_payload_def)
  note eff = complete_step_effect [OF i c, unfolded out]
  have recorded: "wf_db s' \<and> step_known (i, name) s' = (case step_known (i, name) s of Some v \<Rightarrow> Some v | None \<Rightarrow> Some (Some out))"
    if "st_complete cfg (t n) (u n) i name out s = (Inr (), s')"
    using complete_result(1,2) [OF i(1) that] by simp
  have "wf_db s' \<and> (step_known (i, name) s' = step_known (i, name) s
      \<or> step_known (i, name) s = None \<and> step_known (i, name) s' = Some (Some out))"
    using eff(1) recorded i(1) by (auto split: option.splits)
  moreover have "step_known (i, name) s' \<noteq> None"
    if "open_run i s'" "case r of Inr _ \<Rightarrow> True | Inl e \<Rightarrow> wt_code e = CFailedPrecondition"
    using eff(2) [OF that(1)] that(2) recorded
    by (cases r0) (auto simp: w'(2) status_on_wire_def split: option.splits)
  ultimately show ?case using 3(1) by (simp add: step_inv_def w w'(1))
next
  case (4 w d)
  then show ?case by (cases w) (simp add: step_inv_def undisturbed_def)
qed

text \<open>A step runs once: if the SDK ran a step and got its value, then whenever the workflow is executed again and
  reaches the same step, with any closure and any policy, the same value comes back from the server's
  memory, without executing the closure and without changing the database, as long as the run is open
  and the result of the step has not been overwritten.\<close>

theorem step_runs_once:
  assumes "wf_db s" and "parse_uuid_str E (cx_run_id cx) = Some i"
    and "sdk_step_run X (server_client E enc cfg t u others) cx J name p f (s, n) = (Inr v, (s1, n1))"
    and "\<And>d. undisturbed i name (others d)" and "\<And>m. undisturbed i name (\<lambda>s. fst (snd (f (s, m))))"
    and "\<And>b. to_vec J v = Inr b \<Longrightarrow> from_slice J b = Inr v"
    and "open_run i s1" and "wf_db s2" and "open_run i s2" and "step_known (i, name) s2 = step_known (i, name) s1"
  shows "sdk_step_run X (server_client E enc cfg t u others) cx J name p' g (s2, m) = (Inr v, (s2, m + 2))"
proof -
  have inv: "step_inv E cx i name others (s, n)" "step_inv E cx i name others (s2, m)"
    using assms(1,2,4,8) by (simp_all add: step_inv_def)
  have f: "step_inv E cx i name others (snd (f w)) \<and> step_known (i, name) (fst (snd (f w))) = step_known (i, name) (fst w)"
    if "step_inv E cx i name others w" for w
    using that assms(5) [of "snd w"] by (auto simp: step_inv_def undisturbed_def)
  obtain o1 where "step_known (i, name) s1 = Some o1" "from_slice J (p_data (bytes_to_payload o1)) = Inr v"
    using served.result_is_known [OF assms(3) inv(1) _ f assms(6)] assms(7) by auto
  then show ?thesis
    using served.known_is_replayed [where enc = enc and cfg = cfg and t = t and u = u and X = X and p = p' and g = g, OF inv(2), of o1 J v]
      assms(9,10) by auto
qed

definition bytes_codec :: "bytes codec" where
  "bytes_codec = \<lparr>to_vec = Inr, from_slice = Inr\<rparr>"

definition demo_sdk :: sdk_env where
  "demo_sdk = \<lparr>decode_detail = \<lambda>b. Some default_wire_detail, parse_duration = \<lambda>s. Inr 1500000000,
     show_wire_status = wt_message, complete_delays = [1000000000, 2000000000, 4000000000]\<rparr>"

definition demo_clock :: "nat \<Rightarrow> timestamp" where
  "demo_clock n = 2000 + int n"

definition demo_ids :: "nat \<Rightarrow> uuid" where
  "demo_ids n = of_nat (500 + n)"

definition demo_client :: "(db \<times> nat) worker_client" where
  "demo_client = server_client demo_env (\<lambda>d. []) demo_cfg demo_clock demo_ids (\<lambda>d. id)"

definition demo_context :: sdk_context where
  "demo_context = \<lparr>cx_run_id = ''2'', cx_default_retry = None\<rparr>"

lemma demo_charge:
  obtains s1 where "sdk_step_run demo_sdk demo_client demo_context bytes_codec ''charge'' None (\<lambda>w. (Inr [7], w)) (demo_db, 0)
       = (Inr [7], (s1, 4))" and "wf_db s1" and "open_run 2 s1"
proof -
  let ?b = "ws_begin_step demo_env demo_cfg (\<lambda>k. demo_clock (0 + k)) (\<lambda>k. demo_ids (0 + k))
      (step_begin demo_context ''charge'' None) demo_db"
  let ?c = "ws_complete_step demo_env demo_cfg (demo_clock 2) (demo_ids 2) (cx_run_id demo_context) ''charge''
      (Some (sdk_payload [7])) (snd ?b)"
  let ?f = "\<lambda>w :: db \<times> nat. (Inr [7] :: sdk_error + bytes, w)" and ?s1 = "snd ?c"
  have "map_sum id (\<lambda>r. (ba_step_id r, ba_should_execute r)) (fst ?b) = Inr (''charge'', True)" by code_simp
  then obtain resp where b: "?b = (Inr resp, snd ?b)" "ba_step_id resp = ''charge''" "ba_should_execute resp"
    by (cases "fst ?b") (auto simp: prod_eq_iff)
  have "map_sum id py_status (fst ?c) = Inr PsCompleted" by code_simp
  then obtain x where c: "?c = (Inr x, ?s1)" by (cases "fst ?c") (auto simp: prod_eq_iff)
  have "complete_loop demo_sdk demo_client demo_context ''charge'' [7] (complete_delays demo_sdk) (snd ?b, 2) = (Inr (), (?s1, 4))"
    unfolding demo_client_def by (subst complete_loop_served [where t = demo_clock and u = demo_ids and n = 2, OF c]) simp
  then have "sdk_step_run demo_sdk demo_client demo_context bytes_codec ''charge'' None ?f (demo_db, 0) = (Inr [7], (?s1, 4))"
    using b by (simp add: sdk_step_run_success demo_client_def bytes_codec_def step_id_or_def demo_context_def eval_nat_numeral)
  moreover have "wf_db ?s1" using keepsD [OF worker_service_keeps(5) keepsD [OF worker_service_keeps(4) demo_wf]] .
  moreover have "open_run 2 ?s1" by code_simp
  ultimately show ?thesis by (rule that)
qed

lemma step_runs_once_witness:
  "\<exists>s1. sdk_step_run demo_sdk demo_client demo_context bytes_codec ''charge'' None (\<lambda>w. (Inr [7], w)) (demo_db, 0)
       = (Inr [7], (s1, 4))
     \<and> sdk_step_run demo_sdk demo_client demo_context bytes_codec ''charge'' None (\<lambda>w. (Inl SePaused, (demo_db, 0))) (s1, 4)
       = (Inr [7], (s1, 6))"
proof -
  let ?f = "\<lambda>w :: db \<times> nat. (Inr [7] :: sdk_error + bytes, w)"
  have id2: "parse_uuid_str demo_env ''2'' = Some 2" by (simp add: demo_env_def parse_nat_def digit_def)
  obtain s1 where run: "sdk_step_run demo_sdk demo_client demo_context bytes_codec ''charge'' None ?f (demo_db, 0)
      = (Inr [7], (s1, 4))" and "wf_db s1" "open_run 2 s1"
    by (rule demo_charge)
  then have "sdk_step_run demo_sdk demo_client demo_context bytes_codec ''charge'' None
     (\<lambda>w. (Inl SePaused, (demo_db, 0))) (s1, 4) = (Inr [7], (s1, 4 + 2))"
    unfolding demo_client_def using id2
    by (intro step_runs_once [where i = 2, OF demo_wf _ run [unfolded demo_client_def]])
      (simp_all add: demo_context_def undisturbed_def bytes_codec_def)
  then show ?thesis using run by (intro exI [of _ s1]) simp
qed

subsection \<open>Sleeping\<close>

lemma begin_fresh:
  assumes "wf_db s" and "st_begin cfg now new_id p s = (Inr b, s')" and "br_should_execute b"
  obtains r where "find_latest (bs_run_id p) (bs_step_id p) s' = Some r"
    and "sr_step_kind r = show_step_kind (bs_step_kind p)" and "sr_status r = show_step_status SsRunning"
proof -
  have v: "validate_optional cfg (bs_input p) ''Step input'' = Inr ()"
    using assms(2) by (cases "validate_optional cfg (bs_input p) ''Step input''")
      (auto simp: st_begin_def transact_def bind_op_def)
  have None: "step_known (bs_run_id p, bs_step_id p) s = None"
    using begin_result(1) [OF assms(1,2)] assms(3) by simp
  let ?r = "(step_defaults now new_id (bs_run_id p) (bs_step_id p) (bs_step_kind p)
       SsRunning)\<lparr>sr_input := bs_input p, sr_started_at := Some now, sr_retry_policy := bs_retry_policy p\<rparr>"
  have ins: "insert_step_row ?r (s\<lparr>steps := sql_update (latest_of (sr_run_id ?r) (sr_step_id ?r))
           (\<lambda>r. r\<lparr>sr_is_latest := False\<rparr>) (steps s)\<rparr>) = (Inr (), s')"
    using assms(2) unfolding begin_unknown [OF assms(1) v None]
    by (auto simp: transact_def bind_op_def split: prod.splits sum.splits)
  obtain n ns where "find_latest (sr_run_id ?r) (sr_step_id ?r) s'
      = Some (?r\<lparr>sr_attempt_number := n, sr_namespace := ns\<rparr>)"
    by (rule replace_latest [OF assms(1) ins]) auto
  then show ?thesis using that [of "?r\<lparr>sr_attempt_number := n, sr_namespace := ns\<rparr>"]
    by (simp add: step_defaults_def)
qed

lemma begin_step_fresh:
  assumes "wf_db s" and "ws_begin_step E cfg t u req s = (Inr resp, s0)" and "ba_should_execute resp"
    and "parse_uuid_str E (bq_run_id req) = Some i"
    and "bq_kind req = 1 \<and> kind = SkFunction \<or> bq_kind req = 2 \<and> kind = SkSleep"
  obtains r where "find_latest i (bq_step_name req) s0 = Some r" and "sr_step_kind r = show_step_kind kind"
    and "sr_status r = show_step_status SsRunning" and "runs s0 = runs s" and "wf_db s0"
proof -
  have read: "z = s" if "validate_workflow_action i False s = (r, z)" for r z
    using validate_reads [of i False s] that by simp
  obtain p b0 where b0: "st_begin cfg (t 0) (u 0) p s = (Inr b0, s0)" "br_should_execute b0" "bs_run_id p = i"
    "bs_step_id p = bq_step_name req" "bs_step_kind p = kind"
    using assms(2-5) unfolding ws_begin_step_def map_proto_step_kind_def proto_step_kind_of_def wf_get_retry_policy_def
    by (auto simp: success split: if_splits dest!: read)
  obtain r where "find_latest i (bq_step_name req) s0 = Some r" "sr_step_kind r = show_step_kind kind"
    "sr_status r = show_step_status SsRunning"
    using begin_fresh [OF assms(1) b0(1,2)] unfolding b0(3-5) by metis
  moreover have "runs s0 = runs s" using keeps_run [OF same_runs_steps(1) refl b0(1)] .
  moreover have "wf_db s0" using begin_result(2) [OF assms(1) b0(1)] .
  ultimately show ?thesis using that by metis
qed

lemma known_completed:
  assumes "wf_db s" and "step_known (i, k) s \<noteq> None"
  shows "st_complete cfg now new_id i k [] s = (Inr (), s)"
proof -
  obtain z where "find_latest i k s = Some z" "sr_status z = show_step_status SsCompleted"
    using assms(2) by (auto simp: step_known_def split: option.splits if_splits)
  then show ?thesis by (intro complete_completed [OF assms(1)]) auto
qed

lemma nap_begin_known:
  assumes "wf_db s" and "parse_uuid_str E (cx_run_id cx) = Some i" and "open_run i s"
    and "step_known (i, name) s = Some v"
  shows "ws_begin_step E cfg t u (sleep_begin cx name) s
     = (Inr \<lparr>ba_step_id = name, ba_should_execute = False, ba_cached_output = bytes_to_payload v\<rparr>, s)"
proof -
  obtain ns where ns: "validate_workflow_action i False s = (Inr ns, s)"
    using validate_open [OF assms(1,3)] .
  have b: "st_begin cfg now new \<lparr>bs_run_id = i, bs_step_id = name, bs_step_kind = SkSleep,
      bs_input = payload_to_optional_bytes (Some (sdk_payload [])), bs_retry_policy = pol\<rparr> s
    = (Inr \<lparr>br_should_execute = False, br_cached_output = v\<rparr>, s)" for now new pol
    using assms(4) by (intro begin_known) (simp_all add: payload_to_optional_bytes_def validate_optional_def sdk_payload_def)
  have "st_complete cfg now new i name [] s = (Inr (), s)" for now new
    using assms(4) by (intro known_completed [OF assms(1)]) simp
  then show ?thesis
    using ns assms(2)
    by (simp add: ws_begin_step_def sleep_begin_def parse_id_def wf_get_retry_policy_def map_proto_step_kind_def
        proto_step_kind_of_def b)
qed

lemma ws_sleep_same_steps: "keeps (\<lambda>s. steps s = S) (ws_sleep E now run d)"
proof -
  have "keeps (\<lambda>s. steps s = S) (park_run now i st us)" for i st us
    by (auto simp: keeps_def park_run_def update_runs_def put_runs_def split: option.splits)
  then show ?thesis
    unfolding ws_sleep_def wf_schedule_sleep_def by (intro keeps_rules)
qed

text \<open>A call of \<open>sleep\<close> that pauses the workflow has begun a RUNNING sleep step and then called \<open>Sleep\<close>.\<close>

lemma sleep_paused:
  assumes "wf_db s" and "parse_uuid_str E (cx_run_id cx) = Some i"
    and "sleep_internal X (server_client E enc cfg t u others) cx name d (s, n) = (Inl SePaused, (s1, n1))"
  obtains r s0 where "find_latest i name s1 = Some r" and "sr_step_kind r = show_step_kind SkSleep"
    and "sr_status r = show_step_status SsRunning" and "runs s0 = runs s" and "wf_db s0"
    and "ws_sleep E (t (n + 2)) (cx_run_id cx) (Some (prost_duration d)) s0 = (Inr (), s1)"
proof -
  let ?opening = "ws_begin_step E cfg (\<lambda>k. t (n + k)) (\<lambda>k. u (n + k)) (sleep_begin cx name)"
  obtain resp s0 where b: "?opening s = (Inr resp, s0)" "ba_should_execute resp"
    and sl: "ws_sleep E (t (n + 2)) (cx_run_id cx) (Some (prost_duration d)) s0 = (Inr (), s1)"
    using assms(3) unfolding sleep_internal_def
    by (auto simp: bind_op_def kagzi_call_def map_err_op_def served_def split: prod.splits sum.splits if_splits)
  obtain r where r: "find_latest i name s0 = Some r" "sr_step_kind r = show_step_kind SkSleep"
    "sr_status r = show_step_status SsRunning" and s0: "runs s0 = runs s" "wf_db s0"
    using begin_step_fresh [OF assms(1) b, of i SkSleep] assms(2) by (auto simp: sleep_begin_def)
  have "steps s1 = steps s0" using keeps_run [OF ws_sleep_same_steps refl sl] by simp
  then have "find_latest i name s1 = find_latest i name s0" by (simp add: find_latest_def)
  then show ?thesis using that r s0 sl by metis
qed

abbreviation demo_nap :: "(status + begin_step_response) \<times> db" where
  "demo_nap \<equiv> ws_begin_step demo_env demo_cfg (\<lambda>k. demo_clock (0 + k)) (\<lambda>k. demo_ids (0 + k))
     (sleep_begin demo_context ''nap'') demo_db"

lemma demo_nap_paused:
  assumes "ws_sleep demo_env (demo_clock 2) ''2'' (Some (prost_duration d)) (snd demo_nap) = (Inr (), s1)"
  shows "sleep_internal demo_sdk demo_client demo_context ''nap'' d (demo_db, 0) = (Inl SePaused, (s1, 4))"
proof -
  have "map_sum id (\<lambda>r. (ba_step_id r, ba_should_execute r)) (fst demo_nap) = Inr (''nap'', True)" by code_simp
  then obtain resp where b: "demo_nap = (Inr resp, snd demo_nap)" "ba_step_id resp = ''nap''" "ba_should_execute resp"
    by (cases "fst demo_nap") (auto simp: prod_eq_iff)
  have "cx_run_id demo_context = ''2''" by (simp add: demo_context_def)
  then show ?thesis using b assms
    by (simp add: sleep_internal_def demo_client_def step_id_or_def eval_nat_numeral)
qed

lemma demo_id2: "parse_uuid_str demo_env (cx_run_id demo_context) = Some 2"
  by (simp add: demo_env_def demo_context_def parse_nat_def digit_def)

definition demo_claim :: claimed_workflow where
  "demo_claim = \<lparr>cl_run_id = 2, cl_workflow_type = ''Order'', cl_input = [], cl_locked_by = Some ''70''\<rparr>"

text \<open>C11: A sleep ends: after \<open>sleep\<close> has paused the workflow, the next time the run is handed to a worker, executing
  the workflow again passes that same sleep at once, without pausing and without changing the database.\<close>

theorem sleep_ends_with_next_dispatch:
  assumes "wf_db s" and "parse_uuid_str E (cx_run_id cx) = Some i"
    and "sleep_internal X (server_client E enc cfg t u others) cx name d (s, n) = (Inl SePaused, (s1, n1))"
    and "wf_db s2" and "find_latest i name s2 = find_latest i name s1"
    and "cl_run_id c = i" and "dispatch E cfg t' new_id c s2 = (Inr resp, s3)" and "open_run i s3"
    and "name \<noteq> lifecycle_step_id SkWorkflowStarted"
  shows "sleep_internal X (server_client E enc cfg t u others) cx name d' (s3, m) = (Inr (), (s3, m + 2))"
proof -
  obtain r where r: "find_latest i name s2 = Some r" "sr_step_kind r = show_step_kind SkSleep"
    "sr_status r = show_step_status SsRunning"
    using sleep_paused [OF assms(1-3)] assms(5) by metis
  have known: "step_known (i, name) s3 = Some (sr_output r)"
    using woken_sleep_known [OF assms(4) _ r(2,3) assms(9,7)] r(1) assms(6) by simp
  have wf: "wf_db s3" using keeps_run [OF keeps_dispatch assms(4,7)] .
  have "ws_begin_step E cfg t0 u0 (sleep_begin cx name) s3 = (Inr \<lparr>ba_step_id = name,
      ba_should_execute = False, ba_cached_output = bytes_to_payload (sr_output r)\<rparr>, s3)" for t0 u0
    by (rule nap_begin_known [OF wf assms(2,8) known])
  then show ?thesis by (simp add: sleep_internal_def)
qed

lemma sleep_ends_with_next_dispatch_witness:
  "\<exists>s1 s3. sleep_internal demo_sdk demo_client demo_context ''nap'' 2000000000 (demo_db, 0) = (Inl SePaused, (s1, 4))
     \<and> s3 = snd (dispatch demo_env demo_cfg (\<lambda>_. 9000) 700 demo_claim s1)
     \<and> sleep_internal demo_sdk demo_client demo_context ''nap'' 2000000000 (s3, 4) = (Inr (), (s3, 6))"
proof -
  let ?sl = "ws_sleep demo_env (demo_clock 2) ''2'' (Some (2, 0)) (snd demo_nap)"
  let ?d = "dispatch demo_env demo_cfg (\<lambda>_. 9000) 700 demo_claim (snd ?sl)"
  have "fst ?sl = Inr ()" by code_simp
  then have "?sl = (Inr (), snd ?sl)" by (simp add: prod_eq_iff)
  then have p: "sleep_internal demo_sdk demo_client demo_context ''nap'' 2000000000 (demo_db, 0) = (Inl SePaused, (snd ?sl, 4))"
    by (intro demo_nap_paused) (simp add: prost_duration_def as_i64_def)
  have wf: "wf_db (snd ?sl)" using keepsD [OF worker_service_keeps(9) keepsD [OF worker_service_keeps(4) demo_wf]] .
  have "map_sum id pp_run_id (fst ?d) = Inr ''2''" by code_simp
  then obtain resp where d: "?d = (Inr resp, snd ?d)" by (cases "fst ?d") (auto simp: prod_eq_iff)
  have "open_run 2 (snd ?d)" by code_simp
  then have "sleep_internal demo_sdk demo_client demo_context ''nap'' 2000000000 (snd ?d, 4) = (Inr (), (snd ?d, 4 + 2))"
    unfolding demo_client_def
    by (intro sleep_ends_with_next_dispatch [OF demo_wf demo_id2 p [unfolded demo_client_def] wf refl _ d])
      (simp_all add: demo_claim_def lifecycle_step_id_def)
  then show ?thesis using p by (intro exI [of _ "snd ?sl"] exI [of _ "snd ?d"]) simp
qed

text \<open>C35: A sleep of less than a second does not put the run to sleep: the workflow stops as paused, but the server
  takes the duration as zero seconds and leaves the run as it is, RUNNING and locked, so that nobody can
  claim it before its lease ends (which the heartbeats of the same worker extend).\<close>

theorem short_sleep_strands_run:
  assumes "wf_db s" and "parse_uuid_str E (cx_run_id cx) = Some i"
    and "sleep_internal X (server_client E enc cfg t u others) cx name d (s, n) = (Inl SePaused, (s1, n1))"
    and "d < 1000000000" and "duration_secs E (0, int d) = Some 0"
    and "r \<in> set (runs s)" and "wr_run_id r = i" and "wr_available_at r = Some lease"
  shows "runs s1 = runs s \<and> (\<forall>locked now ns queue worker types secs c s2.
     wf_poll_workflow locked now ns queue worker types secs s1 = (Inr (Some c), s2) \<and> cl_run_id c = i
       \<longrightarrow> lease \<le> now)"
proof -
  obtain s0 where s0: "runs s0 = runs s" "wf_db s0"
    "ws_sleep E (t (n + 2)) (cx_run_id cx) (Some (prost_duration d)) s0 = (Inr (), s1)"
    using sleep_paused [OF assms(1-3)] by metis
  then have "s1 = s0"
    using assms(2,4,5) by (simp add: ws_sleep_def parse_id_def require_some_def prost_duration_def as_i64_def)
  then have same: "runs s1 = runs s" and wf: "wf_db s1" using s0 by simp_all
  have "lease \<le> now"
    if poll: "wf_poll_workflow locked now ns queue worker types secs s1 = (Inr (Some c), s2)" "cl_run_id c = i"
    for locked now ns queue worker types secs c s2
  proof -
    obtain x where "x \<in> set (runs s1)" "claimable now ns queue types x" "wr_run_id x = i"
      using poll by (elim poll_Some) auto
    then show ?thesis
      using run_unique [OF wf, of x r] same assms(6-8) by (auto simp: claimable_def)
  qed
  then show ?thesis using same by blast
qed

lemma short_sleep_strands_run_witness:
  "\<exists>s1. sleep_internal demo_sdk demo_client demo_context ''nap'' 500000000 (demo_db, 0) = (Inl SePaused, (s1, 4))
     \<and> runs s1 = runs demo_db
     \<and> (\<forall>c s2. wf_poll_workflow no_locks 4000 ''default'' ''q'' ''w2'' [] 60 s1 = (Inr (Some c), s2) \<longrightarrow> cl_run_id c \<noteq> 2)"
proof -
  let ?sl = "ws_sleep demo_env (demo_clock 2) ''2'' (Some (0, 500000000)) (snd demo_nap)"
  have "fst ?sl = Inr ()" by code_simp
  then have "?sl = (Inr (), snd ?sl)" by (simp add: prod_eq_iff)
  then have p: "sleep_internal demo_sdk demo_client demo_context ''nap'' 500000000 (demo_db, 0) = (Inl SePaused, (snd ?sl, 4))"
    by (intro demo_nap_paused) (simp add: prost_duration_def as_i64_def)
  have "demo_running \<in> set (runs demo_db)" "wr_run_id demo_running = 2" "wr_available_at demo_running = Some 5000"
    "duration_secs demo_env (0, int 500000000) = Some 0"
    by (simp_all add: demo_defs demo_env_def)
  from short_sleep_strands_run [OF demo_wf demo_id2 p [unfolded demo_client_def] _ this(4) this(1-3)]
  have "runs (snd ?sl) = runs demo_db \<and> (\<forall>locked now ns queue worker types secs c s2.
     wf_poll_workflow locked now ns queue worker types secs (snd ?sl) = (Inr (Some c), s2) \<and> cl_run_id c = 2
       \<longrightarrow> 5000 \<le> now)" by simp
  then show ?thesis using p by (intro exI [of _ "snd ?sl"]) fastforce
qed

subsection \<open>Which runs a worker gets\<close>

text \<open>C34: A worker only gets runs of one queue, the name of its first workflow type. The client of the SDK puts every
  run into the queue named after its type, so that of all the runs that it starts, a worker gets only those
  of its first type, whatever other types it has registered.\<close>

theorem worker_gets_only_first_type:
  assumes "primary_queue w = Inr q"
    and "ws_poll_task E cfg ws t i rd rds (poll_request_of E worker_id q w) s = (Inr resp, s')"
    and "pp_run_id resp \<noteq> []"
  shows "\<exists>r\<in>set (runs s'). pp_run_id resp = show_uuid E (wr_run_id r) \<and> wr_task_queue r = q
     \<and> wr_workflow_type r \<in> set (sw_workflow_types w)
     \<and> (\<forall>fresh b. wr_task_queue r = sq_task_queue (start_request_of fresh b)
           \<and> wr_workflow_type r = sq_workflow_type (start_request_of fresh b)
         \<longrightarrow> pp_workflow_type resp = hd (sw_workflow_types w))"
proof -
  let ?req = "poll_request_of E worker_id q w"
  obtain k :: worker where loop: "poll_loop E cfg ws t i (po_namespace ?req) (po_task_queue ?req) (po_worker_id ?req)
      (filter (\<lambda>ty. ty \<in> set (po_workflow_types ?req)) (k_workflow_types k)) (rd # rds) s = (Inr resp, s')"
    and some: "filter (\<lambda>ty. ty \<in> set (po_workflow_types ?req)) (k_workflow_types k) \<noteq> []"
    using assms(2) unfolding ws_poll_task_def wk_find_by_id_def Let_def by (auto simp only: success)
  obtain r where r: "r \<in> set (runs s')" "pp_run_id resp = show_uuid E (wr_run_id r)"
    "pp_workflow_type resp = wr_workflow_type r" "held_by (po_worker_id ?req) (po_namespace ?req) (po_task_queue ?req)
       (filter (\<lambda>ty. ty \<in> set (po_workflow_types ?req)) (k_workflow_types k)) r"
    using poll_loop_delivers [OF loop assms(3) some] by blast
  have "q = hd (sw_workflow_types w)"
    using assms(1) by (auto simp: primary_queue_def split: list.splits)
  then show ?thesis
    using r by (intro bexI [of _ r]) (auto simp: held_by_def poll_request_of_def start_request_queue)
qed

definition demo_sdk_worker :: "unit sdk_worker" where
  "demo_sdk_worker = \<lparr>sw_namespace = ''default'', sw_max_concurrent = 1, sw_hostname = None, sw_version = None,
     sw_labels = [], sw_default_retry = None, sw_workflows = \<lambda>_. Some (), sw_workflow_types = [''q'', ''Order''],
     sw_worker_id = Some 70, sw_heartbeat_interval = 10, sw_poll_failures = 0\<rparr>"

lemma worker_gets_only_first_type_witness:
  "\<exists>resp s'. ws_poll_task demo_env demo_cfg default_worker_settings (\<lambda>_. 300) 90 (quiet_round 300) []
       (poll_request_of demo_env 70 ''q'' demo_sdk_worker) demo_workers_db = (Inr resp, s')
     \<and> pp_run_id resp = ''1'' \<and> pp_workflow_type resp = ''Order''
     \<and> (\<exists>r\<in>set (runs s'). pp_run_id resp = show_uuid demo_env (wr_run_id r) \<and> wr_task_queue r = ''q'')"
proof -
  let ?c = "ws_poll_task demo_env demo_cfg default_worker_settings (\<lambda>_. 300) 90 (quiet_round 300) []
       (poll_request_of demo_env 70 ''q'' demo_sdk_worker) demo_workers_db"
  have "map_sum id (\<lambda>r. (pp_run_id r, pp_workflow_type r)) (fst ?c) = Inr (''1'', ''Order'')" by code_simp
  then obtain resp where resp: "?c = (Inr resp, snd ?c)" "pp_run_id resp = ''1''" "pp_workflow_type resp = ''Order''"
    by (cases "fst ?c") (auto simp: prod_eq_iff)
  have "primary_queue demo_sdk_worker = Inr ''q''" by (simp add: primary_queue_def demo_sdk_worker_def)
  moreover have "pp_run_id resp \<noteq> []" using resp(2) by simp
  ultimately show ?thesis using worker_gets_only_first_type [OF _ resp(1)] resp by blast
qed

text \<open>A workflow of one step, whose value is its output.\<close>

definition one_step_workflow ::
  "sdk_env \<Rightarrow> 's worker_client \<Rightarrow> 'r codec \<Rightarrow> ('r \<Rightarrow> 'j) \<Rightarrow> string \<Rightarrow> retry_conf option
    \<Rightarrow> ('s, sdk_error, 'r) op \<Rightarrow> ('s, 'j) workflow_fn" where
  "one_step_workflow X c J to_json name p f cx v w =
     (case sdk_step_run X c cx J name p f w of (x, w') \<Rightarrow> (Inr (map_sum id to_json x), w'))"

text \<open>A call that fails once fails the workflow for good: if \<open>BeginStep\<close> answers any error, also one that would
  pass, such as an unavailable server, the error leaves the workflow as a plain status, and the worker
  reports it with \<open>FailWorkflow\<close> as an internal error, upon which the RUNNING run is FAILED, whatever its retry
  policies say.\<close>

theorem failed_begin_fails_run:
  assumes wf: "wf_db s" and r: "r \<in> set (runs s)" "wr_status r = show_status WsRunning"
    and run: "parse_uuid_str E run = Some (wr_run_id r)"
    and c: "c = (server_client E enc cfg t u others)\<lparr>call_begin_step := \<lambda>req w. (Inl st, w)\<rparr>"
  shows "\<exists>r'\<in>set (runs (fst (execute_workflow X c to_bytes (one_step_workflow X c J to_json name p f) run v dr (s, n)))).
     wr_run_id r' = wr_run_id r \<and> wr_status r' = show_status WsFailed
     \<and> wr_error r' = Some (show_wire_status X st)"
proof -
  let ?m = "show_wire_status X st"
  let ?d = "to_detail (kagzi_new EcInternal ?m)"
  let ?event = "st_record_lifecycle_event cfg (t (n + 1)) (u n) (wr_run_id r) SkWorkflowFailed (Some (bytes_of_string ?m))"
  let ?s1 = "s\<lparr>runs := sql_update (running_row (wr_run_id r)) (set_failed (t n) ?m) (runs s)\<rparr>"
  have valid: "validate_workflow_action (wr_run_id r) False s = (Inr (wr_namespace r), s)"
    using validate_open_run [OF wf r, of False] by simp
  have sent: "msg_text E (ed_message (detail_received ?d)) = ?m"
    by (simp add: detail_received_def to_detail_def kagzi_new_def msg_text_def)
  have "ws_fail_workflow E cfg (\<lambda>k. t (n + k)) (u n) run (Some (detail_received ?d)) s = (Inr PwFailed, snd (?event ?s1))"
    using run valid fail_run(1) [OF wf, of "t n" "wr_run_id r" ?m]
    by (simp add: ws_fail_workflow_def parse_id_def sent ignore_op_def Let_def)
  then have "execute_workflow X c to_bytes (one_step_workflow X c J to_json name p f) run v dr (s, n) = (snd (?event ?s1), n + 2)"
    by (simp add: execute_workflow_def one_step_workflow_def c sdk_step_run_def Let_def map_err_op_def into_kagzi_def
        show_sdk_error_def)
  moreover have "runs (snd (?event ?s1)) = runs ?s1" using keepsD [OF same_runs_steps(5), of ?s1 "runs ?s1"] by simp
  moreover have "set_failed (t n) ?m r \<in> set (runs ?s1)"
    using r by (force simp: in_sql_update)
  ultimately have "set_failed (t n) ?m r \<in> set (runs (fst (execute_workflow X c to_bytes
      (one_step_workflow X c J to_json name p f) run v dr (s, n))))" by simp
  moreover have "wr_run_id (set_failed (t n) ?m r) = wr_run_id r" "wr_status (set_failed (t n) ?m r) = show_status WsFailed"
    "wr_error (set_failed (t n) ?m r) = Some ?m"
    by (simp_all add: set_failed_def)
  ultimately show ?thesis by blast
qed

definition unavailable :: wire_status where
  "unavailable = \<lparr>wt_code = CUnavailable, wt_message = ''connection lost'', wt_details = []\<rparr>"

lemma failed_begin_fails_run_witness:
  "\<exists>r'\<in>set (runs (fst (execute_workflow demo_sdk (demo_client\<lparr>call_begin_step := \<lambda>req w. (Inl unavailable, w)\<rparr>) Inr
       (one_step_workflow demo_sdk (demo_client\<lparr>call_begin_step := \<lambda>req w. (Inl unavailable, w)\<rparr>) bytes_codec id ''charge''
          (Some retry_forever) (\<lambda>w. (Inr [7], w))) ''2'' [] None (demo_db, 0)))).
     wr_run_id r' = 2 \<and> wr_status r' = show_status WsFailed \<and> wr_error r' = Some ''connection lost''"
proof -
  have "demo_running \<in> set (runs demo_db)" "wr_status demo_running = show_status WsRunning" "wr_run_id demo_running = 2"
    by (simp_all add: demo_defs)
  moreover have "parse_uuid_str demo_env ''2'' = Some (wr_run_id demo_running)"
    using demo_id2 by (simp add: demo_context_def demo_defs)
  moreover have "show_wire_status demo_sdk unavailable = ''connection lost''" by (simp add: demo_sdk_def unavailable_def)
  ultimately show ?thesis
    using failed_begin_fails_run [OF demo_wf, where r = demo_running and X = demo_sdk and st = unavailable and E = demo_env
        and run = "''2''" and enc = "\<lambda>d. []" and cfg = demo_cfg and t = demo_clock and u = demo_ids
        and others = "\<lambda>d. id" and to_bytes = Inr and J = bytes_codec and to_json = id and name = "''charge''"
        and p = "Some retry_forever" and f = "\<lambda>w. (Inr [7], w)" and v = "[]" and dr = None and n = 0]
    by (simp add: demo_client_def)
qed

end
