(* ===== verification/QueueNotifier.thy ===== *)
theory QueueNotifier
  imports Prelude
begin

text \<open>
  \<open>crates/kagzi-queue\<close>: \<open>PostgresNotifier\<close>, which wakes waiting polls. The map from queue keys to broadcast channels
  holds, per channel, its receivers by number, each with the count of messages that wait for it. What
  \<open>tokio::sync::broadcast\<close> does is its documented behaviour: a message goes to every receiver there is, and one
  that lags keeps as many messages as the channel has capacity. The database is a parameter: whether
  \<open>pg_notify\<close> succeeds, and what the connections of the listener answer.
\<close>

type_synonym channel = "(nat \<times> nat) list"

record notifier =
  nf_channels :: "(string \<times> channel) list"
  nf_channel_capacity :: nat
  nf_cleanup_interval_secs :: nat
  nf_max_reconnect_secs :: nat

record queue_settings =
  channel_capacity :: nat
  cleanup_interval_secs :: nat
  poll_jitter_ms :: nat
  max_reconnect_secs :: nat

definition default_queue_settings :: queue_settings where
  "default_queue_settings = \<lparr>channel_capacity = 64, cleanup_interval_secs = 300, poll_jitter_ms = 100,
     max_reconnect_secs = 300\<rparr>"

definition notifier_new :: "nat \<Rightarrow> nat \<Rightarrow> nat \<Rightarrow> notifier" where
  "notifier_new capacity cleanup reconnect = \<lparr>nf_channels = [], nf_channel_capacity = capacity,
     nf_cleanup_interval_secs = cleanup, nf_max_reconnect_secs = reconnect\<rparr>"

definition queue_key :: "string \<Rightarrow> string \<Rightarrow> string" where
  "queue_key namespace task_queue = namespace @ '':'' @ task_queue"

definition get_or_create_channel :: "string \<Rightarrow> notifier \<Rightarrow> notifier" where
  "get_or_create_channel key q = (case map_of (nf_channels q) key of
       Some _ \<Rightarrow> q | None \<Rightarrow> q\<lparr>nf_channels := (key, []) # nf_channels q\<rparr>)"

definition update_channel :: "string \<Rightarrow> (channel \<Rightarrow> channel) \<Rightarrow> notifier \<Rightarrow> notifier" where
  "update_channel key f q =
     q\<lparr>nf_channels := map (\<lambda>(k, c). (k, if k = key then f c else c)) (nf_channels q)\<rparr>"

definition cleanup_stale_channels :: "notifier \<Rightarrow> notifier" where
  "cleanup_stale_channels q = q\<lparr>nf_channels := filter (\<lambda>(key, c). c \<noteq> []) (nf_channels q)\<rparr>"

text \<open>\<open>tx.send(())\<close> on the channel of a key, if there is one.\<close>

definition send_local :: "string \<Rightarrow> notifier \<Rightarrow> notifier" where
  "send_local key q =
     update_channel key (map (\<lambda>(i, n). (i, min (Suc n) (nf_channel_capacity q)))) q"

text \<open>\<open>pg\<close> is the result of \<open>pg_notify\<close> with the key as payload.\<close>

definition notify :: "(string \<Rightarrow> 'e + unit) \<Rightarrow> string \<Rightarrow> string \<Rightarrow> (notifier, 'e, unit) op" where
  "notify pg namespace task_queue =
     bind_op (lift_op (pg (queue_key namespace task_queue))) (\<lambda>_.
     (\<lambda>q. (Inr (), send_local (queue_key namespace task_queue) q)))"

text \<open>\<open>i\<close> is the number of the new receiver; it sees the messages sent from now on.\<close>

definition subscribe :: "nat \<Rightarrow> string \<Rightarrow> string \<Rightarrow> notifier \<Rightarrow> notifier" where
  "subscribe i namespace task_queue q =
     (let key = queue_key namespace task_queue
      in update_channel key (\<lambda>c. (i, 0) # c) (get_or_create_channel key q))"

definition drop_receiver :: "nat \<Rightarrow> notifier \<Rightarrow> notifier" where
  "drop_receiver i q =
     q\<lparr>nf_channels := map (\<lambda>(k, c). (k, filter (\<lambda>(j, n). j \<noteq> i) c)) (nf_channels q)\<rparr>"

definition waiting :: "nat \<Rightarrow> string \<Rightarrow> notifier \<Rightarrow> nat option" where
  "waiting i key q = Option.bind (map_of (nf_channels q) key) (\<lambda>c. map_of c i)"

subsection \<open>The listener\<close>

text \<open>
  One attempt to connect and listen: \<open>Inr\<close> a connection, or the error of either call. \<open>delays\<close> are what the
  backoff iterator, limited to \<open>max_attempts\<close>, still gives; a token that is cancelled during a delay is seen
  before the next attempt.
\<close>

definition max_reconnect_attempts :: "notifier \<Rightarrow> nat" where
  "max_reconnect_attempts q = max (nf_max_reconnect_secs q div 10) 3"

datatype ('e, 'c) attempt = Connected 'c | ConnectFailed 'e | ListenFailed 'e

text \<open>\<open>attempt n\<close> is the answer to the \<open>n\<close>-th attempt, \<open>connect n\<close> that of the plain connection made when the token
  is cancelled (\<open>cancelled n\<close>) before it. The result also counts the attempts.\<close>

fun reconnect_listener ::
  "(nat \<Rightarrow> bool) \<Rightarrow> (nat \<Rightarrow> 'e + 'c) \<Rightarrow> (nat \<Rightarrow> ('e, 'c) attempt) \<Rightarrow> 'e \<Rightarrow> nat \<Rightarrow> nat list \<Rightarrow> ('e + 'c) \<times> nat" where
  "reconnect_listener cancelled connect attempt closed n ds =
     (if cancelled n then (connect n, n)
      else (case attempt n of
          Connected c \<Rightarrow> (Inr c, Suc n)
        | ListenFailed e \<Rightarrow> (case ds of
            [] \<Rightarrow> (Inl closed, Suc n)
          | d # ds' \<Rightarrow> reconnect_listener cancelled connect attempt closed (Suc n) ds')
        | ConnectFailed e \<Rightarrow> (case ds of
            [] \<Rightarrow> (Inl e, Suc n)
          | d # ds' \<Rightarrow> reconnect_listener cancelled connect attempt closed (Suc n) ds')))"

declare reconnect_listener.simps [simp del]

text \<open>The events of the loop of \<open>start\<close>, and what other tasks do to the channels meanwhile.\<close>

inductive notifier_step :: "notifier \<Rightarrow> notifier \<Rightarrow> bool" where
  cleanup_tick: "notifier_step q (cleanup_stale_channels q)"
| notification: "notifier_step q (send_local key q)"
| notify_call: "notifier_step q (snd (notify (pg :: string \<Rightarrow> unit + unit) ns queue q))"
| subscribe_call: "notifier_step q (subscribe i ns queue q)"

subsection \<open>Lookups\<close>

lemma map_of_update: "map_of (map (\<lambda>(k, c). (k, if k = key then f c else c)) xs) key' =
    map_option (\<lambda>c. if key' = key then f c else c) (map_of xs key')"
  by (induction xs) auto

lemma waiting_send: "waiting i key' (send_local key q) = map_option
    (\<lambda>n. if key' = key then min (Suc n) (nf_channel_capacity q) else n) (waiting i key' q)"
  by (cases "map_of (nf_channels q) key'")
    (auto simp: waiting_def send_local_def update_channel_def map_of_update map_of_map option.map_id0 [unfolded id_def])

lemma capacity_simps [simp]:
  "nf_channel_capacity (send_local key q) = nf_channel_capacity q"
  "nf_channel_capacity (subscribe i ns queue q) = nf_channel_capacity q"
  "nf_channel_capacity (cleanup_stale_channels q) = nf_channel_capacity q"
  by (auto simp: send_local_def update_channel_def subscribe_def Let_def get_or_create_channel_def
      cleanup_stale_channels_def split: option.split)

lemma map_of_nonempty: "c \<noteq> [] \<Longrightarrow> map_of xs key = Some c \<Longrightarrow>
    map_of (filter (\<lambda>(key, c). c \<noteq> []) xs) key = Some c"
  by (induction xs) (auto split: if_splits)

lemma waiting_cleanup: "waiting i key q = Some n \<Longrightarrow> waiting i key (cleanup_stale_channels q) = Some n"
proof -
  assume "waiting i key q = Some n"
  then obtain c where c: "map_of (nf_channels q) key = Some c" "map_of c i = Some n"
    by (auto simp: waiting_def bind_eq_Some_conv)
  then have "c \<noteq> []" by auto
  then show ?thesis using map_of_nonempty [OF _ c(1)] c(2) by (simp add: waiting_def cleanup_stale_channels_def)
qed

lemma waiting_subscribe: "waiting i key q = Some n \<Longrightarrow> i \<noteq> j \<Longrightarrow> waiting i key (subscribe j ns queue q) = Some n"
  by (cases "map_of (nf_channels q) key"; cases "map_of (nf_channels q) (queue_key ns queue)")
    (auto simp: waiting_def subscribe_def Let_def update_channel_def get_or_create_channel_def map_of_update)

text \<open>A subscriber stays subscribed with its messages, as long as nobody else gets its number.\<close>

lemma waiting_grows:
  assumes "notifier_step q q'" and "waiting i key q = Some n" and "nf_channel_capacity q = cap" and "n \<le> cap"
    and "\<And>ns queue. q' \<noteq> subscribe i ns queue q"
  shows "\<exists>m\<ge>n. waiting i key q' = Some m \<and> m \<le> cap \<and> nf_channel_capacity q' = cap"
  using assms
proof cases
  case cleanup_tick
  then show ?thesis using waiting_cleanup [OF assms(2)] assms(3,4) by auto
next
  case (notification key')
  then show ?thesis using assms(2-4) by (auto simp: waiting_send)
next
  case (notify_call pg ns queue)
  then show ?thesis using assms(2-4)
    by (cases "pg (queue_key ns queue)") (auto simp: notify_def waiting_send)
next
  case (subscribe_call j ns queue)
  then have "j \<noteq> i" using assms(5) by auto
  then show ?thesis using subscribe_call waiting_subscribe [OF assms(2)] assms(3,4) by auto
qed

subsection \<open>Properties\<close>

text \<open>Reconnecting ends: whatever the database answers, the listener makes at most one attempt more than it has
  delays, and gives up with an error only after the last one.\<close>

theorem reconnect_bounded:
  "(case reconnect_listener cancelled connect attempt closed n ds of (res, m) \<Rightarrow>
     n \<le> m \<and> m \<le> n + length ds + 1
     \<and> ((\<exists>k \<in> {n..m}. cancelled k) \<or> (case res of Inr c \<Rightarrow> attempt (m - 1) = Connected c
          | Inl e \<Rightarrow> m = n + length ds + 1)))"
proof (induction ds arbitrary: n)
  case Nil
  show ?case by (subst reconnect_listener.simps) (auto split: attempt.split)
next
  case (Cons d ds)
  have IH: "case reconnect_listener cancelled connect attempt closed (Suc n) ds of (res, m) \<Rightarrow>
      n \<le> m \<and> m \<le> n + length (d # ds) + 1
      \<and> ((\<exists>k \<in> {n..m}. cancelled k) \<or> (case res of Inr c \<Rightarrow> attempt (m - 1) = Connected c
          | Inl e \<Rightarrow> m = n + length (d # ds) + 1))"
    using Cons.IH [of "Suc n"] by (auto split: prod.splits sum.splits)
  then show ?case
    by (subst reconnect_listener.simps) (auto split: attempt.split)
qed



text \<open>Two queues can share a key: the key joins namespace and queue with a colon that either may contain, so that
  a notification for one wakes the polls of the other.\<close>

theorem queue_keys_collide:
  "queue_key (ns @ '':'' @ a) b = queue_key ns (a @ '':'' @ b)
     \<and> notify pg (ns @ '':'' @ a) b = notify pg ns (a @ '':'' @ b)"
  by (simp add: queue_key_def notify_def)

end
