(* ===== verification/SdkRun.thy ===== *)
theory SdkRun
  imports SdkWorker
begin

text \<open>
  \<open>Worker::run\<close> of \<open>sdk/kagzi-rs/src/worker.rs\<close>, call by call: registration, heartbeats, a pass of the loop
  (\<open>poll_and_execute\<close>), leaving. The calls that do not concern a run are fields of \<open>registry_client\<close>. A
  pass here executes the task it got to the end, as a worker with one permit does before it polls again; how
  tasks, heartbeats and the shutdown overlap is the relation \<open>runner_step\<close>. Logging, the pause between
  failed polls and the pauses while draining are left out.
\<close>

record 's registry_client =
  call_register :: "register_request \<Rightarrow> ('s, wire_status, string \<times> int) op"
  call_heartbeat :: "string \<Rightarrow> ('s, wire_status, bool \<times> bool) op"
  call_poll_task :: "poll_request \<Rightarrow> ('s, wire_status, poll_response) op"
  call_deregister :: "string \<Rightarrow> bool \<Rightarrow> ('s, wire_status, bool) op"

text \<open>
  Until the worker is registered. The map of handlers is empty when the list of its keys is
  (\<open>build_worker_types\<close>); \<open>uuid_error\<close> is the text with which the crate \<open>uuid\<close> refuses an id.
\<close>

definition start_worker ::
  "env \<Rightarrow> sdk_env \<Rightarrow> (string \<Rightarrow> string) \<Rightarrow> 's registry_client \<Rightarrow> string \<Rightarrow> int \<Rightarrow> 'f sdk_worker
    \<Rightarrow> ('s, sdk_error, 'f sdk_worker) op" where
  "start_worker E X uuid_error rc host pid w =
     (if sw_workflow_types w = []
      then fail_op (SeOther ''No workflows registered. Call workflows() before run()'')
      else bind_op (lift_op (map_sum SeOther id (primary_queue w))) (\<lambda>queue.
           bind_op (kagzi_call X (call_register rc (register_request_of host pid queue w))) (\<lambda>resp.
           case after_register E resp w of
             None \<Rightarrow> fail_op (SeOther (uuid_error (fst resp)))
           | Some w' \<Rightarrow> ret_op w')))"

text \<open>One tick of the heartbeat task: whether it makes the worker shut down.\<close>

definition heartbeat_tick :: "env \<Rightarrow> 's registry_client \<Rightarrow> 'f sdk_worker \<Rightarrow> 's \<Rightarrow> bool \<times> 's" where
  "heartbeat_tick E rc w s = (case sw_worker_id w of
       None \<Rightarrow> (False, s)
     | Some i \<Rightarrow> (case call_heartbeat rc (show_uuid E i) s of (resp, s') \<Rightarrow> (heartbeat_stops resp, s')))"

definition poll_once ::
  "env \<Rightarrow> 's registry_client \<Rightarrow> (bytes \<Rightarrow> string + 'j) \<Rightarrow> 'j \<Rightarrow> string \<Rightarrow> 'f sdk_worker \<Rightarrow> 's
    \<Rightarrow> (('f, 'j) poll_action \<times> 'f sdk_worker) \<times> 's" where
  "poll_once E rc from_bytes null queue w s = (case sw_worker_id w of
       None \<Rightarrow> ((NoTask, w), s)
     | Some i \<Rightarrow> (case call_poll_task rc (poll_request_of E i queue w) s of (resp, s') \<Rightarrow>
         (handle_poll from_bytes null resp w, s')))"

definition poll_and_execute ::
  "env \<Rightarrow> sdk_env \<Rightarrow> 's registry_client \<Rightarrow> 's worker_client \<Rightarrow> (bytes \<Rightarrow> string + 'j) \<Rightarrow> ('j \<Rightarrow> string + bytes)
    \<Rightarrow> 'j \<Rightarrow> string \<Rightarrow> ('s, 'j) workflow_fn sdk_worker \<Rightarrow> 's \<Rightarrow> ('s, 'j) workflow_fn sdk_worker \<times> 's" where
  "poll_and_execute E X rc c from_bytes to_bytes null queue w s =
     (case poll_once E rc from_bytes null queue w s of ((action, w'), s') \<Rightarrow>
        (case action of
           RunTask handler run_id input \<Rightarrow>
             (w', execute_workflow X c to_bytes handler run_id input (sw_default_retry w') s')
         | _ \<Rightarrow> (w', s')))"

text \<open>\<open>run\<close> as a whole, for a worker that makes \<open>k\<close> passes before it sees the shutdown.\<close>

fun worker_passes ::
  "nat \<Rightarrow> env \<Rightarrow> sdk_env \<Rightarrow> 's registry_client \<Rightarrow> 's worker_client \<Rightarrow> (bytes \<Rightarrow> string + 'j) \<Rightarrow> ('j \<Rightarrow> string + bytes)
    \<Rightarrow> 'j \<Rightarrow> string \<Rightarrow> ('s, 'j) workflow_fn sdk_worker \<Rightarrow> 's \<Rightarrow> ('s, 'j) workflow_fn sdk_worker \<times> 's" where
  "worker_passes 0 E X rc c from_bytes to_bytes null queue w s = (w, s)"
| "worker_passes (Suc k) E X rc c from_bytes to_bytes null queue w s =
     (case poll_and_execute E X rc c from_bytes to_bytes null queue w s of (w', s') \<Rightarrow>
        worker_passes k E X rc c from_bytes to_bytes null queue w' s')"

definition leave_worker :: "env \<Rightarrow> 's registry_client \<Rightarrow> 'f sdk_worker \<Rightarrow> 's \<Rightarrow> 's" where
  "leave_worker E rc w s = (case sw_worker_id w of
       None \<Rightarrow> s | Some i \<Rightarrow> snd (call_deregister rc (show_uuid E i) False s))"

definition run_worker ::
  "nat \<Rightarrow> env \<Rightarrow> sdk_env \<Rightarrow> (string \<Rightarrow> string) \<Rightarrow> 's registry_client \<Rightarrow> 's worker_client \<Rightarrow> (bytes \<Rightarrow> string + 'j)
    \<Rightarrow> ('j \<Rightarrow> string + bytes) \<Rightarrow> 'j \<Rightarrow> string \<Rightarrow> int \<Rightarrow> ('s, 'j) workflow_fn sdk_worker
    \<Rightarrow> ('s, sdk_error, ('s, 'j) workflow_fn sdk_worker) op" where
  "run_worker k E X uuid_error rc c from_bytes to_bytes null host pid w =
     bind_op (start_worker E X uuid_error rc host pid w) (\<lambda>w1.
     bind_op (lift_op (map_sum SeOther id (primary_queue w1))) (\<lambda>queue s.
       case worker_passes k E X rc c from_bytes to_bytes null queue w1 s of (w2, s') \<Rightarrow>
         (Inr w2, leave_worker E rc w2 s')))"

subsection \<open>Against the modelled server\<close>

text \<open>
  Each call takes two readings of the clock and two identifiers, as in \<open>server_client\<close>; \<open>rounds n\<close> are the rounds of a
  poll that is the call with number \<open>n\<close>.
\<close>

definition server_registry ::
  "env \<Rightarrow> (wire_detail \<Rightarrow> bytes) \<Rightarrow> store_config \<Rightarrow> worker_settings \<Rightarrow> (nat \<Rightarrow> timestamp) \<Rightarrow> (nat \<Rightarrow> uuid)
    \<Rightarrow> (nat \<Rightarrow> poll_round \<times> poll_round list) \<Rightarrow> (db \<times> nat) registry_client" where
  "server_registry E enc cfg ws t u rounds = \<lparr>
     call_register = \<lambda>req. served E enc (\<lambda>n. ws_register E ws (t n) (u n) req),
     call_heartbeat = \<lambda>worker. served E enc (\<lambda>n. ws_heartbeat E ws (\<lambda>k. t (n + k)) worker),
     call_poll_task = \<lambda>req. served E enc (\<lambda>n. ws_poll_task E cfg ws (\<lambda>k. t (n + k)) (u n)
       (fst (rounds n)) (snd (rounds n)) req),
     call_deregister = \<lambda>worker drain. served E enc (\<lambda>n. ws_deregister E (t n) worker drain)\<rparr>"

lemma server_registry_simps [simp]:
  "call_register (server_registry E enc cfg ws t u rounds) =
     (\<lambda>req. served E enc (\<lambda>n. ws_register E ws (t n) (u n) req))"
  "call_heartbeat (server_registry E enc cfg ws t u rounds) =
     (\<lambda>worker. served E enc (\<lambda>n. ws_heartbeat E ws (\<lambda>k. t (n + k)) worker))"
  "call_poll_task (server_registry E enc cfg ws t u rounds) =
     (\<lambda>req. served E enc (\<lambda>n. ws_poll_task E cfg ws (\<lambda>k. t (n + k)) (u n) (fst (rounds n)) (snd (rounds n)) req))"
  "call_deregister (server_registry E enc cfg ws t u rounds) =
     (\<lambda>worker drain. served E enc (\<lambda>n. ws_deregister E (t n) worker drain))"
  by (simp_all add: server_registry_def)

text \<open>The names that a worker registers are those it has handlers for.\<close>

lemma foldl_update_dom: "dom (foldl (\<lambda>m (name, h). m(name \<mapsto> h)) m hs) = dom m \<union> set (map fst hs)"
  by (induction hs arbitrary: m) auto

lemma build_worker_types:
  assumes "build_worker connect b = Inr w"
  shows "dom (sw_workflows w) = set (sw_workflow_types w) \<and> sw_workflow_types w \<noteq> []"
proof -
  have "sw_workflows w = foldl (\<lambda>m (name, h). m(name \<mapsto> h)) Map.empty (wb_workflows b)"
    "sw_workflow_types w = map fst (wb_workflows b)" "wb_workflows b \<noteq> []"
    using assms by (auto simp: build_worker_def res_bind_def split: if_splits sum.splits)
  then show ?thesis by (simp add: foldl_update_dom del: foldl_map)
qed

end
