(* ===== verification/EndToEnd.thy ===== *)
theory EndToEnd
  imports SdkRun SdkCorrect StoreLaws
begin

text \<open>
  The whole program at work: a worker of the SDK registers with the server, polls, executes what it gets, and a
  client reads the outcome.
\<close>

subsection \<open>Outcomes\<close>

text \<open>What a client that asks for a run reads of it.\<close>

definition reads_as ::
  "env \<Rightarrow> timestamp \<Rightarrow> string \<Rightarrow> string \<Rightarrow> proto_workflow_status \<Rightarrow> string option \<Rightarrow> bytes option \<Rightarrow> db \<Rightarrow> bool"
where
  "reads_as E now run ns st err out s \<longleftrightarrow> (\<exists>w. wv_get_workflow E now run ns s = (Inr w, s) \<and> px_status w = st
     \<and> px_error w = map_option (\<lambda>m. string_error_detail (Some m)) err \<and> px_output w = Some (bytes_to_payload out))"

lemma reads_row:
  assumes wf: "wf_db s" and r: "r \<in> set (runs s)" "wr_status r = show_status st" "wr_namespace r \<noteq> []"
    and p: "p \<in> set (payloads s)" "pl_run_id p = wr_run_id r"
    and run: "parse_uuid_str E run = Some (wr_run_id r)"
  shows "reads_as E now run (wr_namespace r) (map_workflow_status st) (wr_error r) (pl_output p) s"
proof -
  have pu: "q = p" if "q \<in> set (payloads s)" "pl_run_id q = wr_run_id r" for q
    using wf that p by (auto simp: wf_db_def payloads_violation_None distinct_map inj_on_def)
  have "List.find (\<lambda>(w, q). wr_run_id w = wr_run_id r \<and> wr_namespace w = wr_namespace r) (runs_with_payload s) = Some (r, p)"
  proof (intro find_the, goal_cases)
    case 1
    then show ?case using r(1) p by (auto simp: runs_with_payload_def)
  next
    case (3 y)
    then show ?case using run_unique [OF wf _ r(1)] pu by (auto simp: runs_with_payload_def)
  qed simp
  then have "wf_find_by_id (wr_run_id r) (wr_namespace r) s = (map_sum id Some (run_into_model (r, p)), s)"
    by (simp add: wf_find_by_id_def run_into_model_def r(2))
  then show ?thesis
    using r run by (simp add: reads_as_def wv_get_workflow_def parse_run_id_def require_non_empty_def run_into_model_def workflow_to_proto_def)
qed

lemma complete_held_run:
  assumes wf: "wf_db s" and r: "r \<in> set (runs s)" "wr_status r = show_status WsRunning"
    and p: "p \<in> set (payloads s)" "pl_run_id p = wr_run_id r" and ns: "wr_namespace r \<noteq> []"
    and run: "parse_uuid_str E run = Some (wr_run_id r)" and len: "length b \<le> payload_max_size_bytes cfg"
    and s': "s' = snd (ws_complete_workflow E cfg t i run (Some (sdk_payload b)) s)"
  shows "reads_as E now run (wr_namespace r) PwCompleted (wr_error r) (Some b) s'"
proof -
  let ?s1 = "s\<lparr>runs := sql_update (running_row (wr_run_id r)) (set_completed (t 0)) (runs s),
    payloads := sql_update (\<lambda>p. pl_run_id p = wr_run_id r) (\<lambda>p. p\<lparr>pl_output := Some b\<rparr>) (payloads s)\<rparr>"
  let ?event = "st_record_lifecycle_event cfg (t 1) i (wr_run_id r) SkWorkflowCompleted (Some b)"
  have "s' = snd (?event ?s1)"
    using validate_open_run [OF wf r, of False] complete_run [OF wf len] run
    by (simp add: s' ws_complete_workflow_def parse_id_def output_bytes ignore_op_def Let_def payload_to_bytes_def
        sdk_payload_def)
  then have same: "runs s' = runs ?s1" "payloads s' = payloads ?s1"
    using keepsD [OF same_runs_steps(5), of ?s1 "runs ?s1"] keepsD [OF event_same_payloads, of ?s1 "payloads ?s1"]
    by simp_all
  have "wf_db s'" unfolding s' by (intro keepsD [OF worker_service_keeps(7)] wf)
  moreover have "set_completed (t 0) r \<in> set (runs s')" and "p\<lparr>pl_output := Some b\<rparr> \<in> set (payloads s')"
    using r p by (auto simp: same sql_update_def intro: rev_image_eqI)
  ultimately show ?thesis
    using reads_row [of s' "set_completed (t 0) r" WsCompleted "p\<lparr>pl_output := Some b\<rparr>" E run now] p ns run
    by (simp add: set_completed_def)
qed

lemma fail_held_run:
  assumes wf: "wf_db s" and r: "r \<in> set (runs s)" "wr_status r = show_status WsRunning"
    and p: "p \<in> set (payloads s)" "pl_run_id p = wr_run_id r" and ns: "wr_namespace r \<noteq> []"
    and run: "parse_uuid_str E run = Some (wr_run_id r)"
    and s': "s' = snd (ws_fail_workflow E cfg t i run (Some (detail_received (to_detail k))) s)"
  shows "reads_as E now run (wr_namespace r) PwFailed (Some (ke_message k)) (pl_output p) s'"
proof -
  let ?s1 = "s\<lparr>runs := sql_update (running_row (wr_run_id r)) (set_failed (t 0) (ke_message k)) (runs s)\<rparr>"
  let ?event = "st_record_lifecycle_event cfg (t 1) i (wr_run_id r) SkWorkflowFailed (Some (bytes_of_string (ke_message k)))"
  have "s' = snd (?event ?s1)"
    using validate_open_run [OF wf r, of False] fail_run(1) [OF wf] run
    by (simp add: s' ws_fail_workflow_def parse_id_def ignore_op_def Let_def detail_received_def to_detail_def
        msg_text_def)
  then have same: "runs s' = runs ?s1" "payloads s' = payloads ?s1"
    using keepsD [OF same_runs_steps(5), of ?s1 "runs ?s1"] keepsD [OF event_same_payloads, of ?s1 "payloads ?s1"]
    by simp_all
  have "wf_db s'" unfolding s' by (intro keepsD [OF worker_service_keeps(8)] wf)
  moreover have "set_failed (t 0) (ke_message k) r \<in> set (runs s')" and "p \<in> set (payloads s')"
    using r p by (auto simp: same sql_update_def intro: rev_image_eqI)
  ultimately show ?thesis
    using reads_row [of s' "set_failed (t 0) (ke_message k) r" WsFailed p E run now] p ns run
    by (simp add: set_failed_def)
qed


lemma complete_too_large:
  assumes wf: "wf_db s" and r: "r \<in> set (runs s)" "wr_status r = show_status WsRunning"
    and run: "parse_uuid_str E run = Some (wr_run_id r)" and len: "payload_max_size_bytes cfg < length b"
  shows "snd (ws_complete_workflow E cfg t i run (Some (sdk_payload b)) s) = s"
  using validate_open_run [OF wf r, of False] run len
  by (simp add: ws_complete_workflow_def parse_id_def output_bytes Let_def payload_to_bytes_def sdk_payload_def
      wf_complete_def validate_payload_size_def)

text \<open>C10: What a workflow did is what clients read: its output if it returned, its error or panic if it did
  not, and nothing yet if it paused. An output that cannot be encoded or is larger than the server accepts
  is lost without a trace: the run stays RUNNING and is executed again once its lock expires.\<close>

theorem outcome_is_readable:
  fixes handler :: "(db \<times> nat, 'j) workflow_fn"
  assumes "handler \<lparr>cx_run_id = run, cx_default_retry = retry\<rparr> input (s, n) = (joined, (s1, n1))"
    and "wf_db s1" and "r \<in> set (runs s1)" and "wr_status r = show_status WsRunning" and "wr_namespace r \<noteq> []"
    and "p \<in> set (payloads s1)" and "pl_run_id p = wr_run_id r" and "parse_uuid_str E run = Some (wr_run_id r)"
  shows "let s2 = fst (execute_workflow X (server_client E enc cfg t u others) to_bytes handler run input retry (s, n));
       reads = (\<lambda>st err out. reads_as E now run (wr_namespace r) st err out s2)
     in case joined of
          Inl m \<Rightarrow> reads PwFailed (Some (''workflow panicked: '' @ m)) (pl_output p)
        | Inr (Inl e) \<Rightarrow>
            if e = SePaused then s2 = s1 else reads PwFailed (Some (ke_message (into_kagzi X e))) (pl_output p)
        | Inr (Inr v) \<Rightarrow> (case to_bytes v of
            Inl _ \<Rightarrow> s2 = s1
          | Inr b \<Rightarrow> if payload_max_size_bytes cfg < length b then s2 = s1
              else reads PwCompleted (wr_error r) (Some b))"
proof -
  let ?c = "server_client E enc cfg t u others"
  define s2 where "s2 = fst (execute_workflow X ?c to_bytes handler run input retry (s, n))"
  note run_it = s2_def execute_workflow_def assms(1) served_def split_beta
  note failed = fail_held_run [OF assms(2-4,6,7,5,8) refl]
  note completed = complete_held_run [OF assms(2-4,6,7,5,8) _ refl]
  have "ke_message (into_kagzi X (SeOther m)) = m" for m
    by (simp add: into_kagzi_def show_sdk_error_def kagzi_new_def)
  note panicked = failed [where k = "into_kagzi X (SeOther m)" for m, unfolded this]
  show ?thesis
    using failed completed complete_too_large [OF assms(2-4,8)] panicked
    by (cases joined) (auto simp: Let_def run_it split: sum.split)
qed

text \<open>A workflow that returns its input.\<close>

definition echo :: "('s, bytes) workflow_fn" where
  "echo cx v s = (Inr (Inr v), s)"

lemma outcome_is_readable_witness:
  "reads_as demo_env 9000 ''2'' ''default'' PwCompleted None (Some [4, 2])
     (fst (execute_workflow demo_sdk demo_client Inr echo ''2'' [4, 2] None (demo_db, 0)))"
proof -
  have r: "demo_running \<in> set (runs demo_db)" "wr_status demo_running = show_status WsRunning"
    "wr_namespace demo_running \<noteq> []" "demo_payload 2 \<in> set (payloads demo_db)"
    "pl_run_id (demo_payload 2) = wr_run_id demo_running"
    by (simp_all add: demo_defs)
  have "parse_uuid_str demo_env ''2'' = Some (wr_run_id demo_running)"
    by (simp add: demo_env_def parse_nat_def digit_def demo_running_def run_defaults_def)
  from outcome_is_readable [of echo "''2''" None "[4, 2]" demo_db 0 "Inr (Inr [4, 2])" demo_db 0 demo_running "demo_payload 2"
      demo_env demo_sdk "\<lambda>d. []" demo_cfg demo_clock demo_ids "\<lambda>d. id" Inr 9000, OF _ demo_wf r this]
  show ?thesis by (simp add: echo_def demo_client_def demo_defs Let_def)
qed

subsection \<open>From the queue to the outcome\<close>

text \<open>
  Worker \<open>w\<close>, registered as row \<open>k\<close>, polls in round \<open>rd\<close>, and the run \<open>r\<close> is what waits for it: the only unlocked run
  that is due in its namespace and queue, of a type that the worker registered and asks for.
\<close>

definition asked_types :: "'f sdk_worker \<Rightarrow> worker_row \<Rightarrow> string list" where
  "asked_types w k = filter (\<lambda>ty. ty \<in> set (sw_workflow_types w)) (kr_workflow_types k)"

definition waits_for :: "'f sdk_worker \<Rightarrow> worker_row \<Rightarrow> poll_round \<Rightarrow> run_row \<Rightarrow> db \<Rightarrow> bool" where
  "waits_for w k rd r s =
     (let due = (\<lambda>x. claimable (round_now rd) (sw_namespace w) (kr_task_queue k) (asked_types w k) x
        \<and> \<not> round_locked rd (wr_run_id x))
      in k \<in> set (workers s) \<and> kr_status k = show_worker_status WkOnline \<and> sw_worker_id w = Some (kr_worker_id k)
        \<and> kr_namespace k = sw_namespace w \<and> sw_namespace w \<noteq> [] \<and> asked_types w k \<noteq> []
        \<and> r \<in> set (runs s) \<and> due r \<and> wr_schedule_id r = None \<and> list_all (\<lambda>x. due x \<longrightarrow> x = r) (runs s)
        \<and> round_others rd s = s)"

lemma queued_workflow_runs:
  fixes handler :: "(db \<times> nat, 'j) workflow_fn"
  assumes env: "env_ok E" and wf: "wf_db s" and waits: "waits_for w k rd r s" and rd: "rounds n = (rd, rds)"
    and fits: "pg_ts_add (round_now rd) (visibility_timeout_secs ws * 1000000) = Some until"
      "pg_int4 (wr_attempts r + 1) = Some m"
    and p: "p \<in> set (payloads s)" "pl_run_id p = wr_run_id r"
    and h: "sw_workflows w (wr_workflow_type r) = Some handler" "from_bytes (pl_input p) = Inr input"
      "show_uuid E (wr_run_id r) \<noteq> []"
  shows "\<exists>s1. poll_and_execute E X (server_registry E enc cfg ws t u rounds) c from_bytes to_bytes null (kr_task_queue k) w (s, n)
     = (w\<lparr>sw_poll_failures := 0\<rparr>, execute_workflow X c to_bytes handler (show_uuid E (wr_run_id r)) input (sw_default_retry w) (s1, n + 2))
   \<and> wf_db s1 \<and> payloads s1 = payloads s
   \<and> claim_run (round_now rd) (show_uuid E (kr_worker_id k)) until r \<in> set (runs s1)"
proof -
  have k: "k \<in> set (workers s)" "kr_status k = show_worker_status WkOnline" "sw_worker_id w = Some (kr_worker_id k)"
    "kr_namespace k = sw_namespace w" "sw_namespace w \<noteq> []"
    and r: "r \<in> set (runs s)" "claimable (round_now rd) (sw_namespace w) (kr_task_queue k) (asked_types w k) r"
      "\<not> round_locked rd (wr_run_id r)" "wr_schedule_id r = None"
    and types: "asked_types w k \<noteq> []" and quiet: "round_others rd s = s"
    and only: "\<And>x. x \<in> set (runs s) \<Longrightarrow> claimable (round_now rd) (sw_namespace w) (kr_task_queue k) (asked_types w k) x
      \<Longrightarrow> \<not> round_locked rd (wr_run_id x) \<Longrightarrow> x = r"
    using waits by (auto simp: waits_for_def Let_def list_all_iff)
  let ?i = "show_uuid E (kr_worker_id k)"
  let ?req = "poll_request_of E (kr_worker_id k) (kr_task_queue k) w"
  let ?c = "\<lparr>cl_run_id = wr_run_id r, cl_workflow_type = wr_workflow_type r, cl_input = pl_input p, cl_locked_by = Some ?i\<rparr>"
  let ?s0 = "s\<lparr>runs := sql_update (\<lambda>x. wr_run_id x = wr_run_id r) (claim_run (round_now rd) ?i until) (runs s)\<rparr>"
  have pay: "List.find (\<lambda>q. pl_run_id q = wr_run_id r) (payloads s) = Some p"
    using payloads_tbl.find_key [of "payloads s" p] wf p by (auto simp: wf_db_def)
  note polled = poll_only [where locked = "round_locked rd" and worker = ?i, OF wf r(1-3) only fits r(4) pay]
  have wf0: "wf_db ?s0" using keepsD [OF keeps_poll wf, of "round_locked rd"] polled by (metis snd_conv)
  obtain s1 where s1: "dispatch E cfg (\<lambda>j. t (n + j)) (u n) ?c ?s0 = (Inr \<lparr>pp_run_id = show_uuid E (wr_run_id r),
      pp_workflow_type = wr_workflow_type r, pp_input = bytes_to_payload (Some (pl_input p))\<rparr>, s1)"
    "wf_db s1" "runs s1 = runs ?s0" "payloads s1 = payloads s"
    using dispatch_keeps [OF wf0, of E cfg "\<lambda>j. t (n + j)" "u n" ?c] by auto
  have "ws_poll_task E cfg ws (\<lambda>j. t (n + j)) (u n) rd rds ?req s = poll_loop E cfg ws (\<lambda>j. t (n + j)) (u n)
      (sw_namespace w) (kr_task_queue k) ?i (asked_types w k) (rd # rds) s"
    using env k types by (subst poll_task_admitted [OF wf k(1,2)]) (auto simp: poll_request_of_def env_ok_def asked_types_def)
  also have "\<dots> = dispatch E cfg (\<lambda>j. t (n + j)) (u n) ?c ?s0"
    by (simp add: quiet polled bind_op_def call_store_def map_err_op_def)
  finally have "ws_poll_task E cfg ws (\<lambda>j. t (n + j)) (u n) rd rds ?req s = \<dots>" .
  then have "poll_and_execute E X (server_registry E enc cfg ws t u rounds) c from_bytes to_bytes null (kr_task_queue k) w (s, n)
     = (w\<lparr>sw_poll_failures := 0\<rparr>, execute_workflow X c to_bytes handler (show_uuid E (wr_run_id r)) input (sw_default_retry w) (s1, n + 2))"
    using h k(3) s1(1) by (simp add: poll_and_execute_def poll_once_def served_def rd handle_poll_def bytes_to_payload_def)
  moreover have "claim_run (round_now rd) ?i until r \<in> set (runs s1)"
    using r(1) by (force simp: s1(3) sql_update_def)
  ultimately show ?thesis using s1 by blast
qed

text \<open>A worker holds the run.\<close>

definition held :: "uuid \<Rightarrow> string \<Rightarrow> db \<Rightarrow> bool" where
  "held i ns s \<longleftrightarrow> wf_db s \<and> i \<in> pl_run_id ` set (payloads s)
     \<and> (\<exists>r\<in>set (runs s). wr_run_id r = i \<and> wr_namespace r = ns \<and> wr_status r = show_status WsRunning)"

text \<open>From the queue to the client: when a registered worker polls and a run waits for it, one pass of the worker
  executes the workflow with the stored input, and from then on clients read the run as COMPLETED with the
  output of the workflow, provided that the workflow returns one and leaves the run with the worker.\<close>

theorem queued_workflow_completes:
  fixes handler :: "(db \<times> nat, 'j) workflow_fn"
  assumes env: "env_ok E" and wf: "wf_db s" and waits: "waits_for w k rd r s" and rd: "rounds n = (rd, rds)"
    and fits: "pg_ts_add (round_now rd) (visibility_timeout_secs ws * 1000000) \<noteq> None"
      "pg_int4 (wr_attempts r + 1) \<noteq> None"
    and p: "p \<in> set (payloads s)" "pl_run_id p = wr_run_id r"
    and h: "sw_workflows w (wr_workflow_type r) = Some handler" "from_bytes (pl_input p) = Inr input"
      "show_uuid E (wr_run_id r) \<noteq> []"
    and body: "\<And>s1 m. held (wr_run_id r) (sw_namespace w) s1 \<Longrightarrow>
      \<exists>s2 m2. handler \<lparr>cx_run_id = show_uuid E (wr_run_id r), cx_default_retry = sw_default_retry w\<rparr> input (s1, m)
          = (Inr (Inr v), (s2, m2)) \<and> held (wr_run_id r) (sw_namespace w) s2"
    and b: "to_bytes v = Inr b" "length b \<le> payload_max_size_bytes cfg"
  shows "\<exists>err. reads_as E now (show_uuid E (wr_run_id r)) (sw_namespace w) PwCompleted err (Some b)
     (fst (snd (poll_and_execute E X (server_registry E enc cfg ws t u rounds) (server_client E enc cfg t u others)
        from_bytes to_bytes null (kr_task_queue k) w (s, n))))"
proof -
  let ?i = "wr_run_id r" and ?run = "show_uuid E (wr_run_id r)" and ?ns = "sw_namespace w"
  have k: "sw_namespace w \<noteq> []" and r: "claimable (round_now rd) (sw_namespace w) (kr_task_queue k) (asked_types w k) r"
    using waits by (simp_all add: waits_for_def Let_def)
  obtain until m where fit: "pg_ts_add (round_now rd) (visibility_timeout_secs ws * 1000000) = Some until"
    "pg_int4 (wr_attempts r + 1) = Some m" using fits by auto
  obtain s1 m1 where s1: "poll_and_execute E X (server_registry E enc cfg ws t u rounds) (server_client E enc cfg t u others)
        from_bytes to_bytes null (kr_task_queue k) w (s, n)
     = (w\<lparr>sw_poll_failures := 0\<rparr>, execute_workflow X (server_client E enc cfg t u others) to_bytes handler ?run input
         (sw_default_retry w) (s1, m1))"
    "wf_db s1" "payloads s1 = payloads s" "claim_run (round_now rd) (show_uuid E (kr_worker_id k)) until r \<in> set (runs s1)"
    using queued_workflow_runs [where rounds = rounds and n = n and from_bytes = from_bytes, OF env wf waits rd fit p h] by blast
  let ?r1 = "claim_run (round_now rd) (show_uuid E (kr_worker_id k)) until r"
  have "wr_run_id ?r1 = ?i" "wr_namespace ?r1 = ?ns" "wr_status ?r1 = show_status WsRunning"
    using r by (simp_all add: claim_run_def claimable_def)
  then have "held ?i ?ns s1"
    unfolding held_def using s1(2-4) p by (metis image_eqI)
  then obtain s2 m2 where s2: "handler \<lparr>cx_run_id = ?run, cx_default_retry = sw_default_retry w\<rparr> input (s1, m1)
      = (Inr (Inr v), (s2, m2))" "held ?i ?ns s2" using body by blast
  then obtain r2 p2 where r2: "r2 \<in> set (runs s2)" "wr_status r2 = show_status WsRunning" "p2 \<in> set (payloads s2)"
    "pl_run_id p2 = wr_run_id r2" and same: "wr_run_id r2 = ?i" "wr_namespace r2 = ?ns" and wf2: "wf_db s2"
    unfolding held_def by force
  have "parse_uuid_str E ?run = Some (wr_run_id r2)" using env by (simp add: env_ok_def same)
  then have "reads_as E now ?run ?ns PwCompleted (wr_error r2) (Some b)
      (snd (ws_complete_workflow E cfg (\<lambda>j. t (m2 + j)) (u m2) ?run (Some (sdk_payload b)) s2))"
    using complete_held_run [OF wf2 r2 _ _ b(2) refl, of E ?run now] k same by auto
  then show ?thesis
    by (auto simp: s1(1) execute_workflow_def s2(1) b(1) served_def split_beta)
qed

definition demo_echo_worker :: "(db \<times> nat, bytes) workflow_fn sdk_worker" where
  "demo_echo_worker = \<lparr>sw_namespace = ''default'', sw_max_concurrent = 1, sw_hostname = Some ''h'', sw_version = None,
     sw_labels = [], sw_default_retry = None, sw_workflows = [''q'' \<mapsto> echo, ''Order'' \<mapsto> echo],
     sw_workflow_types = [''q'', ''Order''], sw_worker_id = Some 70, sw_heartbeat_interval = 10, sw_poll_failures = 0\<rparr>"

definition demo_registry :: "(db \<times> nat) registry_client" where
  "demo_registry = server_registry demo_env (\<lambda>d. []) demo_cfg default_worker_settings demo_clock demo_ids
     (\<lambda>n. (quiet_round 300, []))"

lemma queued_workflow_completes_witness:
  "\<exists>err. reads_as demo_env 9000 ''1'' ''default'' PwCompleted err (Some [1, 2, 3])
     (fst (snd (poll_and_execute demo_env demo_sdk demo_registry demo_client Inr Inr [] ''q'' demo_echo_worker
        (demo_workers_db, 0))))"
proof -
  have w: "waits_for demo_echo_worker demo_worker (quiet_round 300) demo_waiting demo_workers_db" by code_simp
  have fits: "pg_ts_add (round_now (quiet_round 300)) (visibility_timeout_secs default_worker_settings * 1000000) \<noteq> None"
    "pg_int4 (wr_attempts demo_waiting + 1) \<noteq> None"
    by code_simp+
  have p: "demo_payload 1 \<in> set (payloads demo_workers_db)" "pl_run_id (demo_payload 1) = wr_run_id demo_waiting"
    by (simp_all add: demo_workers_db_def demo_defs)
  have id: "show_uuid demo_env (wr_run_id demo_waiting) = ''1''" by code_simp
  have h: "sw_workflows demo_echo_worker (wr_workflow_type demo_waiting) = Some echo"
    by (simp add: demo_echo_worker_def demo_waiting_def run_defaults_def)
  have vals: "kr_task_queue demo_worker = ''q''" "sw_namespace demo_echo_worker = ''default''"
      "pl_input (demo_payload 1) = [1, 2, 3]" "Suc (Suc (Suc 0)) \<le> payload_max_size_bytes demo_cfg"
    by (simp_all add: demo_worker_def demo_echo_worker_def demo_payload_def demo_cfg_def)
  show ?thesis
    using queued_workflow_completes [where rounds = "\<lambda>n. (quiet_round 300, [])" and n = 0 and from_bytes = Inr
      and to_bytes = Inr and cfg = demo_cfg and v = "[1, 2, 3]" and null = "[]" and now = 9000 and X = demo_sdk
      and enc = "\<lambda>d. []" and t = demo_clock and u = demo_ids and others = "\<lambda>d. id",
      OF demo_env_ok demo_workers_wf w refl fits p h refl]
    by (simp add: id vals echo_def demo_registry_def demo_client_def)
qed

subsection \<open>Registration\<close>

text \<open>C26: A worker that has started is admitted: the server knows it as online, under the id it was given, with its
  namespace, its first type as the queue and all its types, so that its polls pass every guard of
  \<open>PollTask\<close> and go on to claim runs.\<close>

theorem started_worker_is_admitted:
  assumes env: "env_ok E" and wf: "wf_db s"
    and start: "start_worker E X uuid_error (server_registry E enc cfg ws t u rounds) host pid w (s, n) = (Inr w', (s', n'))"
  shows "\<exists>k\<in>set (workers s'). sw_worker_id w' = Some (kr_worker_id k) \<and> kr_status k = show_worker_status WkOnline
     \<and> kr_namespace k = sw_namespace w' \<and> kr_workflow_types k = sw_workflow_types w'
     \<and> primary_queue w' = Inr (kr_task_queue k)
     \<and> ws_poll_task E cfg ws' t' i' rd rds (poll_request_of E (kr_worker_id k) (kr_task_queue k) w') s'
       = poll_loop E cfg ws' t' i' (sw_namespace w') (kr_task_queue k) (show_uuid E (kr_worker_id k))
           (sw_workflow_types w') (rd # rds) s'"
proof -
  obtain q i where q: "primary_queue w = Inr q" and types: "sw_workflow_types w \<noteq> []" and ns: "sw_namespace w \<noteq> []"
    and reg: "wk_register (t n) (u n) (register_params (sw_namespace w) (register_request_of host pid q w)) s = (Inr i, s')"
    and w': "w' = w\<lparr>sw_worker_id := Some i, sw_heartbeat_interval := as_u64 (heartbeat_interval_secs ws)\<rparr>"
    using start env
    by (auto simp: start_worker_def success ws_register_def register_request_of_def after_register_def env_ok_def
        kagzi_call_def require_non_empty_def call_store_def split: if_splits option.splits)
  let ?p = "register_params (sw_namespace w) (register_request_of host pid q w)"
  obtain k where k: "k \<in> set (workers s')" "kr_worker_id k = i" "kr_status k = show_worker_status WkOnline"
    "kr_namespace k = rw_namespace ?p" "kr_task_queue k = rw_task_queue ?p" "kr_workflow_types k = rw_workflow_types ?p"
    using register_row [OF reg] by blast
  have wf': "wf_db s'" using keepsD [OF keeps_register wf] reg by (metis snd_conv)
  have p: "rw_namespace ?p = sw_namespace w" "rw_task_queue ?p = q" "rw_workflow_types ?p = sw_workflow_types w"
    by (simp_all add: register_params_def register_request_of_def)
  have "ws_poll_task E cfg ws' t' i' rd rds (poll_request_of E (kr_worker_id k) (kr_task_queue k) w') s'
       = poll_loop E cfg ws' t' i' (sw_namespace w') (kr_task_queue k) (show_uuid E (kr_worker_id k))
           (sw_workflow_types w') (rd # rds) s'"
    using env types ns k(4,6) by (subst poll_task_admitted [OF wf' k(1,3), of E _ "sw_workflow_types w"])
      (auto simp: poll_request_of_def env_ok_def p w')
  then show ?thesis
    using q k by (intro bexI [of _ k]) (auto simp: w' p primary_queue_def split: list.splits)
qed

lemma started_worker_is_admitted_witness:
  "\<exists>w' s' n' k. start_worker demo_env demo_sdk id demo_registry ''host'' 12 demo_echo_worker (demo_workers_db, 0)
      = (Inr w', (s', n'))
     \<and> k \<in> set (workers s') \<and> sw_worker_id w' = Some (kr_worker_id k) \<and> kr_workflow_types k = [''q'', ''Order'']
     \<and> ws_poll_task demo_env demo_cfg default_worker_settings demo_clock 90 (quiet_round 300) []
         (poll_request_of demo_env (kr_worker_id k) (kr_task_queue k) w') s'
       = poll_loop demo_env demo_cfg default_worker_settings demo_clock 90 ''default'' (kr_task_queue k)
           (show_uuid demo_env (kr_worker_id k)) [''q'', ''Order''] [quiet_round 300] s'"
proof -
  let ?c = "start_worker demo_env demo_sdk id demo_registry ''host'' 12 demo_echo_worker (demo_workers_db, 0)"
  let ?req = "register_request_of ''host'' 12 ''q'' demo_echo_worker"
  have reg: "map_sum (\<lambda>_. ()) id (fst (ws_register demo_env default_worker_settings (demo_clock 0) (demo_ids 0) ?req
      demo_workers_db)) = Inr (''70'', heartbeat_interval_secs default_worker_settings)" by code_simp
  have "parse_uuid_str demo_env ''70'' = Some 70" by code_simp
  then obtain w' s' n' where c: "?c = (Inr w', (s', n'))" "sw_workflow_types w' = [''q'', ''Order'']" "sw_namespace w' = ''default''"
    using reg
    by (cases "fst (ws_register demo_env default_worker_settings (demo_clock 0) (demo_ids 0) ?req demo_workers_db)")
      (auto simp: start_worker_def demo_registry_def demo_echo_worker_def primary_queue_def served_def split_beta
        kagzi_call_def after_register_def bind_op_def map_err_op_def lift_op_def)
  obtain k where k: "k \<in> set (workers s')" "sw_worker_id w' = Some (kr_worker_id k)"
    "kr_workflow_types k = sw_workflow_types w'"
    "ws_poll_task demo_env demo_cfg default_worker_settings demo_clock 90 (quiet_round 300) []
         (poll_request_of demo_env (kr_worker_id k) (kr_task_queue k) w') s'
       = poll_loop demo_env demo_cfg default_worker_settings demo_clock 90 (sw_namespace w') (kr_task_queue k)
           (show_uuid demo_env (kr_worker_id k)) (sw_workflow_types w') [quiet_round 300] s'"
    using started_worker_is_admitted [where cfg = demo_cfg and ws' = default_worker_settings and t' = demo_clock and i' = 90
      and rd = "quiet_round 300" and rds = "[]", OF demo_env_ok demo_workers_wf c(1) [unfolded demo_registry_def]] by (elim bexE conjE)
  show ?thesis
    using c(1) k unfolding c(2,3) by (intro exI [of _ w'] exI [of _ s'] exI [of _ n'] exI [of _ k] conjI)
qed

end
