(* ===== verification/StartToEnd.thy ===== *)
theory StartToEnd
  imports EndToEnd
begin

text \<open>
  The whole way of a workflow: a program starts it with the SDK, a worker that runs the SDK takes it from its queue and
  executes it, and the program reads the outcome.
\<close>

text \<open>What the client sends is not empty where the server asks for it, and has no active namesake.\<close>

definition startable :: "string \<Rightarrow> start_builder \<Rightarrow> db \<Rightarrow> bool" where
  "startable fresh b s \<longleftrightarrow> validate_start b = Inr () \<and> sq_external_id (start_request_of fresh b) \<noteq> []
     \<and> sb_namespace b \<in> set (ns_names s)
     \<and> List.find (\<lambda>r. is_active r \<and> active_key r = (sb_namespace b, sq_external_id (start_request_of fresh b))) (runs s) = None"

definition started_run :: "timestamp \<Rightarrow> uuid \<Rightarrow> string \<Rightarrow> start_builder \<Rightarrow> run_row" where
  "started_run now i fresh b = new_run now (start_params i (start_request_of fresh b))"

lemma started_run_fields [simp]:
  "wr_run_id (started_run now i fresh b) = i" "wr_namespace (started_run now i fresh b) = sb_namespace b"
  "wr_task_queue (started_run now i fresh b) = sb_workflow_type b"
  "wr_workflow_type (started_run now i fresh b) = sb_workflow_type b"
  "wr_status (started_run now i fresh b) = show_status WsPending"
  "wr_available_at (started_run now i fresh b) = Some now" "wr_schedule_id (started_run now i fresh b) = None"
  "wr_attempts (started_run now i fresh b) = 0"
  by (simp_all add: started_run_def new_run_def start_params_def start_request_of_def run_defaults_def)

definition input_of :: "start_builder \<Rightarrow> bytes" where
  "input_of b = payload_to_bytes (map_option sdk_payload (sb_input b))"

lemma start_served:
  assumes wf: "wf_db s" and b: "startable fresh b s" and i: "u (n + 1) \<notin> set (run_ids s)"
    and len: "length (input_of b) \<le> payload_max_size_bytes cfg"
  shows "\<exists>s1. start_send X (server_services E enc cfg parse catchup t u) fresh b (s, n)
      = (Inr (show_uuid E (u (n + 1))), (s1, n + 2))
    \<and> wf_db s1 \<and> workers s1 = workers s \<and> runs s1 = runs s @ [started_run (t (n + 1)) (u (n + 1)) fresh b]
    \<and> \<lparr>pl_run_id = u (n + 1), pl_input = input_of b, pl_output = None\<rparr> \<in> set (payloads s1)"
proof -
  let ?req = "start_request_of fresh b"
  let ?s1 = "s\<lparr>runs := runs s @ [started_run (t (n + 1)) (u (n + 1)) fresh b],
      payloads := payloads s @ [\<lparr>pl_run_id = u (n + 1), pl_input = input_of b, pl_output = None\<rparr>]\<rparr>"
  have req: "sq_namespace ?req = sb_namespace b" "payload_to_bytes (sq_input ?req) = input_of b"
    "sq_task_queue ?req = sb_workflow_type b" "sq_workflow_type ?req = sb_workflow_type b"
    by (simp_all add: start_request_of_def input_of_def)
  have valid: "validate_start b = Inr ()" "sb_workflow_type b \<noteq> []" "sb_namespace b \<noteq> []"
    using b by (auto simp: startable_def validate_start_def split: if_splits)
  have s1: "wv_start_workflow E cfg (\<lambda>k. t (n + k)) (\<lambda>k. u (n + k)) ?req s = (Inr (show_uuid E (u (n + 1)), False), ?s1)"
    using start_exact [where t = "\<lambda>k. t (n + k)" and u = "\<lambda>k. u (n + k)" and req = ?req and cfg = cfg, OF wf] b i len valid
    by (simp add: req startable_def started_run_def)
  have "wf_db ?s1" using keepsD [OF workflow_service_keeps(1) wf] s1 by (metis snd_conv)
  moreover have "start_send X (server_services E enc cfg parse catchup t u) fresh b (s, n)
      = (Inr (show_uuid E (u (n + 1))), (?s1, n + 2))"
    using valid(1) by (simp add: start_send_def server_services_def kagzi_call_def map_err_op_def s1)
  ultimately show ?thesis by (intro exI [of _ ?s1]) simp
qed

text \<open>
  The worker \<open>w\<close> is registered as row \<open>k\<close> and online, and asks for what the client starts: the SDK puts a run into the
  queue that is named after its type.
\<close>

definition serves :: "'f sdk_worker \<Rightarrow> worker_row \<Rightarrow> start_builder \<Rightarrow> db \<Rightarrow> bool" where
  "serves w k b s \<longleftrightarrow> k \<in> set (workers s) \<and> kr_status k = show_worker_status WkOnline
     \<and> sw_worker_id w = Some (kr_worker_id k) \<and> kr_namespace k = sw_namespace w \<and> sb_namespace b = sw_namespace w
     \<and> kr_task_queue k = sb_workflow_type b \<and> sb_workflow_type b \<in> set (asked_types w k)"

definition nothing_due :: "'f sdk_worker \<Rightarrow> worker_row \<Rightarrow> poll_round \<Rightarrow> db \<Rightarrow> bool" where
  "nothing_due w k rd s \<longleftrightarrow> list_all (\<lambda>x. claimable (round_now rd) (sw_namespace w) (kr_task_queue k) (asked_types w k) x
     \<longrightarrow> round_locked rd (wr_run_id x)) (runs s)"

lemma started_waits:
  assumes serves: "serves w k b s" and valid: "validate_start b = Inr ()" and due: "nothing_due w k rd s"
    and rd: "t \<le> round_now rd" "\<not> round_locked rd i" "round_others rd = id"
    and s1: "workers s1 = workers s" "runs s1 = runs s @ [started_run t i fresh b]"
  shows "waits_for w k rd (started_run t i fresh b) s1"
proof -
  let ?r = "started_run t i fresh b"
  have r_due: "claimable (round_now rd) (sw_namespace w) (kr_task_queue k) (asked_types w k) ?r"
    using serves rd(1) by (auto simp: claimable_def serves_def claimable_text_def)
  have only: "\<forall>x\<in>set (runs s1). claimable (round_now rd) (sw_namespace w) (kr_task_queue k) (asked_types w k) x
      \<and> \<not> round_locked rd (wr_run_id x) \<longrightarrow> x = ?r"
    using due by (auto simp: s1(2) nothing_due_def list_all_iff)
  have "sw_namespace w \<noteq> []" "asked_types w k \<noteq> []"
    using serves valid by (auto simp: serves_def validate_start_def split: if_splits)
  moreover have "?r \<in> set (runs s1)" "\<not> round_locked rd (wr_run_id ?r)" "round_others rd s1 = s1"
    "wr_schedule_id ?r = None"
    using rd(2,3) by (simp_all add: s1(2))
  moreover have "k \<in> set (workers s1) \<and> kr_status k = show_worker_status WkOnline \<and> sw_worker_id w = Some (kr_worker_id k)
      \<and> kr_namespace k = sw_namespace w"
    using serves by (simp add: serves_def s1(1))
  ultimately show ?thesis
    using r_due only unfolding waits_for_def Let_def list_all_iff by blast
qed

text \<open>C6: From the start to the outcome: when a program starts a workflow that a registered worker serves, and nothing else waits
  for that worker, then the next pass of the worker executes the workflow with the input of the program, and
  from then on the program reads the run, under the id that it was given, as COMPLETED with the output of the
  workflow, provided that the workflow returns one and leaves the run with the worker.\<close>

theorem started_workflow_completes:
  fixes handler :: "(db \<times> nat, 'j) workflow_fn"
  assumes env: "env_ok E" and wf: "wf_db s"
    and b: "startable fresh b s" "u (n + 1) \<notin> set (run_ids s)" "length (input_of b) \<le> payload_max_size_bytes cfg"
    and serves: "serves w k b s" and due: "nothing_due w k rd s"
    and rd: "rounds (n + 2) = (rd, rds)" "t (n + 1) \<le> round_now rd" "\<not> round_locked rd (u (n + 1))" "round_others rd = id"
      "pg_ts_add (round_now rd) (visibility_timeout_secs ws * 1000000) \<noteq> None"
    and h: "sw_workflows w (sb_workflow_type b) = Some handler" "from_bytes (input_of b) = Inr input"
      "show_uuid E (u (n + 1)) \<noteq> []"
    and body: "\<And>s1 m. held (u (n + 1)) (sw_namespace w) s1 \<Longrightarrow>
      \<exists>s2 m2. handler \<lparr>cx_run_id = show_uuid E (u (n + 1)), cx_default_retry = sw_default_retry w\<rparr> input (s1, m)
          = (Inr (Inr v), (s2, m2)) \<and> held (u (n + 1)) (sw_namespace w) s2"
    and out: "to_bytes v = Inr out" "length out \<le> payload_max_size_bytes cfg"
  shows "\<exists>s1 err. start_send X (server_services E enc cfg parse catchup t u) fresh b (s, n)
       = (Inr (show_uuid E (u (n + 1))), (s1, n + 2))
     \<and> reads_as E now (show_uuid E (u (n + 1))) (sb_namespace b) PwCompleted err (Some out)
         (fst (snd (poll_and_execute E X (server_registry E enc cfg ws t u rounds) (server_client E enc cfg t u others)
            from_bytes to_bytes null (kr_task_queue k) w (s1, n + 2))))"
proof -
  let ?r = "started_run (t (n + 1)) (u (n + 1)) fresh b"
  obtain s1 where s1: "start_send X (server_services E enc cfg parse catchup t u) fresh b (s, n)
      = (Inr (show_uuid E (u (n + 1))), (s1, n + 2))" "wf_db s1" "workers s1 = workers s" "runs s1 = runs s @ [?r]"
    "\<lparr>pl_run_id = u (n + 1), pl_input = input_of b, pl_output = None\<rparr> \<in> set (payloads s1)"
    using start_served [where u = u and n = n and t = t, OF wf b, of X E enc parse catchup] by blast
  have waits: "waits_for w k rd ?r s1"
    using started_waits [OF serves _ due rd(2-4) s1(3,4)] b(1) by (simp add: startable_def)
  have same: "sb_namespace b = sw_namespace w" using serves by (simp add: serves_def)
  have "\<exists>err. reads_as E now (show_uuid E (wr_run_id ?r)) (sw_namespace w) PwCompleted err (Some out)
     (fst (snd (poll_and_execute E X (server_registry E enc cfg ws t u rounds) (server_client E enc cfg t u others)
        from_bytes to_bytes null (kr_task_queue k) w (s1, n + 2))))"
    by (rule queued_workflow_completes [where n = "n + 2" and rounds = rounds and handler = handler and input = input and v = v,
        OF env s1(2) waits rd(1,5) _ s1(5)])
      (use h body out in \<open>simp_all add: pg_int4_def\<close>)
  then show ?thesis using s1(1) unfolding same by simp
qed

text \<open>A database with one worker and nothing to do.\<close>

definition demo_mail_worker :: worker_row where
  "demo_mail_worker = demo_worker\<lparr>kr_workflow_types := [''q'']\<rparr>"

definition demo_quiet_db :: db where
  "demo_quiet_db = \<lparr>runs = [], payloads = [], steps = [], workers = [demo_mail_worker], namespaces = [demo_ns]\<rparr>"

definition demo_new_order :: start_builder where
  "demo_new_order = \<lparr>sb_workflow_type = ''q'', sb_namespace = ''default'', sb_input = Some [1, 2, 3], sb_idempotency_key = None\<rparr>"

lemma started_workflow_completes_witness:
  "\<exists>s1 err. start_send demo_sdk (server_services demo_env (\<lambda>d. []) demo_cfg demo_parse 50 demo_clock demo_ids) ''new'' demo_new_order
       (demo_quiet_db, 0) = (Inr ''501'', (s1, 2))
     \<and> reads_as demo_env 9000 ''501'' ''default'' PwCompleted err (Some [1, 2, 3])
         (fst (snd (poll_and_execute demo_env demo_sdk (server_registry demo_env (\<lambda>d. []) demo_cfg default_worker_settings
              demo_clock demo_ids (\<lambda>n. (quiet_round 3000, []))) demo_client Inr Inr [] ''q'' demo_echo_worker (s1, 2))))"
proof -
  have b: "startable ''new'' demo_new_order demo_quiet_db" "length (input_of demo_new_order) \<le> payload_max_size_bytes demo_cfg"
    "serves demo_echo_worker demo_mail_worker demo_new_order demo_quiet_db"
    "nothing_due demo_echo_worker demo_mail_worker (quiet_round 3000) demo_quiet_db" "wf_db demo_quiet_db"
    by code_simp+
  have rd: "demo_clock 1 \<le> round_now (quiet_round 3000)" "\<not> round_locked (quiet_round 3000) (demo_ids 1)"
    "round_others (quiet_round 3000) = id" "demo_ids 1 \<notin> set (run_ids demo_quiet_db)" "demo_ids 1 = 501"
    "pg_ts_add (round_now (quiet_round 3000)) (visibility_timeout_secs default_worker_settings * 1000000) \<noteq> None"
    by (simp_all add: demo_clock_def demo_ids_def quiet_round_def no_locks_def demo_quiet_db_def pg_ts_add_def pg_ts_min_def
        pg_ts_end_def default_worker_settings_def)
  have id: "show_uuid demo_env 501 = ''501''" by code_simp
  have vals: "input_of demo_new_order = [1, 2, 3]" "sw_workflows demo_echo_worker ''q'' = Some echo"
    "sw_namespace demo_echo_worker = ''default''" "sb_workflow_type demo_new_order = ''q''" "sb_namespace demo_new_order = ''default''"
    "kr_task_queue demo_mail_worker = ''q''" "payload_max_size_bytes demo_cfg = 8"
    by (simp_all add: input_of_def demo_new_order_def demo_echo_worker_def demo_mail_worker_def demo_worker_def demo_cfg_def
        payload_to_bytes_def sdk_payload_def)
  show ?thesis
    using started_workflow_completes [where n = 0 and u = demo_ids and t = demo_clock and rounds = "\<lambda>n. (quiet_round 3000, [])"
      and from_bytes = Inr and to_bytes = Inr and v = "[1, 2, 3]" and handler = echo and input = "[1, 2, 3]" and X = demo_sdk
      and enc = "\<lambda>d. []" and parse = demo_parse and catchup = 50 and now = 9000 and others = "\<lambda>d. id" and null = "[]"
      and cfg = demo_cfg and ws = default_worker_settings, OF demo_env_ok b(5,1) _ b(2-4) refl] rd
    by (simp add: id vals echo_def demo_client_def numeral_2_eq_2)
qed

end
