(* ===== verification/StepRetry.thy ===== *)
theory StepRetry
  imports SdkCorrect
begin

text \<open>
  A step that fails, from the closure to the tables: the SDK reports the error with \<open>FailStep\<close>, the server decides whether
  the step is tried again, and parks the run until then; the SDK ends the pass over the workflow accordingly.
\<close>

subsection \<open>Parking a run for a retry\<close>

definition parked :: "timestamp \<Rightarrow> run_row \<Rightarrow> run_row" where
  "parked a r = r\<lparr>wr_status := show_status WsPending, wr_available_at := Some a, wr_locked_by := None\<rparr>"

lemma schedule_retry_run:
  assumes wf: "wf_db s" and w: "w \<in> set (runs s)" "wr_run_id w = i" "wr_status w = show_status WsRunning"
    and free: "wr_schedule_id w = None" and a: "pg_ts_add now (delay * 1000) = Some a"
  shows "wf_schedule_retry now i delay s = (Inr (), s\<lparr>runs := map (\<lambda>x. if x = w then parked a w else x) (runs s)\<rparr>)"
proof -
  have u: "x = w" if "x \<in> set (runs s)" "running_row i x" for x
    using run_unique [OF wf that(1) w(1)] that(2) w(2) by simp
  have run: "running_row i w" using w by simp
  have "update_runs (running_row i) (parked a) s = (Inr (), s\<lparr>runs := sql_update (running_row i) (parked a) (runs s)\<rparr>)"
  proof (rule update_runs_narrow [OF wf])
    fix x assume "x \<in> set (runs s)" "running_row i x"
    then have "x = w" by (rule u)
    then show "narrows x (parked a x)"
      using w free by (simp add: narrows_def parked_def chk_available_at_def is_active_def active_text_def)
  qed (simp add: parked_def)
  moreover have "sql_update (running_row i) (parked a) (runs s) = map (\<lambda>x. if x = w then parked a w else x) (runs s)"
    unfolding sql_update_def using u run by (intro map_cong refl) metis
  moreover have "(\<lambda>r. r\<lparr>wr_status := show_status WsPending, wr_available_at := Some a, wr_locked_by := None\<rparr>) = parked a"
    by (simp add: parked_def fun_eq_iff)
  ultimately have "park_run now i WsPending (delay * 1000) s
      = (Inr (), s\<lparr>runs := map (\<lambda>x. if x = w then parked a w else x) (runs s)\<rparr>)"
    by (simp only: park_run_def a option.case)
  then show ?thesis by (simp add: wf_schedule_retry_def transact_def)
qed

text \<open>A run that was parked waits for a worker again.\<close>

lemma parked_claimable:
  "claimable now (wr_namespace w) (wr_task_queue w) types (parked a w) \<longleftrightarrow>
     a \<le> now \<and> (types = [] \<or> wr_workflow_type w \<in> set types)"
  by (auto simp: claimable_def parked_def claimable_text_def)

subsection \<open>The whole way of an error\<close>

text \<open>What the server is told of an error, and what it makes of it for attempt \<open>r\<close> of a step of the run \<open>w\<close>.\<close>

definition fail_params :: "env \<Rightarrow> uuid \<Rightarrow> string \<Rightarrow> kagzi_error \<Rightarrow> fail_step_params" where
  "fail_params E i name k = \<lparr>fs_run_id = i, fs_step_id = name, fs_error = ke_message k,
     fs_non_retryable = ke_non_retryable k,
     fs_retry_after_ms = (case ke_retry_after k of None \<Rightarrow> None
       | Some d \<Rightarrow> if 0 < duration_millis d then Some (duration_millis d) else None)\<rparr>"

definition step_policy :: "step_row \<Rightarrow> run_row \<Rightarrow> retry_policy" where
  "step_policy r w = (case Option.bind (case sr_retry_policy r of Some q \<Rightarrow> Some q | None \<Rightarrow> wr_retry_policy w)
     policy_from_value of Some q \<Rightarrow> q | None \<Rightarrow> default_policy)"

definition retried :: "step_row \<Rightarrow> run_row \<Rightarrow> kagzi_error \<Rightarrow> bool" where
  "retried r w k \<longleftrightarrow> \<not> ke_non_retryable k \<and> \<not> is_non_retryable (step_policy r w) (ke_message k)
     \<and> (maximum_attempts (step_policy r w) < 0 \<or> sr_attempt_number r < maximum_attempts (step_policy r w))"

definition retry_wait_ms :: "env \<Rightarrow> step_row \<Rightarrow> run_row \<Rightarrow> kagzi_error \<Rightarrow> int" where
  "retry_wait_ms E r w k = as_u64 (case fs_retry_after_ms (fail_params E (wr_run_id w) (sr_step_id r) k) of
       Some d \<Rightarrow> d
     | None \<Rightarrow> calculate_delay_ms (backoff E) (step_policy r w) (sr_attempt_number r))"

definition step_failed :: "timestamp \<Rightarrow> string \<Rightarrow> step_row \<Rightarrow> db \<Rightarrow> db" where
  "step_failed now m r s = s\<lparr>steps := map (\<lambda>x. if x = r then failed_step now m r else x) (steps s)\<rparr>"

lemma fail_step_served:
  assumes wf: "wf_db s" and id: "parse_uuid_str E run = Some i" and name: "name \<noteq> []"
    and r: "find_latest i name s = Some r" "sr_status r = show_step_status SsRunning"
    and w: "w \<in> set (runs s)" "wr_run_id w = i" "wr_status w = show_status WsRunning" "wr_schedule_id w = None"
    and a: "pg_ts_add (t 1) (retry_wait_ms E r w k * 1000) = Some a"
  shows "ws_fail_step E t new_id run name (Some (detail_received (to_detail k))) s =
     (if retried r w k
      then (Inr True, step_failed (t 0) (ke_message k) r (s\<lparr>runs := map (\<lambda>x. if x = w then parked a w else x) (runs s)\<rparr>))
      else (Inr False, step_failed (t 0) (ke_message k) r s))"
proof -
  let ?p = "fail_params E i name k"
  have key: "sr_step_id r = name" "fs_error ?p = ke_message k" "fs_run_id ?p = i" "fs_step_id ?p = name"
    "fs_non_retryable ?p = ke_non_retryable k"
    using find_Some_in [OF r(1) [unfolded find_latest_def]] by (auto simp: latest_of_def fail_params_def)
  have run: "List.find (\<lambda>x. wr_run_id x = i) (runs s) = Some w"
    using find_run [OF wf w(1)] w(2) by simp
  have p: "\<lparr>fs_run_id = i, fs_step_id = name, fs_error = msg_text E (ed_message (detail_received (to_detail k))),
      fs_non_retryable = ed_non_retryable (detail_received (to_detail k)), fs_retry_after_ms =
      (if 0 < ed_retry_after_ms (detail_received (to_detail k)) then Some (ed_retry_after_ms (detail_received (to_detail k)))
       else None)\<rparr> = ?p"
    by (simp add: fail_params_def detail_received_def to_detail_def msg_text_def split: option.split)
  have fail: "st_fail (backoff E) (t 0) new_id ?p s = (Inr \<lparr>fr_scheduled_retry = retried r w k, fr_schedule_workflow_retry_ms =
      (if retried r w k then Some (retry_wait_ms E r w k) else None)\<rparr>, step_failed (t 0) (ke_message k) r s)"
    using fail_decided [where p = ?p and r = r and w = w and bo = "backoff E" and now = "t 0" and new_id = new_id, OF wf]
      r run unfolding retried_def retry_wait_ms_def step_failed_def step_policy_def by (simp add: key w(2))
  have "wf_db (step_failed (t 0) (ke_message k) r s)"
    using keepsD [OF keeps_step_fail wf, of "backoff E" "t 0" new_id ?p] by (simp add: fail)
  moreover have eq: "(step_failed (t 0) (ke_message k) r s)\<lparr>runs := rs\<rparr> = step_failed (t 0) (ke_message k) r (s\<lparr>runs := rs\<rparr>)" for rs
    by (simp add: step_failed_def)
  ultimately have park: "wf_schedule_retry (t 1) i (retry_wait_ms E r w k) (step_failed (t 0) (ke_message k) r s)
     = (Inr (), (step_failed (t 0) (ke_message k) r s)\<lparr>runs := map (\<lambda>x. if x = w then parked a w else x) (runs s)\<rparr>)"
    using w a by (subst schedule_retry_run) (simp_all add: step_failed_def)
  show ?thesis
    using id name by (simp add: ws_fail_step_def parse_id_def require_non_empty_def Let_def p fail park eq del: One_nat_def)
qed

text \<open>C16: A step that fails is tried again as its policy says: the SDK reports the error of the closure, the attempt becomes
  FAILED, and exactly if the error may be retried and attempts are left, the run is parked as PENDING, unlocked and
  due after the delay, and the workflow pauses; otherwise the run stays with the worker and the workflow sees the error.\<close>

theorem failing_step_parks_run:
  fixes f :: "(db \<times> nat, sdk_error, 'r) op"
  assumes "wf_db s" and "parse_uuid_str E (cx_run_id cx) = Some i" and "name \<noteq> []"
    and "ws_begin_step E cfg (\<lambda>k. t (n + k)) (\<lambda>k. u (n + k))
       (step_begin cx name (case p of Some q \<Rightarrow> Some q | None \<Rightarrow> cx_default_retry cx)) s = (Inr resp, s0)"
    and "ba_should_execute resp" and "f (s0, n + 2) = (Inl e, (s0, m))"
    and "w \<in> set (runs s)" and "wr_run_id w = i" and "wr_status w = show_status WsRunning" and "wr_schedule_id w = None"
    and "find_latest i name s0 = Some r"
    and "pg_ts_add (t (m + 1)) (retry_wait_ms E r w (into_kagzi X e) * 1000) = Some a"
  shows "sdk_step_run X (server_client E enc cfg t u others) cx J name p f (s, n) =
     (if retried r w (into_kagzi X e)
      then (Inl SePaused, (step_failed (t m) (ke_message (into_kagzi X e)) r
              (s0\<lparr>runs := map (\<lambda>x. if x = w then parked a w else x) (runs s)\<rparr>), m + 2))
      else (Inl (SeKagzi (into_kagzi X e)), (step_failed (t m) (ke_message (into_kagzi X e)) r s0, m + 2)))"
proof -
  let ?k = "into_kagzi X e"
  obtain r' where "find_latest i name s0 = Some r'" "sr_status r' = show_step_status SsRunning"
    and runs: "runs s0 = runs s" and wf: "wf_db s0"
    using begin_step_fresh [OF assms(1,4,5), of i SkFunction] assms(2) by (auto simp: step_begin_def)
  then have r: "sr_status r = show_step_status SsRunning" using assms(11) by simp
  have name: "ba_step_id resp = name"
    using begin_step_Inr(1) [OF assms(1,4), of i] assms(2) by (simp add: step_begin_def)
  have fail: "ws_fail_step E (\<lambda>k. t (m + k)) (u m) (cx_run_id cx) name (Some (detail_received (to_detail ?k))) s0 =
     (if retried r w ?k
      then (Inr True, step_failed (t m) (ke_message ?k) r (s0\<lparr>runs := map (\<lambda>x. if x = w then parked a w else x) (runs s)\<rparr>))
      else (Inr False, step_failed (t m) (ke_message ?k) r s0))"
    using fail_step_served [where t = "\<lambda>k. t (m + k)" and k = ?k and a = a, OF wf assms(2,3,11) r _ assms(8-10)] assms(7,12)
    by (simp add: runs)
  show ?thesis
    using assms(3,5,6) name
    by (cases "retried r w ?k") (simp_all add: sdk_step_run_def assms(4) map_err_op_def step_id_or_def match_op_def
        kagzi_call_def fail Let_def)
qed

text \<open>A service that asks to come back in five seconds.\<close>

definition demo_busy :: kagzi_error where
  "demo_busy = \<lparr>ke_code = EcUnavailable, ke_message = ''busy'', ke_non_retryable = False, ke_retry_after = Some 5000000000,
     ke_subject = None, ke_subject_id = None, ke_metadata = []\<rparr>"

lemma failing_step_parks_run_witness:
  "\<exists>s1. sdk_step_run demo_sdk demo_client demo_context bytes_codec ''charge'' None (\<lambda>w. (Inl (SeKagzi demo_busy), w)) (demo_db, 0)
       = (Inl SePaused, (s1, 4))
     \<and> list_ex (\<lambda>x. wr_run_id x = 2 \<and> wr_status x = show_status WsPending \<and> wr_available_at x = Some 5002003) (runs s1)"
proof -
  let ?b = "ws_begin_step demo_env demo_cfg (\<lambda>k. demo_clock (0 + k)) (\<lambda>k. demo_ids (0 + k))
      (step_begin demo_context ''charge'' (case None of Some q \<Rightarrow> Some q | None \<Rightarrow> cx_default_retry demo_context)) demo_db"
  have k: "into_kagzi demo_sdk (SeKagzi demo_busy) = demo_busy" by (simp add: into_kagzi_def)
  have msg: "ke_message demo_busy = ''busy''" by (simp add: demo_busy_def)
  have "map_sum id ba_should_execute (fst ?b) = Inr True" by code_simp
  then obtain resp where b: "?b = (Inr resp, snd ?b)" "ba_should_execute resp"
    by (cases "fst ?b") (auto simp: prod_eq_iff)
  have "map_option (\<lambda>r. (sr_retry_policy r, sr_attempt_number r)) (find_latest 2 ''charge'' (snd ?b)) = Some (None, 1)"
    by code_simp
  then obtain r where r: "find_latest 2 ''charge'' (snd ?b) = Some r" "sr_retry_policy r = None" "sr_attempt_number r = 1"
    by auto
  have w: "demo_running \<in> set (runs demo_db)" "wr_run_id demo_running = 2" "wr_status demo_running = show_status WsRunning"
    "wr_schedule_id demo_running = None" "wr_retry_policy demo_running = None"
    by (simp_all add: demo_defs)
  have again: "retried r demo_running demo_busy"
    using r(2,3) w(5) by (simp add: retried_def step_policy_def demo_busy_def default_policy_def is_non_retryable_def)
  have "retry_wait_ms demo_env r demo_running demo_busy = 5000"
    by (simp add: retry_wait_ms_def fail_params_def demo_busy_def duration_millis_def as_i64_def as_u64_def)
  then have a: "pg_ts_add (demo_clock (2 + 1)) (retry_wait_ms demo_env r demo_running
      (into_kagzi demo_sdk (SeKagzi demo_busy)) * 1000) = Some 5002003"
    by (simp add: k pg_ts_add_def pg_ts_min_def pg_ts_end_def demo_clock_def)
  let ?s1 = "step_failed (demo_clock 2) ''busy'' r
      (snd ?b\<lparr>runs := map (\<lambda>x. if x = demo_running then parked 5002003 demo_running else x) (runs demo_db)\<rparr>)"
  have "sdk_step_run demo_sdk demo_client demo_context bytes_codec ''charge'' None (\<lambda>w. (Inl (SeKagzi demo_busy), w)) (demo_db, 0)
      = (Inl SePaused, (?s1, 2 + 2))"
    unfolding demo_client_def
    using failing_step_parks_run [where n = 0 and m = 2 and X = demo_sdk and u = demo_ids and enc = "\<lambda>d. []" and J = bytes_codec
        and f = "\<lambda>w. (Inl (SeKagzi demo_busy), w)" and others = "\<lambda>d. id", OF demo_wf demo_id2 _ b(1,2) _ w(1-4) r(1) a] again
    by (simp add: k msg)
  moreover have "parked 5002003 demo_running \<in> set (runs ?s1)"
    using w(1) by (force simp: step_failed_def)
  then have "list_ex (\<lambda>x. wr_run_id x = 2 \<and> wr_status x = show_status WsPending \<and> wr_available_at x = Some 5002003) (runs ?s1)"
    unfolding list_ex_iff by (intro bexI [of _ "parked 5002003 demo_running"]) (simp_all add: parked_def w(2))
  ultimately show ?thesis by (intro exI [of _ ?s1]) simp
qed

end
