(* ===== verification/LeaseCorrect.thy ===== *)
theory LeaseCorrect
  imports WorkCorrect
begin

text \<open>
  The lease of a run over many heartbeats: every beat of the worker that holds it moves the end of the lease
  by the extension, so that the end runs away from the clock.
\<close>

text \<open>The heartbeats of a worker, each with the clock of its request.\<close>

fun heartbeats :: "env \<Rightarrow> worker_settings \<Rightarrow> string \<Rightarrow> (nat \<Rightarrow> timestamp) list \<Rightarrow> db \<Rightarrow> db" where
  "heartbeats E ws worker [] s = s"
| "heartbeats E ws worker (t # ts) s = heartbeats E ws worker ts (snd (ws_heartbeat E ws t worker s))"

text \<open>The worker is known and holds one run, until \<open>a\<close>.\<close>

definition leased :: "string \<Rightarrow> uuid \<Rightarrow> uuid \<Rightarrow> timestamp \<Rightarrow> db \<Rightarrow> bool" where
  "leased worker k i a s \<longleftrightarrow> wf_db s
     \<and> list_ex (\<lambda>w. kr_worker_id w = k \<and> kr_status w \<noteq> show_worker_status WkOffline) (workers s)
     \<and> list_ex (\<lambda>r. wr_run_id r = i \<and> locked_by_worker worker r) (runs s)
     \<and> list_all (\<lambda>r. locked_by_worker worker r \<longrightarrow>
         wr_run_id r = i \<and> wr_schedule_id r = None \<and> wr_available_at r = Some a) (runs s)"

lemma heartbeat_of_known:
  assumes wf: "wf_db s"
    and known: "list_ex (\<lambda>w. kr_worker_id w = k \<and> kr_status w \<noteq> show_worker_status WkOffline) (workers s)"
  shows "\<exists>s'. wk_heartbeat now k s = (Inr True, s') \<and> wf_db s' \<and> runs s' = runs s
     \<and> list_ex (\<lambda>w. kr_worker_id w = k \<and> kr_status w \<noteq> show_worker_status WkOffline) (workers s')"
proof -
  let ?P = "\<lambda>r. kr_worker_id r = k \<and> kr_status r \<noteq> show_worker_status WkOffline"
  let ?f = "\<lambda>r. r\<lparr>kr_last_heartbeat_at := now\<rparr>"
  have "update_workers_count ?P ?f s = (Inr (sql_count ?P (workers s)), s\<lparr>workers := sql_update ?P ?f (workers s)\<rparr>)"
    by (intro update_workers_count_narrow [OF wf]) (simp add: worker_key_def in_worker_index_def)
  moreover have "0 < sql_count ?P (workers s)"
    using known by (auto simp: sql_count_def list_ex_iff filter_empty_conv)
  ultimately have h: "wk_heartbeat now k s = (Inr True, s\<lparr>workers := sql_update ?P ?f (workers s)\<rparr>)"
    by (simp add: wk_heartbeat_def bind_op_def)
  have "wf_db (snd (wk_heartbeat now k s))" by (rule keepsD [OF keeps_worker_updates(1) wf])
  moreover obtain w where "w \<in> set (workers s)" "?P w" using known by (auto simp: list_ex_iff)
  then have "?f w \<in> set (sql_update ?P ?f (workers s)) \<and> ?P (?f w)" by (auto simp: sql_update_def)
  then have "list_ex ?P (sql_update ?P ?f (workers s))" unfolding list_ex_iff by (intro bexI [of _ "?f w"]) simp_all
  ultimately show ?thesis by (simp add: h)
qed

lemma heartbeat_extends:
  assumes l: "leased worker k i a s" and id: "parse_uuid_str E worker = Some k" and t: "t 1 \<le> a"
    and fits: "pg_ts_add a (heartbeat_extension_secs ws * 1000000) \<noteq> None"
  shows "\<exists>s1. runs s1 = runs s
     \<and> list_ex (\<lambda>w. kr_worker_id w = k \<and> kr_status w \<noteq> show_worker_status WkOffline) (workers s1)
     \<and> snd (ws_heartbeat E ws t worker s) = s1\<lparr>runs := map (\<lambda>r. if locked_by_worker worker r
         then r\<lparr>wr_available_at := Some (a + heartbeat_extension_secs ws * 1000000)\<rparr> else r) (runs s)\<rparr>"
proof -
  let ?ext = "heartbeat_extension_secs ws * 1000000"
  let ?beat = "\<lambda>r. if locked_by_worker worker r then r\<lparr>wr_available_at := Some (a + ?ext)\<rparr> else r"
  obtain s1 where s1: "wk_heartbeat (t 0) k s = (Inr True, s1)" "wf_db s1" "runs s1 = runs s"
    "list_ex (\<lambda>w. kr_worker_id w = k \<and> kr_status w \<noteq> show_worker_status WkOffline) (workers s1)"
    using heartbeat_of_known [of s k "t 0"] l by (auto simp: leased_def)
  have each: "wr_run_id r = i" "wr_schedule_id r = None" "wr_available_at r = Some a"
    if "r \<in> set (runs s1)" "locked_by_worker worker r" for r
    using l that by (auto simp: leased_def list_all_iff s1(3))
  have beat: "map (\<lambda>r. if locked_by_worker worker r then r\<lparr>wr_available_at := Some ((case wr_available_at r of
      None \<Rightarrow> t 1 | Some x \<Rightarrow> max x (t 1)) + ?ext)\<rparr> else r) (runs s1) = map ?beat (runs s1)"
    using each t by (intro map_cong) (simp_all add: max_def)
  have "wf_extend_visibility (t 1) worker (heartbeat_extension_secs ws) s1
      = (Inr (sql_count (locked_by_worker worker) (runs s1)), s1\<lparr>runs := map ?beat (runs s1)\<rparr>)"
    unfolding beat [symmetric] using each t fits
    by (intro extend_adds_to_lease [OF s1(2)]) (simp add: extended_from_def max_def)
  then have "snd (ws_heartbeat E ws t worker s) = s1\<lparr>runs := map ?beat (runs s1)\<rparr>"
    by (simp add: ws_heartbeat_def parse_id_def id s1(1) call_store_def map_err_op_def bind_op_def ensure_def wk_find_by_id_def
        split: option.split sum.split)
  then show ?thesis using s1(3,4) by auto
qed

lemma lease_beat:
  assumes l: "leased worker k i a s" and id: "parse_uuid_str E worker = Some k" and t: "t 1 \<le> a"
    and fits: "pg_ts_add a (heartbeat_extension_secs ws * 1000000) \<noteq> None"
  shows "leased worker k i (a + heartbeat_extension_secs ws * 1000000) (snd (ws_heartbeat E ws t worker s))"
proof -
  let ?ext = "heartbeat_extension_secs ws * 1000000"
  let ?beat = "\<lambda>r. if locked_by_worker worker r then r\<lparr>wr_available_at := Some (a + ?ext)\<rparr> else r"
  obtain s1 where s1: "runs s1 = runs s"
    "list_ex (\<lambda>w. kr_worker_id w = k \<and> kr_status w \<noteq> show_worker_status WkOffline) (workers s1)"
    "snd (ws_heartbeat E ws t worker s) = s1\<lparr>runs := map ?beat (runs s)\<rparr>"
    using heartbeat_extends [where t = t, OF assms] by blast
  have each: "wr_run_id r = i" "wr_schedule_id r = None" if "r \<in> set (runs s)" "locked_by_worker worker r" for r
    using l that by (auto simp: leased_def list_all_iff)
  have "wf_db (snd (ws_heartbeat E ws t worker s))"
    using l by (intro keepsD [OF worker_service_keeps(2)]) (simp add: leased_def)
  moreover have beats: "locked_by_worker worker (?beat r) = locked_by_worker worker r" "wr_run_id (?beat r) = wr_run_id r"
    "wr_schedule_id (?beat r) = wr_schedule_id r" for r
    by (simp_all add: locked_by_worker_def)
  obtain r where r: "r \<in> set (runs s)" "wr_run_id r = i" "locked_by_worker worker r"
    using l unfolding leased_def list_ex_iff by blast
  have "list_ex (\<lambda>r. wr_run_id r = i \<and> locked_by_worker worker r) (map ?beat (runs s))"
    unfolding list_ex_iff
  proof (rule bexI)
    show "wr_run_id (?beat r) = i \<and> locked_by_worker worker (?beat r)" unfolding beats using r by simp
  qed (use r(1) in simp)
  moreover have "list_all (\<lambda>r. locked_by_worker worker r \<longrightarrow>
      wr_run_id r = i \<and> wr_schedule_id r = None \<and> wr_available_at r = Some (a + ?ext)) (map ?beat (runs s))"
    unfolding list_all_iff
  proof (intro ballI impI)
    fix x assume "x \<in> set (map ?beat (runs s))" and x: "locked_by_worker worker x"
    then obtain r0 where r0: "r0 \<in> set (runs s)" "x = ?beat r0" by auto
    then have "locked_by_worker worker r0" using x beats(1) [of r0] by simp
    then show "wr_run_id x = i \<and> wr_schedule_id x = None \<and> wr_available_at x = Some (a + ?ext)"
      using each [OF r0(1)] r0(2) by simp
  qed
  ultimately show ?thesis using s1(2) by (simp add: leased_def s1(3))
qed

lemma lease_beats:
  assumes "leased worker k i a s" and "parse_uuid_str E worker = Some k"
    and "\<forall>j<length ts. (ts ! j) 1 \<le> a + int j * (heartbeat_extension_secs ws * 1000000)"
    and "0 \<le> heartbeat_extension_secs ws" and "pg_ts_min \<le> a"
    and "a + int (length ts) * (heartbeat_extension_secs ws * 1000000) < pg_ts_end"
  shows "leased worker k i (a + int (length ts) * (heartbeat_extension_secs ws * 1000000)) (heartbeats E ws worker ts s)"
  using assms
proof (induction ts arbitrary: a s)
  case (Cons t ts)
  let ?ext = "heartbeat_extension_secs ws * 1000000"
  have first: "t 1 \<le> a" using Cons.prems(3) by force
  have len: "a + ?ext + int (length ts) * ?ext = a + int (length (t # ts)) * ?ext" by (simp add: algebra_simps)
  have "0 \<le> int (length ts) * ?ext" using Cons.prems(4) by simp
  then have "a + ?ext < pg_ts_end" using Cons.prems(6) unfolding len [symmetric] by linarith
  then have "pg_ts_add a ?ext \<noteq> None" using Cons.prems(4,5) by (simp add: pg_ts_add_def)
  note beat = lease_beat [where t = t, OF Cons.prems(1,2) first this]
  have "\<forall>j<length ts. (ts ! j) 1 \<le> a + ?ext + int j * ?ext"
  proof (intro allI impI)
    fix j assume "j < length ts"
    then show "(ts ! j) 1 \<le> a + ?ext + int j * ?ext"
      using Cons.prems(3) [rule_format, of "Suc j"] by (simp add: algebra_simps)
  qed
  then have "leased worker k i (a + ?ext + int (length ts) * ?ext) (heartbeats E ws worker ts (snd (ws_heartbeat E ws t worker s)))"
    using Cons.prems(4-6) unfolding len [symmetric] by (intro Cons.IH [OF beat Cons.prems(2)]) simp_all
  then show ?case unfolding len by simp
qed simp

text \<open>C33: Heartbeats pile up: as long as a worker beats before its lease ends, every beat moves the end by the whole
  extension, whatever the time between two beats. After \<open>n\<close> beats the run is locked until \<open>n\<close> extensions after
  the first end of the lease, and no poll gets it before, even if the worker died right after its last beat.\<close>

theorem heartbeats_pile_up:
  assumes "leased worker k i a s" and "parse_uuid_str E worker = Some k"
    and "\<forall>j<length ts. (ts ! j) 1 \<le> a + int j * (heartbeat_extension_secs ws * 1000000)"
    and "0 \<le> heartbeat_extension_secs ws" and "pg_ts_min \<le> a"
    and "a + int (length ts) * (heartbeat_extension_secs ws * 1000000) < pg_ts_end"
  shows "\<exists>r\<in>set (runs (heartbeats E ws worker ts s)). wr_run_id r = i \<and> wr_locked_by r = Some worker
     \<and> wr_available_at r = Some (a + int (length ts) * (heartbeat_extension_secs ws * 1000000))
     \<and> (\<forall>now ns queue types. claimable now ns queue types r \<longrightarrow>
          a + int (length ts) * (heartbeat_extension_secs ws * 1000000) \<le> now)"
proof -
  let ?a = "a + int (length ts) * (heartbeat_extension_secs ws * 1000000)"
  obtain r where r: "r \<in> set (runs (heartbeats E ws worker ts s))" "wr_run_id r = i" "locked_by_worker worker r"
    "wr_available_at r = Some ?a"
    using lease_beats [OF assms] unfolding leased_def list_ex_iff list_all_iff by blast
  have "?a \<le> now" if "claimable now ns queue types r" for now ns queue types
    using that r(4) by (simp add: claimable_def)
  then show ?thesis using r unfolding locked_by_worker_def by blast
qed

text \<open>A worker that holds run 2.\<close>

definition demo_leased_db :: db where
  "demo_leased_db = demo_workers_db\<lparr>runs := map (\<lambda>r. if wr_run_id r = 2 then r\<lparr>wr_locked_by := Some ''70''\<rparr> else r)
     (runs demo_workers_db)\<rparr>"

lemma heartbeats_pile_up_witness:
  "\<exists>r\<in>set (runs (heartbeats demo_env default_worker_settings ''70'' [\<lambda>_. 1000, \<lambda>_. 2000, \<lambda>_. 3000] demo_leased_db)).
     wr_run_id r = 2 \<and> wr_locked_by r = Some ''70'' \<and> wr_available_at r = Some (5000 + 3 * 45 * 1000000)
     \<and> \<not> claimable (60 * 1000000) ''default'' ''q'' [''Order''] r"
proof -
  have leased: "leased ''70'' 70 2 5000 demo_leased_db" by code_simp
  have id: "parse_uuid_str demo_env ''70'' = Some 70" by code_simp
  let ?ts = "[\<lambda>_. 1000, \<lambda>_. 2000, \<lambda>_. 3000] :: (nat \<Rightarrow> timestamp) list"
  have ts: "\<forall>j<length ?ts. (?ts ! j) 1 \<le> 5000 + int j * (heartbeat_extension_secs default_worker_settings * 1000000)"
    by (auto simp: default_worker_settings_def less_Suc_eq)
  have ext: "heartbeat_extension_secs default_worker_settings = 45" by (simp add: default_worker_settings_def)
  have range: "0 \<le> heartbeat_extension_secs default_worker_settings" "pg_ts_min \<le> 5000"
    "5000 + int (length ?ts) * (heartbeat_extension_secs default_worker_settings * 1000000) < pg_ts_end"
    by (simp_all add: ext pg_ts_min_def pg_ts_end_def)
  obtain r where r: "r \<in> set (runs (heartbeats demo_env default_worker_settings ''70'' ?ts demo_leased_db))"
    "wr_run_id r = 2 \<and> wr_locked_by r = Some ''70''"
    "wr_available_at r = Some (5000 + int (length ?ts) * (heartbeat_extension_secs default_worker_settings * 1000000))"
    "\<forall>now ns queue types. claimable now ns queue types r \<longrightarrow>
       5000 + int (length ?ts) * (heartbeat_extension_secs default_worker_settings * 1000000) \<le> now"
    using heartbeats_pile_up [OF leased id ts range] by blast
  have "\<not> claimable (60 * 1000000) ''default'' ''q'' [''Order''] r"
    using r(4) [rule_format, of "60 * 1000000" "''default''" "''q''" "[''Order'']"] by (auto simp: ext)
  then show ?thesis using r(1-3) by (intro bexI [OF _ r(1)]) (simp add: ext)
qed

end
