(* ===== verification/RunQueue.thy ===== *)
theory RunQueue
  imports WorkflowCorrect
begin

text \<open>
  The table of runs as a queue with a visibility timeout: each entry has a time from which it may be handed out, and
  handing it out moves that time behind the timeout. The contract is a locale, what holds of any such queue is
  proved in it, and the repository of workflows is shown to be one.
\<close>

subsection \<open>Calls one after the other\<close>

fun each_op :: "('x \<Rightarrow> 's \<Rightarrow> 'r \<times> 's) \<Rightarrow> 'x list \<Rightarrow> 's \<Rightarrow> 'r list \<times> 's" where
  "each_op f [] s = ([], s)"
| "each_op f (x # xs) s =
     (let (r, s1) = f x s; (rs, s2) = each_op f xs s1 in (r # rs, s2))"

definition handed_out :: "('e + 'k option) list \<Rightarrow> 'k list" where
  "handed_out rs = List.map_filter (\<lambda>r. case r of Inr x \<Rightarrow> x | Inl e \<Rightarrow> None) rs"

lemma handed_out_simps [simp]:
  "handed_out [] = []" "handed_out (Inl e # rs) = handed_out rs" "handed_out (Inr None # rs) = handed_out rs"
  "handed_out (Inr (Some k) # rs) = k # handed_out rs"
  by (simp_all add: handed_out_def map_filter_simps)

definition hidden :: "('k \<Rightarrow> timestamp option) \<Rightarrow> timestamp \<Rightarrow> 'k set \<Rightarrow> bool" where
  "hidden q until D \<longleftrightarrow> (\<forall>i\<in>D. \<exists>a \<ge> until. q i = Some a)"

definition ahead :: "('k \<Rightarrow> timestamp option) \<Rightarrow> timestamp \<Rightarrow> 'k set" where
  "ahead q a = {j. \<exists>b \<le> a. q j = Some b}"

subsection \<open>The contract\<close>

text \<open>
  A poll has a clock and entries that it must skip. It answers that nothing is due; or it hands out an entry that is
  due, among those it sees the one due first, and hides it for the length of the lease; or it fails, and may have
  hidden an entry that was due.
\<close>

locale visibility_queue =
  fixes inv :: "'s \<Rightarrow> bool" and view :: "'s \<Rightarrow> 'k \<Rightarrow> timestamp option"
    and poll :: "'x \<Rightarrow> 's \<Rightarrow> ('e + 'k option) \<times> 's" and clock :: "'x \<Rightarrow> timestamp" and skips :: "'x \<Rightarrow> 'k \<Rightarrow> bool"
    and lease :: int
  assumes poll_None: "inv s \<Longrightarrow> poll x s = (Inr None, s') \<Longrightarrow>
      s' = s \<and> (\<forall>i a. view s i = Some a \<longrightarrow> \<not> skips x i \<longrightarrow> clock x < a)"
    and poll_Some: "inv s \<Longrightarrow> poll x s = (Inr (Some i), s') \<Longrightarrow>
      \<not> skips x i \<and> view s' = (view s)(i \<mapsto> clock x + lease)
      \<and> (\<exists>a \<le> clock x. view s i = Some a
           \<and> (\<forall>j b. view s j = Some b \<longrightarrow> \<not> skips x j \<longrightarrow> b \<le> clock x \<longrightarrow> a \<le> b))"
    and poll_Inl: "inv s \<Longrightarrow> poll x s = (Inl e, s') \<Longrightarrow>
      view s' = view s \<or> (\<exists>i. \<exists>a \<le> clock x. view s i = Some a \<and> view s' = (view s)(i \<mapsto> clock x + lease))"
    and poll_inv: "inv s \<Longrightarrow> inv (snd (poll x s))"
    and finite_view: "inv s \<Longrightarrow> finite (dom (view s))"
begin

text \<open>What has been handed out is hidden from polls before the end of its lease.\<close>

lemma hidden_poll:
  assumes "inv s" and "poll x s = (r, s')" and "hidden (view s) until D" and "clock x < until" and "until \<le> clock x + lease"
  shows "hidden (view s') until D \<and> (\<forall>i. r = Inr (Some i) \<longrightarrow> i \<notin> D \<and> hidden (view s') until (insert i D))"
proof (cases r)
  case (Inl e)
  then show ?thesis using poll_Inl [OF assms(1)] assms(2-5) by (fastforce simp: hidden_def)
next
  case (Inr z)
  then show ?thesis
  proof (cases z)
    case None
    then show ?thesis using poll_None [OF assms(1)] assms(2,3) Inr by auto
  next
    case (Some i)
    then have i: "view s' = (view s)(i \<mapsto> clock x + lease)" "\<exists>a \<le> clock x. view s i = Some a"
      using poll_Some [OF assms(1)] assms(2) Inr by blast+
    then have "i \<notin> D" using assms(3,4) by (force simp: hidden_def)
    moreover have "hidden (view s') until (insert i D)"
      using i(1) assms(3,5) by (auto simp: hidden_def)
    ultimately show ?thesis using Inr Some by (auto simp: hidden_def)
  qed
qed

lemma handed_out_distinct:
  assumes "inv s" and "each_op poll xs s = (rs, s')" and "hidden (view s) until D"
    and "\<forall>x\<in>set xs. clock x < until \<and> until \<le> clock x + lease"
  shows "distinct (handed_out rs) \<and> D \<inter> set (handed_out rs) = {}"
  using assms
proof (induction xs arbitrary: s rs D)
  case (Cons x xs)
  obtain r s1 rs1 where p: "poll x s = (r, s1)" "each_op poll xs s1 = (rs1, s')" "rs = r # rs1"
    using Cons.prems(2) by (auto split: prod.splits)
  note step = hidden_poll [OF Cons.prems(1) p(1) Cons.prems(3)]
  have inv: "inv s1" using poll_inv [OF Cons.prems(1), of x] p(1) by simp
  show ?case
  proof (cases "\<exists>i. r = Inr (Some i)")
    case True
    then obtain i where i: "r = Inr (Some i)" by blast
    then have "distinct (handed_out rs1) \<and> insert i D \<inter> set (handed_out rs1) = {}" "i \<notin> D"
      using Cons.IH [OF inv p(2)] step Cons.prems(4) by auto
    then show ?thesis by (auto simp: p(3) i)
  next
    case False
    then have "handed_out rs = handed_out rs1"
      unfolding p(3) by (metis handed_out_simps(2,3) not_None_eq obj_sumE)
    then show ?thesis using Cons.IH [OF inv p(2)] step Cons.prems(4) by auto
  qed
qed simp

text \<open>An entry that is due waits at most for those that have been due at least as long.\<close>

lemma finite_ahead: "inv s \<Longrightarrow> finite (ahead (view s) a)"
  by (rule finite_subset [OF _ finite_view]) (auto simp: ahead_def)

lemma handed_out_in_turn:
  assumes "inv s" and "each_op poll xs s = (rs, s')" and "view s i = Some a" and "0 < lease"
    and "\<forall>x\<in>set xs. a \<le> clock x \<and> \<not> skips x i" and "\<forall>r\<in>set rs. \<exists>y. r = Inr y"
    and "card (ahead (view s) a) \<le> length xs"
  shows "i \<in> set (handed_out rs)"
  using assms
proof (induction xs arbitrary: s rs)
  case Nil
  then have "ahead (view s) a = {}" using finite_ahead by simp
  then show ?case using Nil.prems(3) by (auto simp: ahead_def)
next
  case (Cons x xs)
  obtain r s1 rs1 where p: "poll x s = (r, s1)" "each_op poll xs s1 = (rs1, s')" "rs = r # rs1"
    using Cons.prems(2) by (auto split: prod.splits)
  have inv: "inv s1" using poll_inv [OF Cons.prems(1), of x] p(1) by simp
  have x: "a \<le> clock x" "\<not> skips x i" using Cons.prems(5) by simp_all
  obtain y where y: "r = Inr y" using Cons.prems(6) p(3) by auto
  have "y \<noteq> None"
  proof
    assume "y = None"
    then show False using poll_None [OF Cons.prems(1), of x s1] p(1) y Cons.prems(3) x by force
  qed
  then obtain j where j: "r = Inr (Some j)" using y by auto
  then obtain b where s1: "view s1 = (view s)(j \<mapsto> clock x + lease)" and b: "view s j = Some b" "b \<le> a"
    using poll_Some [OF Cons.prems(1)] p(1) Cons.prems(3) x by blast
  show ?case
  proof (cases "j = i")
    case False
    have "ahead (view s1) a = ahead (view s) a - {j}" using s1 x(1) Cons.prems(4) by (auto simp: ahead_def)
    moreover have "j \<in> ahead (view s) a" using b by (auto simp: ahead_def)
    ultimately have "card (ahead (view s1) a) \<le> length xs"
      using Cons.prems(7) finite_ahead [OF Cons.prems(1)] by simp
    moreover have "view s1 i = Some a" using s1 Cons.prems(3) False by simp
    ultimately have "i \<in> set (handed_out rs1)"
      using Cons.prems(4-6) by (intro Cons.IH [OF inv p(2)]) (simp_all add: p(3))
    then show ?thesis by (simp add: p(3) j)
  qed (simp add: p(3) j)
qed

end

subsection \<open>The repository of workflows is such a queue\<close>

text \<open>The runs that a poll of a queue may see, without its clock.\<close>

definition open_for :: "string \<Rightarrow> string \<Rightarrow> string list \<Rightarrow> run_row \<Rightarrow> bool" where
  "open_for ns queue types r \<longleftrightarrow> wr_namespace r = ns \<and> wr_task_queue r = queue \<and> claimable_text (wr_status r)
     \<and> (types = [] \<or> wr_workflow_type r \<in> set types)"

lemma claimable_open:
  "claimable now ns queue types r \<longleftrightarrow>
     open_for ns queue types r \<and> (case wr_available_at r of None \<Rightarrow> False | Some t \<Rightarrow> t \<le> now)"
  by (auto simp: claimable_def open_for_def)

lemma open_claimed: "open_for ns queue types r \<Longrightarrow> open_for ns queue types (claim_run now worker until r)"
  by (simp add: open_for_def claim_run_def claimable_text_def)

definition queue_view :: "string \<Rightarrow> string \<Rightarrow> string list \<Rightarrow> db \<Rightarrow> uuid \<Rightarrow> timestamp option" where
  "queue_view ns queue types s i = Option.bind
     (List.find (\<lambda>r. wr_run_id r = i \<and> open_for ns queue types r) (runs s)) wr_available_at"

lemma queue_view_row:
  assumes "wf_db s" and "r \<in> set (runs s)"
  shows "queue_view ns queue types s (wr_run_id r) = (if open_for ns queue types r then wr_available_at r else None)"
proof (cases "open_for ns queue types r")
  case True
  have "List.find (\<lambda>x. wr_run_id x = wr_run_id r \<and> open_for ns queue types x) (runs s) = Some r"
    using run_unique [OF assms(1) _ assms(2)] assms(2) True by (intro find_the) auto
  then show ?thesis using True by (simp add: queue_view_def)
next
  case False
  have "\<not> (wr_run_id x = wr_run_id r \<and> open_for ns queue types x)" if "x \<in> set (runs s)" for x
    using run_unique [OF assms(1) that assms(2)] False by auto
  then have "List.find (\<lambda>x. wr_run_id x = wr_run_id r \<and> open_for ns queue types x) (runs s) = None"
    by (simp add: find_None_all)
  then show ?thesis using False by (simp add: queue_view_def)
qed

lemma queue_view_Some:
  assumes "queue_view ns queue types s i = Some a"
  obtains r where "r \<in> set (runs s)" and "wr_run_id r = i" and "open_for ns queue types r" and "wr_available_at r = Some a"
  using assms find_Some_in unfolding queue_view_def bind_eq_Some_conv by fast

lemma queue_view_due:
  assumes "wf_db s"
  shows "(\<exists>a. queue_view ns queue types s i = Some a \<and> a \<le> now) \<longleftrightarrow>
     (\<exists>r\<in>set (runs s). wr_run_id r = i \<and> claimable now ns queue types r)"
  using queue_view_row [OF assms] by (auto simp: claimable_open elim!: queue_view_Some split: option.splits)

lemma queue_view_claim:
  assumes wf: "wf_db s" and r: "r \<in> set (runs s)" "open_for ns queue types r"
    and s': "s' = s\<lparr>runs := sql_update (\<lambda>x. wr_run_id x = wr_run_id r) (claim_run now worker until) (runs s)\<rparr>"
  shows "queue_view ns queue types s' = (queue_view ns queue types s)(wr_run_id r \<mapsto> until)"
proof
  fix i
  let ?f = "claim_run now worker until"
  have find: "List.find (\<lambda>x. wr_run_id x = i \<and> open_for ns queue types x) (runs s') = map_option
      (\<lambda>x. if wr_run_id x = wr_run_id r then ?f x else x) (List.find (\<lambda>x. wr_run_id x = i \<and> open_for ns queue types x) (runs s))"
    if "i \<noteq> wr_run_id r"
  proof -
    have "List.find (\<lambda>x. wr_run_id x = i \<and> open_for ns queue types x) (map (\<lambda>x. if wr_run_id x = wr_run_id r then ?f x else x) rs)
      = map_option (\<lambda>x. if wr_run_id x = wr_run_id r then ?f x else x)
          (List.find (\<lambda>x. wr_run_id x = i \<and> open_for ns queue types x) rs)" for rs
      using that by (induction rs) (auto simp: claim_run_def)
    then show ?thesis by (simp add: s' sql_update_def)
  qed
  show "queue_view ns queue types s' i = ((queue_view ns queue types s)(wr_run_id r \<mapsto> until)) i"
  proof (cases "i = wr_run_id r")
    case True
    have "List.find (\<lambda>x. wr_run_id x = i \<and> open_for ns queue types x) (runs s') = Some (?f r)"
    proof (rule find_the)
      show "?f r \<in> set (runs s')" using r(1) by (force simp: s' sql_update_def)
      show "wr_run_id (?f r) = i \<and> open_for ns queue types (?f r)"
        using r(2) open_claimed True by (simp add: claim_run_def)
    next
      fix y assume "y \<in> set (runs s')" "wr_run_id y = i \<and> open_for ns queue types y"
      then obtain x where x: "x \<in> set (runs s)" "y = (if wr_run_id x = wr_run_id r then ?f x else x)" "wr_run_id y = wr_run_id r"
        using True by (auto simp: s' sql_update_def)
      then have "wr_run_id x = wr_run_id r" by (auto split: if_splits)
      then show "y = ?f r" using run_unique [OF wf x(1) r(1)] x(2) by simp
    qed
    then show ?thesis using True by (simp add: queue_view_def claim_run_def)
  next
    case False
    have "wr_run_id x = i" if "List.find (\<lambda>x. wr_run_id x = i \<and> open_for ns queue types x) (runs s) = Some x" for x
      using find_Some_in [OF that] by simp
    then show ?thesis using False find [OF False]
      by (cases "List.find (\<lambda>x. wr_run_id x = i \<and> open_for ns queue types x) (runs s)") (auto simp: queue_view_def)
  qed
qed

text \<open>A poll of the repository, by its locks, its clock and its worker, and what it hands out.\<close>

definition claim ::
  "string \<Rightarrow> string \<Rightarrow> string list \<Rightarrow> int \<Rightarrow> (uuid \<Rightarrow> bool) \<times> timestamp \<times> string \<Rightarrow> db
    \<Rightarrow> (store_error + uuid option) \<times> db" where
  "claim ns queue types vt x s = (case x of (locked, now, worker) \<Rightarrow>
     (case wf_poll_workflow locked now ns queue worker types vt s of (r, s') \<Rightarrow>
       (map_sum id (map_option cl_run_id) r, s')))"

lemma mapped_Inr: "map_sum id g x = Inr y \<longleftrightarrow> (\<exists>z. x = Inr z \<and> g z = y)"
  by (cases x) auto

lemma claim_effect:
  assumes wf: "wf_db s" and c: "claim ns queue types vt (locked, now, worker) s = (r, s')"
  shows "s' = s \<or> (\<exists>i a. a \<le> now \<and> queue_view ns queue types s i = Some a
     \<and> queue_view ns queue types s' = (queue_view ns queue types s)(i \<mapsto> now + vt * 1000000))"
proof -
  let ?p = "wf_poll_workflow locked now ns queue worker types vt s"
  have s': "s' = snd ?p" using c by (auto simp: claim_def split: prod.splits)
  show ?thesis using poll_snd [of locked now ns queue worker types vt s]
  proof (elim disjE exE conjE)
    assume "snd ?p = s"
    then show ?thesis using s' by simp
  next
    fix x until
    assume x: "x \<in> set (runs s)" "claimable now ns queue types x" and until: "pg_ts_add now (vt * 1000000) = Some until"
      and upd: "snd ?p = snd (update_runs (\<lambda>w. wr_run_id w = wr_run_id x) (claim_run now worker until) s)"
    have t: "until = now + vt * 1000000" using until by (simp add: pg_ts_add_def split: if_splits)
    obtain a where a: "wr_available_at x = Some a" "a \<le> now" "open_for ns queue types x"
      using x(2) by (auto simp: claimable_open split: option.splits)
    then have "queue_view ns queue types s (wr_run_id x) = Some a" using queue_view_row [OF wf x(1)] by simp
    moreover have "s' = s \<or> s' = s\<lparr>runs := sql_update (\<lambda>w. wr_run_id w = wr_run_id x) (claim_run now worker until) (runs s)\<rparr>"
      unfolding s' upd
      by (cases "update_runs (\<lambda>w. wr_run_id w = wr_run_id x) (claim_run now worker until) s";
          cases "fst (update_runs (\<lambda>w. wr_run_id w = wr_run_id x) (claim_run now worker until) s)")
        (auto dest: update_runs_Inl update_runs_Inr)
    ultimately show ?thesis using queue_view_claim [OF wf x(1) a(3)] a(2) t by blast
  qed
qed

interpretation run_queue: visibility_queue wf_db "queue_view ns queue types" "claim ns queue types vt"
  "\<lambda>x. fst (snd x)" fst "vt * 1000000"
proof (unfold_locales, goal_cases)
  case (1 s x s')
  obtain locked now worker where x: "x = (locked, now, worker)" by (cases x)
  have p: "wf_poll_workflow locked now ns queue worker types vt s = (Inr None, s')"
    using 1(2) by (auto simp: claim_def x mapped_Inr split: prod.splits)
  have none: "\<not> (\<exists>r\<in>set (runs s). claimable now ns queue types r \<and> \<not> locked (wr_run_id r))"
    using poll_None_iff [of locked now ns queue worker types vt s] p by simp
  have "now < a" if "queue_view ns queue types s i = Some a" "\<not> locked i" for i a
    using queue_view_due [OF 1(1), of ns queue types i now] that none by (metis not_less)
  then show ?case using poll_None_state [OF p] by (simp add: x)
next
  case (2 s x i s')
  obtain locked now worker where x: "x = (locked, now, worker)" by (cases x)
  obtain c where p: "wf_poll_workflow locked now ns queue worker types vt s = (Inr (Some c), s')" "i = cl_run_id c"
    using 2(2) by (auto simp: claim_def x mapped_Inr split: prod.splits)
  from p(1) show ?case
  proof (rule poll_Some)
    fix r q
    assume r: "r \<in> set (runs s)" "claimable now ns queue types r" "\<not> locked (wr_run_id r)"
      and least: "\<And>x. x \<in> set (runs s) \<Longrightarrow> claimable now ns queue types x \<Longrightarrow> \<not> locked (wr_run_id x)
           \<Longrightarrow> available_key r \<le> available_key x"
      and s': "s' = s\<lparr>runs := sql_update (\<lambda>w. wr_run_id w = wr_run_id r) (claim_run now worker (now + vt * 1000000)) (runs s)\<rparr>"
      and c: "c = \<lparr>cl_run_id = wr_run_id r, cl_workflow_type = wr_workflow_type r, cl_input = pl_input q,
                cl_locked_by = Some worker\<rparr>"
    have i: "i = wr_run_id r" using p(2) c by simp
    obtain a where a: "wr_available_at r = Some a" "a \<le> now" "open_for ns queue types r"
      using r(2) by (auto simp: claimable_open split: option.splits)
    have "a \<le> b" if b: "queue_view ns queue types s j = Some b" "\<not> locked j" "b \<le> now" for j b
    proof -
      obtain z where "z \<in> set (runs s)" "wr_run_id z = j" "open_for ns queue types z" "wr_available_at z = Some b"
        using b(1) by (rule queue_view_Some)
      then show ?thesis using least [of z] b(2,3) a(1) by (simp add: claimable_open available_key_def)
    qed
    then show ?case
      using r(1,3) a queue_view_row [OF 2(1) r(1), of ns queue types] queue_view_claim [OF 2(1) r(1) a(3) s']
      by (auto simp: x i)
  qed
next
  case (3 s x e s')
  then show ?case using claim_effect [OF 3(1), of ns queue types vt "fst x" "fst (snd x)" "snd (snd x)" "Inl e" s'] by auto
next
  case (4 s x)
  obtain locked now worker where x: "x = (locked, now, worker)" by (cases x)
  show ?case using keepsD [OF keeps_poll 4, of locked now ns queue worker types vt]
    by (cases "wf_poll_workflow locked now ns queue worker types vt s") (simp add: claim_def x)
next
  case (5 s)
  have "dom (queue_view ns queue types s) \<subseteq> set (run_ids s)" by (auto elim!: queue_view_Some)
  then show ?case using finite_subset by blast
qed

subsection \<open>Many polls\<close>

text \<open>No run is handed out twice by the polls of a queue as long as the lease of the first of them lasts: any number of
  polls, by whatever workers and with whatever locks, also if some of them fail.\<close>

theorem polls_hand_out_distinct_runs:
  assumes "wf_db s" and "each_op (claim ns queue types vt) polls s = (rs, s')"
    and "\<forall>x\<in>set polls. start \<le> fst (snd x) \<and> fst (snd x) < start + vt * 1000000"
  shows "distinct (handed_out rs)"
  using run_queue.handed_out_distinct [OF assms(1,2), of "start + vt * 1000000" "{}"] assms(3) by (force simp: hidden_def)

text \<open>C14: Every run gets its turn: a run that is due waits at most for those of its queue that have been due at least as long. If
  there are \<open>n\<close> of these, the run itself included, then \<open>n\<close> polls that do not fail hand it out, whatever workers they
  come from, however their clocks are ordered, and whatever other runs other transactions have locked.\<close>

theorem due_run_gets_its_turn:
  assumes "wf_db s" and "r \<in> set (runs s)" and "open_for ns queue types r" and "wr_available_at r = Some a"
    and "each_op (claim ns queue types vt) polls s = (rs, s')" and "0 < vt"
    and "\<forall>x\<in>set polls. a \<le> fst (snd x) \<and> \<not> fst x (wr_run_id r)" and "\<forall>c\<in>set rs. \<exists>y. c = Inr y"
    and "length (filter (\<lambda>x. open_for ns queue types x \<and> (case wr_available_at x of None \<Rightarrow> False | Some b \<Rightarrow> b \<le> a)) (runs s))
       \<le> length polls"
  shows "wr_run_id r \<in> set (handed_out rs)"
proof -
  let ?before = "filter (\<lambda>x. open_for ns queue types x \<and> (case wr_available_at x of None \<Rightarrow> False | Some b \<Rightarrow> b \<le> a)) (runs s)"
  have "ahead (queue_view ns queue types s) a \<subseteq> set (map wr_run_id ?before)"
    by (force simp: ahead_def elim!: queue_view_Some)
  then have "card (ahead (queue_view ns queue types s) a) \<le> card (set (map wr_run_id ?before))"
    by (intro card_mono) simp_all
  also have "\<dots> \<le> length polls" using card_length [of "map wr_run_id ?before"] assms(9) by simp
  finally have "card (ahead (queue_view ns queue types s) a) \<le> length polls" .
  then show ?thesis
    using queue_view_row [OF assms(1,2), of ns queue types] assms(3,4,6-8)
    by (intro run_queue.handed_out_in_turn [OF assms(1,5)]) simp_all
qed

lemma due_run_gets_its_turn_witness:
  "7 \<in> set (handed_out (fst (each_op (claim ''default'' ''q'' [] 30)
     [(no_locks, 2000, ''w2''), (\<lambda>i. i = 2, 1000, ''w3'')] demo_db2)))"
proof -
  let ?c = "each_op (claim ''default'' ''q'' [] 30) [(no_locks, 2000, ''w2''), (\<lambda>i. i = 2, 1000, ''w3'')] demo_db2"
  let ?r = "demo_waiting\<lparr>wr_run_id := 7, wr_external_id := ''order-7''\<rparr>"
  have wf: "wf_db demo_db2" by code_simp
  have r: "?r \<in> set (runs demo_db2)" by (simp add: demo_db2_def)
  have f: "open_for ''default'' ''q'' [] ?r" "wr_available_at ?r = Some 100"
    "list_all (\<lambda>c. case c of Inl e \<Rightarrow> False | Inr y \<Rightarrow> True) (fst ?c)"
    "length (filter (\<lambda>x. open_for ''default'' ''q'' [] x \<and> (case wr_available_at x of None \<Rightarrow> False | Some b \<Rightarrow> b \<le> 100))
       (runs demo_db2)) = 2"
    by code_simp+
  have ok: "\<forall>c\<in>set (fst ?c). \<exists>y. c = Inr y"
    using f(3) unfolding list_all_iff by (metis (no_types, lifting) obj_sumE sum.case(1))
  have "wr_run_id ?r \<in> set (handed_out (fst ?c))"
    by (rule due_run_gets_its_turn [OF wf r f(1,2) prod.collapse [symmetric] _ _ ok]) (simp_all add: f(4) no_locks_def)
  then show ?thesis by simp
qed

end
