(* ===== verification/RecoveryCorrect.thy ===== *)
theory RecoveryCorrect
  imports RunQueue
begin

text \<open>
  How a run survives its workers. Nothing in the server looks for runs of dead workers: a poll takes a RUNNING
  row whose lease has ended like a waiting one. So a run whose workers keep dying is handed out again and again;
  its retry policy is not consulted.
\<close>

subsection \<open>Polls of workers that die\<close>

text \<open>Polls one after the other, each at its time and for its worker, with nothing in between.\<close>

definition polls ::
  "string \<Rightarrow> string \<Rightarrow> string list \<Rightarrow> int \<Rightarrow> (timestamp \<times> string) list \<Rightarrow> db
    \<Rightarrow> (store_error + claimed_workflow option) list \<times> db" where
  "polls ns queue types vt = each_op (\<lambda>(now, worker). wf_poll_workflow no_locks now ns queue worker types vt)"

lemma polls_simps [simp]:
  "polls ns queue types vt [] s = ([], s)"
  "polls ns queue types vt ((now, worker) # ps) s =
     (let (c, s1) = wf_poll_workflow no_locks now ns queue worker types vt s;
          (cs, s2) = polls ns queue types vt ps s1
      in (c # cs, s2))"
  by (simp_all add: polls_def)

text \<open>Each poll comes when the lease of the one before has ended.\<close>

fun spaced :: "int \<Rightarrow> timestamp \<Rightarrow> (timestamp \<times> string) list \<Rightarrow> bool" where
  "spaced vt a [] = True"
| "spaced vt a ((now, worker) # ps) =
     (a \<le> now \<and> pg_ts_add now (vt * 1000000) \<noteq> None \<and> spaced vt (now + vt * 1000000) ps)"

lemma poll_sole:
  assumes wf: "wf_db s" and r: "r \<in> set (runs s)" "open_for ns queue types r" "wr_available_at r = Some a" "a \<le> now"
    and sole: "list_all (\<lambda>x. open_for ns queue types x \<longrightarrow> x = r) (runs s)" and free: "wr_schedule_id r = None"
    and fits: "pg_ts_add now (vt * 1000000) \<noteq> None" "wr_attempts r + 1 < 2 ^ 31" "0 \<le> wr_attempts r"
    and p: "List.find (\<lambda>p. pl_run_id p = wr_run_id r) (payloads s) = Some p"
  shows "\<exists>s1. wf_poll_workflow no_locks now ns queue worker types vt s =
      (Inr (Some \<lparr>cl_run_id = wr_run_id r, cl_workflow_type = wr_workflow_type r, cl_input = pl_input p,
         cl_locked_by = Some worker\<rparr>), s1)
    \<and> wf_db s1 \<and> payloads s1 = payloads s
    \<and> claim_run now worker (now + vt * 1000000) r \<in> set (runs s1)
    \<and> list_all (\<lambda>x. open_for ns queue types x \<longrightarrow> x = claim_run now worker (now + vt * 1000000) r) (runs s1)"
proof -
  let ?r1 = "claim_run now worker (now + vt * 1000000) r"
  let ?s1 = "s\<lparr>runs := sql_update (\<lambda>w. wr_run_id w = wr_run_id r) (claim_run now worker (now + vt * 1000000)) (runs s)\<rparr>"
  have u: "pg_ts_add now (vt * 1000000) = Some (now + vt * 1000000)" "pg_int4 (wr_attempts r + 1) = Some (wr_attempts r + 1)"
    using fits by (auto simp: pg_ts_add_def pg_int4_def split: if_splits)
  have due: "claimable now ns queue types r" using r by (simp add: claimable_open)
  have only: "x = r" if "x \<in> set (runs s)" "claimable now ns queue types x" for x
    using sole that by (simp add: claimable_open list_all_iff)
  have poll: "wf_poll_workflow no_locks now ns queue worker types vt s =
      (Inr (Some \<lparr>cl_run_id = wr_run_id r, cl_workflow_type = wr_workflow_type r, cl_input = pl_input p,
         cl_locked_by = Some worker\<rparr>), ?s1)"
    by (rule poll_only [OF wf r(1) due _ only u free p]) (simp_all add: no_locks_def)
  have "wf_db ?s1" using keepsD [OF keeps_poll wf, of no_locks now ns queue worker types vt] by (simp add: poll)
  moreover have "x = r" if "x \<in> set (runs s)" "wr_run_id x = wr_run_id r" for x
    using run_unique [OF wf that(1) r(1) that(2)] .
  then have "sql_update (\<lambda>w. wr_run_id w = wr_run_id r) (claim_run now worker (now + vt * 1000000)) (runs s)
      = map (\<lambda>x. if x = r then ?r1 else x) (runs s)"
    by (auto simp: sql_update_def)
  moreover have "?r1 \<in> set (map (\<lambda>x. if x = r then ?r1 else x) (runs s))" using r(1) by force
  moreover have "list_all (\<lambda>x. open_for ns queue types x \<longrightarrow> x = ?r1) (map (\<lambda>x. if x = r then ?r1 else x) (runs s))"
    using sole by (auto simp: list_all_iff)
  ultimately show ?thesis using poll by simp
qed

text \<open>C15: Runs survive their workers, without a limit: if a run is the only open one of its queue and type, polls that come
  after the end of the lease of the one before hand it out every time, with its stored input, and count the attempts;
  so a run that kills its workers is executed again for ever, whatever its retry policy says.\<close>

theorem crashed_run_is_claimed_again:
  assumes "wf_db s" and "r \<in> set (runs s)" and "open_for ns queue types r" and "wr_available_at r = Some a"
    and "list_all (\<lambda>x. open_for ns queue types x \<longrightarrow> x = r) (runs s)" and "wr_schedule_id r = None"
    and "spaced vt a ps" and "0 \<le> wr_attempts r" and "wr_attempts r + int (length ps) < 2 ^ 31"
    and "List.find (\<lambda>p. pl_run_id p = wr_run_id r) (payloads s) = Some p"
  shows "fst (polls ns queue types vt ps s) = map (\<lambda>(now, worker). Inr (Some \<lparr>cl_run_id = wr_run_id r,
       cl_workflow_type = wr_workflow_type r, cl_input = pl_input p, cl_locked_by = Some worker\<rparr>)) ps
     \<and> (\<exists>r'\<in>set (runs (snd (polls ns queue types vt ps s))). wr_run_id r' = wr_run_id r
          \<and> wr_attempts r' = wr_attempts r + int (length ps) \<and> wr_retry_policy r' = wr_retry_policy r)"
  using assms
proof (induction ps arbitrary: s r a)
  case (Cons q ps)
  obtain now worker where q: "q = (now, worker)" by (cases q)
  let ?r1 = "claim_run now worker (now + vt * 1000000) r"
  have fits: "a \<le> now" "pg_ts_add now (vt * 1000000) \<noteq> None" "wr_attempts r + 1 < 2 ^ 31"
    "spaced vt (now + vt * 1000000) ps"
    using Cons.prems(7,9) by (auto simp: q)
  obtain s1 where s1: "wf_poll_workflow no_locks now ns queue worker types vt s =
      (Inr (Some \<lparr>cl_run_id = wr_run_id r, cl_workflow_type = wr_workflow_type r, cl_input = pl_input p,
         cl_locked_by = Some worker\<rparr>), s1)"
    "wf_db s1" "payloads s1 = payloads s" "?r1 \<in> set (runs s1)"
    "list_all (\<lambda>x. open_for ns queue types x \<longrightarrow> x = ?r1) (runs s1)"
    using poll_sole [where worker = worker, OF Cons.prems(1-4) fits(1) Cons.prems(5,6) fits(2,3) Cons.prems(8,10)] by blast
  have same: "wr_run_id ?r1 = wr_run_id r" "wr_workflow_type ?r1 = wr_workflow_type r" "wr_schedule_id ?r1 = None"
    "wr_available_at ?r1 = Some (now + vt * 1000000)" "wr_attempts ?r1 = wr_attempts r + 1"
    "wr_retry_policy ?r1 = wr_retry_policy r"
    using Cons.prems(6) by (simp_all add: claim_run_def)
  note rest = Cons.IH [OF s1(2,4) open_claimed [OF Cons.prems(3)] same(4) s1(5) same(3) fits(4), unfolded s1(3) same,
      OF _ _ Cons.prems(10)]
  show ?case using rest Cons.prems(8,9) by (simp add: q s1(1) split_beta add.assoc)
qed auto

text \<open>A run that may be attempted once.\<close>

definition demo_fragile :: run_row where
  "demo_fragile = demo_waiting\<lparr>wr_retry_policy := Some (default_policy\<lparr>maximum_attempts := 1\<rparr>)\<rparr>"

definition demo_fragile_db :: db where
  "demo_fragile_db = demo_db\<lparr>runs := [demo_fragile, demo_done], payloads := map demo_payload [1, 3]\<rparr>"

lemma crashed_run_is_claimed_again_witness:
  "fst (polls ''default'' ''q'' [] 30 [(1000, ''w1''), (30001000, ''w2''), (60001000, ''w3'')] demo_fragile_db)
     = map (\<lambda>w. Inr (Some \<lparr>cl_run_id = 1, cl_workflow_type = ''Order'', cl_input = [1, 2, 3], cl_locked_by = Some w\<rparr>))
         [''w1'', ''w2'', ''w3'']
   \<and> (\<exists>r\<in>set (runs (snd (polls ''default'' ''q'' [] 30 [(1000, ''w1''), (30001000, ''w2''), (60001000, ''w3'')]
            demo_fragile_db))).
        wr_attempts r = 3 \<and> map_option maximum_attempts (wr_retry_policy r) = Some 1)"
proof -
  let ?ps = "[(1000, ''w1''), (30001000, ''w2''), (60001000, ''w3'')] :: (timestamp \<times> string) list"
  have h: "wf_db demo_fragile_db" "open_for ''default'' ''q'' [] demo_fragile"
    "List.find (\<lambda>p. pl_run_id p = wr_run_id demo_fragile) (payloads demo_fragile_db) = Some (demo_payload 1)"
    "list_all (\<lambda>x. open_for ''default'' ''q'' [] x \<longrightarrow> x = demo_fragile) (runs demo_fragile_db)"
    by code_simp+
  have r: "demo_fragile \<in> set (runs demo_fragile_db)" by (simp add: demo_fragile_db_def)
  have s: "spaced 30 100 ?ps" by (simp add: pg_ts_add_def pg_ts_min_def pg_ts_end_def)
  have d: "wr_available_at demo_fragile = Some 100" "wr_schedule_id demo_fragile = None" "wr_attempts demo_fragile = 0"
    "wr_run_id demo_fragile = 1" "wr_workflow_type demo_fragile = ''Order''" "pl_input (demo_payload 1) = [1, 2, 3]"
    "map_option maximum_attempts (wr_retry_policy demo_fragile) = Some 1"
    by (simp_all add: demo_fragile_def demo_defs)
  show ?thesis
    using crashed_run_is_claimed_again [OF h(1) r h(2) d(1) h(4) d(2) s _ _ h(3)] d by auto
qed

end
