(* ===== verification/ServerMain.thy ===== *)
theory ServerMain
  imports Coordinator WorkflowService WorkerService QueueNotifier RegistryCorrect
begin

text \<open>
  \<open>crates/kagzi-server/src/config.rs\<close> and the parts of \<open>main.rs\<close>, \<open>embedded_assets.rs\<close> and
  \<open>telemetry/propagation.rs\<close> that compute something: the settings with their defaults, the figures that the
  server logs about itself, the choice of a static file, the trace headers. Reading the settings is in
  \<open>Configuration\<close>, setting up the traces in \<open>Telemetry\<close>; connecting and the wiring of the tasks are left out.
\<close>

subsection \<open>Settings\<close>

record server_settings =
  sr_host :: string
  sr_port :: "16 word"
  sr_db_max_connections :: "32 word"

definition default_server_settings :: server_settings where
  "default_server_settings = \<lparr>sr_host = ''0.0.0.0'', sr_port = 50051, sr_db_max_connections = 50\<rparr>"

record payload_settings =
  warn_threshold_bytes :: nat
  max_size_bytes :: nat

record telemetry_settings =
  tl_enabled :: bool
  tl_service_name :: string
  tl_log_level :: string
  tl_log_format :: string

definition default_telemetry_settings :: telemetry_settings where
  "default_telemetry_settings = \<lparr>tl_enabled = False, tl_service_name = ''kagzi-server'', tl_log_level = ''info'',
     tl_log_format = ''pretty''\<rparr>"

record settings =
  cf_database_url :: string
  cf_server :: server_settings
  cf_coordinator :: coordinator_settings
  cf_worker :: worker_settings
  cf_payload :: payload_settings
  cf_queue :: queue_settings
  cf_telemetry :: telemetry_settings

definition store_config_of :: "settings \<Rightarrow> store_config" where
  "store_config_of c = \<lparr>payload_warn_threshold_bytes = warn_threshold_bytes (cf_payload c),
     payload_max_size_bytes = max_size_bytes (cf_payload c)\<rparr>"

subsection \<open>What the server logs about itself\<close>

text \<open>\<open>count(\<dots>).await.unwrap_or(0)\<close>.\<close>

definition count_or_zero :: "int store_op \<Rightarrow> db \<Rightarrow> int" where
  "count_or_zero m s = (case fst (m s) of Inl _ \<Rightarrow> 0 | Inr n \<Rightarrow> n)"

text \<open>At the start: workers, schedules, pending and running runs.\<close>

definition startup_stats :: "db \<Rightarrow> int \<times> int \<times> int \<times> int" where
  "startup_stats s = (count_or_zero (wk_count ''*'' None None) s,
     count_or_zero (wf_count ''*'' (Some (show_status WsScheduled))) s,
     count_or_zero (wf_count ''*'' (Some (show_status WsPending))) s,
     count_or_zero (wf_count ''*'' (Some (show_status WsRunning))) s)"

datatype status_line =
  AwaitingWorkers
| StatusLine (sl_workers: int) (sl_schedules: int) (sl_pending: int) (sl_running: int) (sl_sleeping: int)
    (sl_completed: int)

definition runs_total :: "workflow_status \<Rightarrow> string list \<Rightarrow> db \<Rightarrow> int" where
  "runs_total st nss s = sum_list (map (\<lambda>ns. count_or_zero (wf_count ns (Some (show_status st))) s) nss)"

text \<open>One tick of \<open>status_reporter\<close>: the line it logs and the counter of reminders, a \<open>u32\<close>.\<close>

definition status_tick :: "(string \<Rightarrow> string \<Rightarrow> bool) \<Rightarrow> 32 word \<Rightarrow> db \<Rightarrow> status_line option \<times> 32 word" where
  "status_tick lt reminders s =
     (let total_workers = count_or_zero (wk_count ''*'' None None) s
      in if total_workers = 0
         then (let n = reminders + 1 in (if n mod 4 = 1 then Some AwaitingWorkers else None, n))
         else (case fst (wk_list_distinct_namespaces lt s) of
             Inl _ \<Rightarrow> (None, 0)
           | Inr nss \<Rightarrow> (Some (StatusLine total_workers (runs_total WsScheduled nss s) (runs_total WsPending nss s)
               (runs_total WsRunning nss s) (runs_total WsSleeping nss s) (runs_total WsCompleted nss s)), 0)))"

text \<open>The loop: \<open>dbs\<close> are the databases that the ticks find until the shutdown.\<close>

fun status_reporter :: "(string \<Rightarrow> string \<Rightarrow> bool) \<Rightarrow> 32 word \<Rightarrow> db list \<Rightarrow> status_line option list" where
  "status_reporter lt reminders [] = []"
| "status_reporter lt reminders (s # dbs) =
     (case status_tick lt reminders s of (line, n) \<Rightarrow> line # status_reporter lt n dbs)"

text \<open>
  The counts take \<open>*\<close> for a namespace like any other. As long as no namespace has that name, the server reports
  no workers, schedules or runs, whatever there is.
\<close>

definition no_star :: "db \<Rightarrow> bool" where
  "no_star s = (list_all (\<lambda>k. kr_namespace k \<noteq> ''*'') (workers s) \<and> list_all (\<lambda>r. wr_namespace r \<noteq> ''*'') (runs s))"

lemma star_counts:
  assumes "no_star s"
  shows "count_or_zero (wk_count ''*'' queue status) s = 0" and "count_or_zero (wf_count ''*'' st) s = 0"
  using assms
  by (auto simp: no_star_def count_or_zero_def wk_count_def wf_count_def sql_count_def filter_empty_conv list_all_iff
      split: option.split)

text \<open>The figures that the server logs about itself are blind: as long as no namespace is called "*", the
  statistics of the start are zero and the status reporter says that it awaits workers, on its first tick and on
  every fourth after it, and logs nothing in between, however many workers, schedules and runs there are.\<close>

theorem status_reporter_is_blind:
  assumes "list_all no_star dbs" and "length dbs < 2 ^ 32 - 1"
  shows "status_reporter lt 0 dbs = map (\<lambda>k. if k mod 4 = 0 then Some AwaitingWorkers else None) [0..<length dbs]
     \<and> list_all (\<lambda>s. startup_stats s = (0, 0, 0, 0)) dbs"
proof -
  have "status_reporter lt (of_nat n) dbs
      = map (\<lambda>k. if k mod 4 = 0 then Some AwaitingWorkers else None) [n..<n + length dbs]"
    if "n + length dbs < 2 ^ 32 - 1" for n
    using assms(1) that
  proof (induction dbs arbitrary: n)
    case (Cons s dbs)
    have "(of_nat n + 1 :: 32 word) = of_nat (Suc n)" by simp
    moreover have "(of_nat (Suc n) :: 32 word) mod 4 = 1 \<longleftrightarrow> n mod 4 = 0"
    proof -
      have "unat (of_nat (Suc n) :: 32 word) = Suc n" using Cons.prems(2) by (simp only: unat_of_nat) simp
      then have "unat ((of_nat (Suc n) :: 32 word) mod 4) = Suc n mod 4" by (simp add: unat_mod_distrib)
      moreover have "Suc n mod 4 = 1 \<longleftrightarrow> n mod 4 = 0" by presburger
      ultimately show ?thesis by (metis unat_1 word_unat_eq_iff)
    qed
    ultimately have "status_tick lt (of_nat n) s
        = (if n mod 4 = 0 then Some AwaitingWorkers else None, of_nat (Suc n))"
      using star_counts [of s] Cons.prems(1) by (simp add: status_tick_def Let_def add.commute)
    then show ?case
      using Cons.IH [of "Suc n"] Cons.prems by (simp add: upt_conv_Cons del: upt_Suc)
  qed simp
  from this [of 0] show ?thesis
    using assms star_counts by (auto simp: startup_stats_def list_all_iff)
qed

lemma status_reporter_is_blind_witness:
  "status_reporter (\<lambda>_ _. False) 0 (replicate 5 demo_workers_db)
     = [Some AwaitingWorkers, None, None, None, Some AwaitingWorkers]
   \<and> startup_stats demo_workers_db = (0, 0, 0, 0) \<and> list_ex (\<lambda>k. kr_status k = show_worker_status WkOnline) (workers demo_workers_db)"
proof -
  have dbs: "list_all no_star (replicate 5 demo_workers_db)" "length (replicate 5 demo_workers_db) < 2 ^ 32 - 1"
    by (code_simp, simp)
  have "list_ex (\<lambda>k. kr_status k = show_worker_status WkOnline) (workers demo_workers_db)" by code_simp
  moreover have "[0..<5] = [0, 1, 2, 3, 4 :: nat]" by code_simp
  ultimately show ?thesis using status_reporter_is_blind [OF dbs, of "\<lambda>_ _. False"] by (simp add: list_all_iff)
qed

subsection \<open>Static files\<close>

text \<open>
  \<open>assets\<close> is what is embedded, \<open>mime\<close> the guess of the crate \<open>mime_guess\<close>. The answer is the status, the content
  type and the body.
\<close>

definition serve_asset :: "(string \<Rightarrow> string) \<Rightarrow> string \<Rightarrow> bytes \<Rightarrow> nat \<times> string option \<times> bytes" where
  "serve_asset mime path content = (200, Some (mime path), content)"

definition static_handler :: "(string \<Rightarrow> bytes option) \<Rightarrow> (string \<Rightarrow> string) \<Rightarrow> string \<Rightarrow> nat \<times> string option \<times> bytes" where
  "static_handler assets mime uri_path =
     (let path = dropWhile (\<lambda>c. c = CHR ''/'') uri_path in
      case assets path of
        Some content \<Rightarrow> serve_asset mime path content
      | None \<Rightarrow> (case assets ''index.html'' of
            Some content \<Rightarrow> serve_asset mime ''index.html'' content
          | None \<Rightarrow> (404, None, bytes_of_string ''404 Not Found'')))"

text \<open>With an index, every path is answered, so that the routes of the browser application can be reloaded.\<close>

lemma static_handler_spa:
  assumes "assets ''index.html'' = Some index"
  shows "fst (static_handler assets mime uri) = 200
    \<and> (assets (dropWhile (\<lambda>c. c = CHR ''/'') uri) = None
        \<longrightarrow> static_handler assets mime uri = static_handler assets mime ''/index.html'')"
  using assms by (auto simp: static_handler_def serve_asset_def Let_def split: option.split)

subsection \<open>Trace headers\<close>

text \<open>
  The metadata of a call, as the list of its entries; a binary entry has a key that ends in \<open>-bin\<close>. The crate
  \<open>tonic\<close> is a parameter: \<open>parse_key\<close> is \<open>MetadataKey::from_bytes\<close>, which also brings keys into their one
  spelling, \<open>parse_value\<close> tells the texts that \<open>MetadataValue::try_from\<close> takes, \<open>visible\<close> those that \<open>to_str\<close> reads.
\<close>

datatype metadata_entry = AsciiEntry string string | BinaryEntry string bytes

fun entry_key :: "metadata_entry \<Rightarrow> string" where
  "entry_key (AsciiEntry k v) = k"
| "entry_key (BinaryEntry k v) = k"

definition extractor_get ::
  "(string \<Rightarrow> string option) \<Rightarrow> (string \<Rightarrow> bool) \<Rightarrow> metadata_entry list \<Rightarrow> string \<Rightarrow> string option" where
  "extractor_get parse_key visible md key =
     Option.bind (parse_key key) (\<lambda>k. case List.find (\<lambda>e. entry_key e = k) md of
       Some (AsciiEntry _ v) \<Rightarrow> if visible v then Some v else None
     | _ \<Rightarrow> None)"

definition extractor_keys :: "metadata_entry list \<Rightarrow> string list" where
  "extractor_keys md = remdups (List.map_filter (\<lambda>e. case e of AsciiEntry k _ \<Rightarrow> Some k | BinaryEntry _ _ \<Rightarrow> None) md)"

definition injector_set ::
  "(string \<Rightarrow> string option) \<Rightarrow> (string \<Rightarrow> bool) \<Rightarrow> string \<Rightarrow> string \<Rightarrow> metadata_entry list \<Rightarrow> metadata_entry list" where
  "injector_set parse_key parse_value key v md = (case parse_key key of
       None \<Rightarrow> md
     | Some k \<Rightarrow> if parse_value v then AsciiEntry k v # filter (\<lambda>e. entry_key e \<noteq> k) md else md)"

text \<open>What is injected is extracted, and no other header changes.\<close>

lemma find_filter_other: "(\<And>e. P e \<Longrightarrow> Q e) \<Longrightarrow> List.find P (filter Q xs) = List.find P xs"
  by (induction xs) auto

lemma trace_header_round_trip:
  assumes "parse_key key = Some k" and "parse_value v" and "visible v"
  shows "extractor_get parse_key visible (injector_set parse_key parse_value key v md) key = Some v
    \<and> (\<forall>other. parse_key other \<noteq> Some k \<longrightarrow>
        extractor_get parse_key visible (injector_set parse_key parse_value key v md) other
        = extractor_get parse_key visible md other)"
proof -
  have "List.find (\<lambda>e. entry_key e = k') (filter (\<lambda>e. entry_key e \<noteq> k) md) = List.find (\<lambda>e. entry_key e = k') md"
    if "k' \<noteq> k" for k'
    using that by (intro find_filter_other) auto
  then show ?thesis using assms
    by (auto simp: extractor_get_def injector_set_def split: Option.bind_split)
qed

end
