(* ===== verification/Configuration.thy ===== *)
theory Configuration
  imports ServerMain
begin

text \<open>
  The rest of \<open>crates/kagzi-server/src/config.rs\<close>: how \<open>Settings::new\<close> reads the settings from the file
  \<open>config/default\<close>, the environment and \<open>KAGZI_DB_URL\<close>. The crate \<open>config\<close> is a parameter: what it reads, how it
  merges its sources, and how it reads a single value. The derived deserialisers of the structs are written out.
\<close>

subsection \<open>Values and their decoders\<close>

text \<open>
  A value of the crate \<open>config\<close>: a table, or a scalar. A list, from which the derived code would also read a struct,
  field by field, is left out: the environment has none.
\<close>

datatype 'v config_value = Leaf 'v | Table "(string \<times> 'v config_value) list"

datatype config_error = MissingField string | InvalidType string | BadSource string

text \<open>What the crate makes of a value when the field of a struct asks for one of these types.\<close>

record 'v config_decoders =
  as_string :: "'v config_value \<Rightarrow> config_error + string"
  as_bool :: "'v config_value \<Rightarrow> config_error + bool"
  as_u16 :: "'v config_value \<Rightarrow> config_error + 16 word"
  as_u32 :: "'v config_value \<Rightarrow> config_error + 32 word"
  as_u64 :: "'v config_value \<Rightarrow> config_error + nat"
  as_usize :: "'v config_value \<Rightarrow> config_error + nat"
  as_i32 :: "'v config_value \<Rightarrow> config_error + int"
  as_i64 :: "'v config_value \<Rightarrow> config_error + int"

subsection \<open>\<open>derive(Deserialize)\<close>\<close>

text \<open>
  The derived code first decodes every field that the table has, then complains of the first one that is missing.
  Fields that the struct does not know are ignored.
\<close>

type_synonym 'v config_table = "(string \<times> 'v config_value) list"

definition present ::
  "('v config_value \<Rightarrow> config_error + 'a) \<Rightarrow> 'v config_table \<Rightarrow> string \<Rightarrow> config_error + 'a option" where
  "present decode t k = (case map_of t k of
       None \<Rightarrow> Inr None
     | Some v \<Rightarrow> res_bind (decode v) (\<lambda>x. Inr (Some x)))"

definition required :: "string \<Rightarrow> 'a option \<Rightarrow> config_error + 'a" where
  "required k x = (case x of None \<Rightarrow> Inl (MissingField k) | Some a \<Rightarrow> Inr a)"

text \<open>A struct is read from a table only.\<close>

fun as_table :: "'v config_value \<Rightarrow> config_error + 'v config_table" where
  "as_table (Table t) = Inr t"
| "as_table (Leaf v) = Inl (InvalidType ''struct'')"

definition read_server_settings :: "'v config_decoders \<Rightarrow> 'v config_value \<Rightarrow> config_error + server_settings" where
  "read_server_settings d v =
     res_bind (as_table v) (\<lambda>t.
     res_bind (present (as_string d) t ''host'') (\<lambda>host.
     res_bind (present (as_u16 d) t ''port'') (\<lambda>port.
     res_bind (present (as_u32 d) t ''db_max_connections'') (\<lambda>connections.
     res_bind (required ''host'' host) (\<lambda>host.
     res_bind (required ''port'' port) (\<lambda>port.
     res_bind (required ''db_max_connections'' connections) (\<lambda>connections.
     Inr \<lparr>sr_host = host, sr_port = port, sr_db_max_connections = connections\<rparr>)))))))"

definition read_coordinator_settings ::
  "'v config_decoders \<Rightarrow> 'v config_value \<Rightarrow> config_error + coordinator_settings" where
  "read_coordinator_settings d v =
     res_bind (as_table v) (\<lambda>t.
     res_bind (present (as_u64 d) t ''interval_secs'') (\<lambda>interval.
     res_bind (present (as_i32 d) t ''batch_size'') (\<lambda>batch.
     res_bind (present (as_i64 d) t ''worker_stale_threshold_secs'') (\<lambda>stale.
     res_bind (present (as_i32 d) t ''default_max_catchup'') (\<lambda>catchup.
     res_bind (present (as_i32 d) t ''max_backfill_per_second'') (\<lambda>backfill.
     res_bind (required ''interval_secs'' interval) (\<lambda>interval.
     res_bind (required ''batch_size'' batch) (\<lambda>batch.
     res_bind (required ''worker_stale_threshold_secs'' stale) (\<lambda>stale.
     res_bind (required ''default_max_catchup'' catchup) (\<lambda>catchup.
     res_bind (required ''max_backfill_per_second'' backfill) (\<lambda>backfill.
     Inr \<lparr>interval_secs = interval, batch_size = batch, worker_stale_threshold_secs = stale,
       default_max_catchup = catchup, max_backfill_per_second = backfill\<rparr>)))))))))))"

definition read_worker_settings :: "'v config_decoders \<Rightarrow> 'v config_value \<Rightarrow> config_error + worker_settings" where
  "read_worker_settings d v =
     res_bind (as_table v) (\<lambda>t.
     res_bind (present (as_u64 d) t ''poll_timeout_secs'') (\<lambda>poll.
     res_bind (present (as_u32 d) t ''heartbeat_interval_secs'') (\<lambda>heartbeat.
     res_bind (present (as_i64 d) t ''visibility_timeout_secs'') (\<lambda>visibility.
     res_bind (present (as_i64 d) t ''heartbeat_extension_secs'') (\<lambda>extension.
     res_bind (required ''poll_timeout_secs'' poll) (\<lambda>poll.
     res_bind (required ''heartbeat_interval_secs'' heartbeat) (\<lambda>heartbeat.
     res_bind (required ''visibility_timeout_secs'' visibility) (\<lambda>visibility.
     res_bind (required ''heartbeat_extension_secs'' extension) (\<lambda>extension.
     Inr \<lparr>poll_timeout_secs = poll, heartbeat_interval_secs = uint heartbeat, visibility_timeout_secs = visibility,
       heartbeat_extension_secs = extension\<rparr>)))))))))"

definition read_payload_settings :: "'v config_decoders \<Rightarrow> 'v config_value \<Rightarrow> config_error + payload_settings" where
  "read_payload_settings d v =
     res_bind (as_table v) (\<lambda>t.
     res_bind (present (as_usize d) t ''warn_threshold_bytes'') (\<lambda>warn.
     res_bind (present (as_usize d) t ''max_size_bytes'') (\<lambda>size.
     res_bind (required ''warn_threshold_bytes'' warn) (\<lambda>warn.
     res_bind (required ''max_size_bytes'' size) (\<lambda>size.
     Inr \<lparr>warn_threshold_bytes = warn, max_size_bytes = size\<rparr>)))))"

definition read_queue_settings :: "'v config_decoders \<Rightarrow> 'v config_value \<Rightarrow> config_error + queue_settings" where
  "read_queue_settings d v =
     res_bind (as_table v) (\<lambda>t.
     res_bind (present (as_usize d) t ''channel_capacity'') (\<lambda>capacity.
     res_bind (present (as_u64 d) t ''cleanup_interval_secs'') (\<lambda>cleanup.
     res_bind (present (as_u64 d) t ''poll_jitter_ms'') (\<lambda>jitter.
     res_bind (present (as_u64 d) t ''max_reconnect_secs'') (\<lambda>reconnect.
     res_bind (required ''channel_capacity'' capacity) (\<lambda>capacity.
     res_bind (required ''cleanup_interval_secs'' cleanup) (\<lambda>cleanup.
     res_bind (required ''poll_jitter_ms'' jitter) (\<lambda>jitter.
     res_bind (required ''max_reconnect_secs'' reconnect) (\<lambda>reconnect.
     Inr \<lparr>channel_capacity = capacity, cleanup_interval_secs = cleanup, poll_jitter_ms = jitter,
       max_reconnect_secs = reconnect\<rparr>)))))))))"

definition read_telemetry_settings ::
  "'v config_decoders \<Rightarrow> 'v config_value \<Rightarrow> config_error + telemetry_settings" where
  "read_telemetry_settings d v =
     res_bind (as_table v) (\<lambda>t.
     res_bind (present (as_bool d) t ''enabled'') (\<lambda>enabled.
     res_bind (present (as_string d) t ''service_name'') (\<lambda>name.
     res_bind (present (as_string d) t ''log_level'') (\<lambda>level.
     res_bind (present (as_string d) t ''log_format'') (\<lambda>format.
     res_bind (required ''enabled'' enabled) (\<lambda>enabled.
     res_bind (required ''service_name'' name) (\<lambda>name.
     res_bind (required ''log_level'' level) (\<lambda>level.
     res_bind (required ''log_format'' format) (\<lambda>format.
     Inr \<lparr>tl_enabled = enabled, tl_service_name = name, tl_log_level = level, tl_log_format = format\<rparr>)))))))))"

text \<open>\<open>impl Default for PayloadSettings\<close>, as the struct itself.\<close>

definition default_payload :: payload_settings where
  "default_payload = \<lparr>warn_threshold_bytes = 1024 * 1024, max_size_bytes = 2 * 1024 * 1024\<rparr>"

text \<open>\<open>#[serde(default)]\<close> on a group stands in for a group that is missing as a whole.\<close>

definition read_settings :: "'v config_decoders \<Rightarrow> 'v config_value \<Rightarrow> config_error + settings" where
  "read_settings d v =
     res_bind (as_table v) (\<lambda>t.
     res_bind (present (as_string d) t ''database_url'') (\<lambda>url.
     res_bind (present (read_server_settings d) t ''server'') (\<lambda>server.
     res_bind (present (read_coordinator_settings d) t ''coordinator'') (\<lambda>coordinator.
     res_bind (present (read_worker_settings d) t ''worker'') (\<lambda>worker.
     res_bind (present (read_payload_settings d) t ''payload'') (\<lambda>payload.
     res_bind (present (read_queue_settings d) t ''queue'') (\<lambda>queue.
     res_bind (present (read_telemetry_settings d) t ''telemetry'') (\<lambda>telemetry.
     res_bind (required ''database_url'' url) (\<lambda>url.
     Inr \<lparr>cf_database_url = url,
       cf_server = case_option default_server_settings id server,
       cf_coordinator = case_option default_coordinator_settings id coordinator,
       cf_worker = case_option default_worker_settings id worker,
       cf_payload = case_option default_payload id payload,
       cf_queue = case_option default_queue_settings id queue,
       cf_telemetry = case_option default_telemetry_settings id telemetry\<rparr>)))))))))"


text \<open>The defaults of the payload settings are the limits that the helpers of the server are tried with.\<close>

lemma default_payload_limits:
  "cf_payload c = default_payload \<Longrightarrow> store_config_of c = default_payload_settings"
  by (simp add: store_config_of_def default_payload_def default_payload_settings_def)

subsection \<open>\<open>Settings::new\<close>\<close>

text \<open>
  The sources in the order of the builder, a file that may be absent and the environment; \<open>env_var\<close> is
  \<open>std::env::var\<close>. Of the crate, \<open>set_override\<close> tells whether a key can be overridden, and \<open>build\<close> merges what the
  sources hold with the overrides.
\<close>

datatype config_source = ConfigFile (cs_name: string) (cs_required: bool) | ConfigEnvironment (cs_prefix: string) (cs_separator: string)

definition settings_sources :: "config_source list" where
  "settings_sources = [ConfigFile ''config/default'' False, ConfigEnvironment ''KAGZI'' ''_'']"

definition settings_new ::
  "(string \<Rightarrow> string option) \<Rightarrow> (string \<Rightarrow> config_error + unit)
    \<Rightarrow> (config_source list \<Rightarrow> (string \<times> string) list \<Rightarrow> config_error + 'v config_value) \<Rightarrow> 'v config_decoders
    \<Rightarrow> config_error + settings" where
  "settings_new env_var set_override build d =
     res_bind (case env_var ''KAGZI_DB_URL'' of
         Some url \<Rightarrow> res_bind (set_override ''database_url'') (\<lambda>_. Inr [(''database_url'', url)])
       | None \<Rightarrow> Inr []) (\<lambda>overrides.
     res_bind (build settings_sources overrides) (read_settings d))"

subsection \<open>What the environment can set\<close>

text \<open>
  No name in the tables of a value holds the character \<open>c\<close>: what the crate documents of a source whose names are
  split at \<open>c\<close>, \<open>KAGZI_SERVER_DB_MAX_CONNECTIONS\<close> being \<open>server.db.max.connections\<close>.
\<close>

fun keys_without :: "char \<Rightarrow> 'v config_value \<Rightarrow> bool" where
  "keys_without c (Leaf v) = True"
| "keys_without c (Table t) = list_all (\<lambda>(k, v). c \<notin> set k \<and> keys_without c v) t"

text \<open>
  The server is started with the environment alone: there is no file, \<open>e\<close> is what the environment amounts to, and an
  override replaces one value of it by a text.
\<close>

definition reads_environment ::
  "(string \<Rightarrow> 'v) \<Rightarrow> (config_source list \<Rightarrow> (string \<times> string) list \<Rightarrow> config_error + 'v config_value)
    \<Rightarrow> 'v config_table \<Rightarrow> bool" where
  "reads_environment mk build e \<longleftrightarrow> keys_without (CHR ''_'') (Table e)
     \<and> (\<exists>t. build settings_sources [] = Inr (Table t) \<and> map_of t = map_of e)
     \<and> (\<forall>url. \<exists>t. build settings_sources [(''database_url'', url)] = Inr (Table t)
          \<and> map_of t = (map_of e)(''database_url'' \<mapsto> Leaf (mk url)))"

definition setting_groups :: "string list" where
  "setting_groups = [''server'', ''coordinator'', ''worker'', ''payload'', ''queue'', ''telemetry'']"

definition settings_at :: "string \<Rightarrow> settings" where
  "settings_at url = \<lparr>cf_database_url = url, cf_server = default_server_settings,
     cf_coordinator = default_coordinator_settings, cf_worker = default_worker_settings,
     cf_payload = default_payload, cf_queue = default_queue_settings, cf_telemetry = default_telemetry_settings\<rparr>"

lemma isl_bind: "(\<And>a. r = Inr a \<Longrightarrow> isl (f a)) \<Longrightarrow> isl (res_bind r f)"
  by (cases r) auto

lemma keys_without_lookup:
  "keys_without c (Table t) \<Longrightarrow> c \<in> set k \<Longrightarrow> map_of t k = None"
  by (induction t) auto

lemma keys_without_entry:
  "keys_without c (Table t) \<Longrightarrow> map_of t k = Some v \<Longrightarrow> keys_without c v"
  by (induction t) (auto split: if_splits)

lemma present_absent [simp]: "map_of t k = None \<Longrightarrow> present decode t k = Inr None"
  by (simp add: present_def)

lemma present_fails: "map_of t k = Some v \<Longrightarrow> isl (decode v) \<Longrightarrow> isl (present decode t k)"
  by (cases "decode v") (auto simp: present_def)

lemma required_simps [simp]: "required k None = Inl (MissingField k)" "required k (Some a) = Inr a"
  by (simp_all add: required_def)

text \<open>Every group has a field of several words, so that no group can be read from such a value.\<close>

lemma groups_unreadable:
  assumes "keys_without (CHR ''_'') v"
  shows "isl (read_server_settings d v)" and "isl (read_coordinator_settings d v)"
    and "isl (read_worker_settings d v)" and "isl (read_payload_settings d v)"
    and "isl (read_queue_settings d v)" and "isl (read_telemetry_settings d v)"
  using assms
  by (cases v; auto simp: read_server_settings_def read_coordinator_settings_def read_worker_settings_def
      read_payload_settings_def read_queue_settings_def read_telemetry_settings_def keys_without_lookup
      simp del: keys_without.simps intro!: isl_bind)+

lemma read_settings_group_fails:
  assumes "keys_without (CHR ''_'') v" and "map_of t k = Some v" and "k \<in> set setting_groups"
  shows "isl (read_settings d (Table t))"
  using assms groups_unreadable [OF assms(1), of d]
  by (auto simp: read_settings_def setting_groups_def intro!: isl_bind dest: present_fails)

text \<open>C28: Without a configuration file, the environment can set the database and nothing else: as soon as one
  variable names a group of the settings, as KAGZI_SERVER_PORT does, and whatever it sets there, the settings cannot
  be read and the server does not start; otherwise every setting has its default.\<close>

theorem environment_sets_database_only:
  assumes "reads_environment mk build e" and "set_override ''database_url'' = Inr ()"
    and "\<And>url. as_string d (Leaf (mk url)) = Inr url"
  shows "if \<exists>k \<in> set setting_groups. map_of e k \<noteq> None
    then isl (settings_new env_var set_override build d)
    else settings_new env_var set_override build d
      = (case env_var ''KAGZI_DB_URL'' of
           None \<Rightarrow> Inl (MissingField ''database_url'')
         | Some url \<Rightarrow> Inr (settings_at url))"
proof -
  define overrides where
    "overrides = (case env_var ''KAGZI_DB_URL'' of None \<Rightarrow> [] | Some url \<Rightarrow> [(''database_url'', url)])"
  define found where "found = (case env_var ''KAGZI_DB_URL'' of None \<Rightarrow> map_of e
    | Some url \<Rightarrow> (map_of e)(''database_url'' \<mapsto> Leaf (mk url)))"
  obtain t where t: "build settings_sources overrides = Inr (Table t)" "map_of t = found"
    using assms(1)
    by (cases "env_var ''KAGZI_DB_URL''") (force simp: reads_environment_def overrides_def found_def)+
  have new: "settings_new env_var set_override build d = read_settings d (Table t)"
    using assms(2) t(1) by (cases "env_var ''KAGZI_DB_URL''") (simp_all add: settings_new_def overrides_def)
  have names: "keys_without (CHR ''_'') (Table e)" using assms(1) by (simp add: reads_environment_def)
  have groups: "map_of t k = map_of e k" if "k \<in> set setting_groups" for k
    using that t(2) by (auto simp: found_def setting_groups_def split: option.split)
  show ?thesis
  proof (cases "\<exists>k \<in> set setting_groups. map_of e k \<noteq> None")
    case True
    then obtain k v where k: "k \<in> set setting_groups" "map_of e k = Some v" by blast
    then have "isl (read_settings d (Table t))"
      using read_settings_group_fails [OF keys_without_entry [OF names k(2)]] groups [OF k(1)] by simp
    then show ?thesis using True new by simp
  next
    case False
    then have "map_of t k = None" if "k \<in> set setting_groups" for k using groups that by simp
    moreover have "map_of t ''database_url'' = map_option (\<lambda>url. Leaf (mk url)) (env_var ''KAGZI_DB_URL'')"
      using t(2) keys_without_lookup [OF names, of "''database_url''"] by (simp add: found_def split: option.split)
    ultimately have "read_settings d (Table t) = (case env_var ''KAGZI_DB_URL'' of
        None \<Rightarrow> Inl (MissingField ''database_url'') | Some url \<Rightarrow> Inr (settings_at url))"
      by (simp add: read_settings_def setting_groups_def settings_at_def present_def assms(3) split: option.split)
    then show ?thesis using False new by simp
  qed
qed

text \<open>
  The variables that the README sets: with the port of the server among them, the server does not start; without
  it, it does. The values are texts, and the crate is one that merges the way it documents.
\<close>

definition no_text :: "string config_value \<Rightarrow> config_error + 'a" where
  "no_text v = Inl (InvalidType ''text'')"

definition demo_decoders :: "string config_decoders" where
  "demo_decoders = (\<lparr>as_string = (\<lambda>v. case v of Leaf x \<Rightarrow> Inr x | Table t \<Rightarrow> Inl (InvalidType ''text'')), as_bool = no_text, as_u16 = no_text,
       as_u32 = no_text, as_u64 = no_text, as_usize = no_text, as_i32 = no_text, as_i64 = no_text\<rparr>)"

definition demo_build ::
  "string config_table \<Rightarrow> config_source list \<Rightarrow> (string \<times> string) list \<Rightarrow> config_error + string config_value" where
  "demo_build e sources overrides = Inr (Table (map (\<lambda>(k, v). (k, Leaf v)) overrides @ e))"

definition demo_environment :: "string config_table" where
  "demo_environment = [(''db'', Table [(''url'', Leaf ''postgres://kagzi'')])]"

lemma environment_sets_database_only_witness:
  "settings_new [''KAGZI_DB_URL'' \<mapsto> ''postgres://kagzi''] (\<lambda>_. Inr ()) (demo_build demo_environment) demo_decoders
     = Inr (settings_at ''postgres://kagzi'')
   \<and> isl (settings_new [''KAGZI_DB_URL'' \<mapsto> ''postgres://kagzi''] (\<lambda>_. Inr ())
       (demo_build ((''server'', Table [(''port'', Leaf ''50051'')]) # demo_environment)) demo_decoders)"
proof -
  have env: "reads_environment id (demo_build e) e" if "keys_without (CHR ''_'') (Table e)" for e
    using that by (simp add: reads_environment_def demo_build_def fun_eq_iff)
  have decode: "as_string demo_decoders (Leaf (id url)) = Inr url" for url by (simp add: demo_decoders_def)
  show ?thesis
    using environment_sets_database_only [where mk = id and e = demo_environment, OF env _ decode,
        of "\<lambda>_. Inr ()" "[''KAGZI_DB_URL'' \<mapsto> ''postgres://kagzi'']"]
      environment_sets_database_only [where mk = id
        and e = "(''server'', Table [(''port'', Leaf ''50051'')]) # demo_environment", OF env _ decode,
        of "\<lambda>_. Inr ()" "[''KAGZI_DB_URL'' \<mapsto> ''postgres://kagzi'']"]
    by (simp add: demo_environment_def setting_groups_def)
qed

end
