(* ===== verification/Telemetry.thy ===== *)
theory Telemetry
  imports ServerMain
begin

text \<open>
  \<open>crates/kagzi-server/src/telemetry\<close> and \<open>sdk/kagzi-rs/src/propagation.rs\<close>: what \<open>init_telemetry\<close> sets up and
  what dropping its guard shuts down; how the context of a trace travels from the caller's process into the
  server. Filters, providers and contexts are the types of the crates \<open>tracing\<close> and \<open>opentelemetry\<close>.
\<close>

subsection \<open>Setting up\<close>

text \<open>The subscriber of the process, and the global state of the two crates.\<close>

record 'f subscriber =
  sub_filter :: 'f
  sub_otel :: bool
  sub_json :: bool

datatype propagator_kind = NoPropagator | TraceContext

record ('f, 'p) telemetry_globals =
  tg_propagator :: propagator_kind
  tg_tracer :: "'p option"
  tg_meter :: "'p option"
  tg_subscriber :: "'f subscriber option"

record 'p telemetry_guard =
  tracer_provider :: "'p option"
  meter_provider :: "'p option"

text \<open>\<open>registry().with(\<dots>).init()\<close> panics in a process that has a subscriber.\<close>

datatype telemetry_panic = SubscriberAlreadySet

definition init_subscriber ::
  "'f subscriber \<Rightarrow> ('f, 'p) telemetry_globals \<Rightarrow> (telemetry_panic + unit) \<times> ('f, 'p) telemetry_globals" where
  "init_subscriber sub g = (case tg_subscriber g of
       Some _ \<Rightarrow> (Inl SubscriberAlreadySet, g)
     | None \<Rightarrow> (Inr (), g\<lparr>tg_subscriber := Some sub\<rparr>))"

text \<open>
  \<open>env_filter\<close> is \<open>EnvFilter::try_from_default_env()\<close>, \<open>None\<close> when \<open>RUST_LOG\<close> is not set or not a filter, \<open>new_filter\<close>
  is \<open>EnvFilter::new\<close>, and \<open>providers\<close> the two providers that \<open>init_otel_providers\<close> builds for a service.
\<close>

definition init_telemetry ::
  "'f option \<Rightarrow> (string \<Rightarrow> 'f) \<Rightarrow> (string \<Rightarrow> 'p \<times> 'p) \<Rightarrow> telemetry_settings
    \<Rightarrow> ('f, 'p) telemetry_globals \<Rightarrow> (telemetry_panic + 'p telemetry_guard) \<times> ('f, 'p) telemetry_globals" where
  "init_telemetry env_filter new_filter providers c =
     (let filter_of = (case env_filter of Some f \<Rightarrow> f | None \<Rightarrow> new_filter (tl_log_level c));
          json = (tl_log_format c = ''json'')
      in if tl_enabled c
         then bind_op (get_op (\<lambda>_. providers (tl_service_name c))) (\<lambda>(tracer, meter).
              bind_op (\<lambda>g. (Inr (), g\<lparr>tg_propagator := TraceContext, tg_tracer := Some tracer, tg_meter := Some meter\<rparr>)) (\<lambda>_.
              bind_op (init_subscriber \<lparr>sub_filter = filter_of, sub_otel = True, sub_json = json\<rparr>) (\<lambda>_.
              ret_op \<lparr>tracer_provider = Some tracer, meter_provider = Some meter\<rparr>)))
         else bind_op (init_subscriber \<lparr>sub_filter = filter_of, sub_otel = False, sub_json = json\<rparr>) (\<lambda>_.
              ret_op \<lparr>tracer_provider = None, meter_provider = None\<rparr>))"

text \<open>
  \<open>impl Drop for TelemetryGuard\<close>: the providers shut down, in this order, with the errors that are printed. The
  crate's \<open>shutdown\<close> is a parameter.
\<close>

definition drop_guard :: "('p \<Rightarrow> 'e option) \<Rightarrow> 'p telemetry_guard \<Rightarrow> ('p \<times> 'e option) list \<times> 'p telemetry_guard" where
  "drop_guard shutdown g =
     (let m = (case meter_provider g of Some p \<Rightarrow> [(p, shutdown p)] | None \<Rightarrow> []);
          g' = g\<lparr>meter_provider := None\<rparr>;
          t = (case tracer_provider g' of Some p \<Rightarrow> [(p, shutdown p)] | None \<Rightarrow> [])
      in (m @ t, g'\<lparr>tracer_provider := None\<rparr>))"

text \<open>
  Every provider that the start installs is shut down when the process ends, the meter first, whatever the
  shutdown of the meter says; a second drop has nothing left to do.
\<close>

lemma guard_shuts_down_what_was_set_up:
  assumes "tg_subscriber g = None" and "tg_tracer g = None" and "tg_meter g = None"
    and "init_telemetry env_filter new_filter providers c g = (r, g')"
  obtains guard where "r = Inr guard"
    and "map fst (fst (drop_guard shutdown guard))
      = (case tg_meter g' of None \<Rightarrow> [] | Some p \<Rightarrow> [p]) @ (case tg_tracer g' of None \<Rightarrow> [] | Some p \<Rightarrow> [p])"
    and "fst (drop_guard shutdown (snd (drop_guard shutdown guard))) = []"
  using assms
  by (auto simp: init_telemetry_def init_subscriber_def drop_guard_def bind_op_def get_op_def ret_op_def Let_def
      split: if_splits prod.splits)

subsection \<open>The context of a trace\<close>

text \<open>
  The propagator: the headers that it sets for a context, and the context that it finds with \<open>get\<close> and \<open>keys\<close>, or
  the current one.
\<close>

record 'cx propagator =
  pg_inject :: "'cx \<Rightarrow> (string \<times> string) list"
  pg_extract :: "(string \<Rightarrow> string option) \<Rightarrow> string list \<Rightarrow> 'cx \<Rightarrow> 'cx"

definition extract_context ::
  "(string \<Rightarrow> string option) \<Rightarrow> (string \<Rightarrow> bool) \<Rightarrow> 'cx propagator \<Rightarrow> 'cx \<Rightarrow> metadata_entry list \<Rightarrow> 'cx" where
  "extract_context parse_key visible p current md =
     pg_extract p (extractor_get parse_key visible md) (extractor_keys md) current"

definition inject_context ::
  "(string \<Rightarrow> string option) \<Rightarrow> (string \<Rightarrow> bool) \<Rightarrow> 'cx propagator \<Rightarrow> 'cx \<Rightarrow> metadata_entry list \<Rightarrow> metadata_entry list" where
  "inject_context parse_key parse_value p current md =
     fold (\<lambda>(k, v). injector_set parse_key parse_value k v) (pg_inject p current) md"

text \<open>The headers that a call injects are the ones that the server finds in it, and it finds every other as it was.\<close>

lemma injected_headers:
  assumes "distinct (map (parse_key \<circ> fst) kvs)"
    and "list_all (\<lambda>(k, v). parse_key k \<noteq> None \<and> parse_value v \<and> visible v) kvs"
  shows "list_all (\<lambda>(k, v). extractor_get parse_key visible
      (fold (\<lambda>(k, v). injector_set parse_key parse_value k v) kvs md) k = Some v) kvs
    \<and> (\<forall>other. parse_key other \<notin> parse_key ` fst ` set kvs \<longrightarrow>
        extractor_get parse_key visible (fold (\<lambda>(k, v). injector_set parse_key parse_value k v) kvs md) other
        = extractor_get parse_key visible md other)"
  using assms
proof (induction kvs arbitrary: md)
  case (Cons kv kvs)
  obtain k v where kv: "kv = (k, v)" by fastforce
  obtain name where name: "parse_key k = Some name" using Cons.prems kv by auto
  note set_get = trace_header_round_trip [of parse_key k name parse_value v visible md]
  have "Some name \<notin> parse_key ` fst ` set kvs"
    using Cons.prems(1) kv name by (force simp: image_comp)
  then show ?case
    using Cons.IH [of "injector_set parse_key parse_value k v md"] Cons.prems kv name set_get by auto
qed simp

text \<open>
  The context of the caller reaches the server, when both processes have a propagator that finds a context in its
  own headers and whose headers are such as gRPC carries.
\<close>

lemma trace_context_travels:
  assumes "distinct (map (parse_key \<circ> fst) (pg_inject p cx))"
    and "list_all (\<lambda>(k, v). parse_key k \<noteq> None \<and> parse_value v \<and> visible v) (pg_inject p cx)"
    and "\<And>get keys current. list_all (\<lambda>(k, v). get k = Some v) (pg_inject p cx) \<Longrightarrow> pg_extract p get keys current = cx"
  shows "extract_context parse_key visible p current (inject_context parse_key parse_value p cx md) = cx"
  using injected_headers [OF assms(1,2)] by (auto simp: extract_context_def inject_context_def intro!: assms(3))

text \<open>
  The propagator of a process: none until \<open>init_telemetry\<close> sets one, and that is a propagator which injects nothing
  and finds nothing. With telemetry off, its default, no context reaches the server.
\<close>

definition global_propagator :: "'cx propagator \<Rightarrow> ('f, 'p) telemetry_globals \<Rightarrow> 'cx propagator" where
  "global_propagator trace_context g = (case tg_propagator g of
       TraceContext \<Rightarrow> trace_context
     | NoPropagator \<Rightarrow> \<lparr>pg_inject = \<lambda>_. [], pg_extract = \<lambda>_ _ current. current\<rparr>)"

lemma no_context_without_telemetry:
  assumes "tg_propagator g = NoPropagator" and "\<not> tl_enabled c"
    and "init_telemetry env_filter new_filter providers c g = (r, g')"
  shows "extract_context parse_key visible (global_propagator trace_context g') current md = current"
    and "inject_context parse_key parse_value (global_propagator trace_context g') current md = md"
  using assms
  by (auto simp: init_telemetry_def init_subscriber_def bind_op_def ret_op_def Let_def global_propagator_def
      extract_context_def inject_context_def split: option.splits)

end
