(* ===== verification/ServerProcess.thy ===== *)
theory ServerProcess
  imports Prelude
begin

text \<open>
  The end of \<open>main\<close> in \<open>crates/kagzi-server/src/main.rs\<close>, once everything is started: the \<open>select!\<close> over the server
  and the two signals, and the shutdown. The background tasks are loops that look at the shutdown token
  between two rounds of work. What \<open>tokio\<close> does is as documented: the branches of a \<open>select!\<close> that did not come
  first are dropped, a task that was spawned goes on by itself, and all tasks end with the runtime when \<open>main\<close> returns.
\<close>

subsection \<open>The process\<close>

datatype background_task = CoordinatorTask | QueueListenerTask | StatusReporterTask

text \<open>\<open>ShuttingDown n\<close> has waited for \<open>n\<close> milliseconds; \<open>Exited\<close> has the result of \<open>main\<close>.\<close>

datatype main_phase = Serving | ShuttingDown nat | Exited "string + unit"

record server_process =
  pr_phase :: main_phase
  pr_cancelled :: bool
  pr_running :: "background_task list"
  pr_working :: "background_task list"
  pr_requests :: nat
  pr_cut_off :: nat

definition started_process :: server_process where
  "started_process = \<lparr>pr_phase = Serving, pr_cancelled = False,
     pr_running = [CoordinatorTask, QueueListenerTask, StatusReporterTask], pr_working = [], pr_requests = 0, pr_cut_off = 0\<rparr>"

definition shutdown_timeout_ms :: nat where
  "shutdown_timeout_ms = 10000"

text \<open>Returning from \<open>main\<close> ends the runtime, and with it the tasks and the requests that are being answered.\<close>

definition exits :: "string + unit \<Rightarrow> server_process \<Rightarrow> server_process" where
  "exits r p = p\<lparr>pr_phase := Exited r, pr_running := [], pr_working := [],
     pr_requests := 0, pr_cut_off := pr_cut_off p + pr_requests p\<rparr>"

inductive process_step :: "server_process \<Rightarrow> server_process \<Rightarrow> bool" where
  request_comes: "pr_phase p = Serving \<Longrightarrow> process_step p (p\<lparr>pr_requests := pr_requests p + 1\<rparr>)"
| request_ends: "pr_requests p = Suc n \<Longrightarrow> process_step p (p\<lparr>pr_requests := n\<rparr>)"
| round_begins: "k \<in> set (pr_running p) \<Longrightarrow> k \<notin> set (pr_working p) \<Longrightarrow> \<not> pr_cancelled p
    \<Longrightarrow> process_step p (p\<lparr>pr_working := k # pr_working p\<rparr>)"
| round_ends: "k \<in> set (pr_working p) \<Longrightarrow> process_step p (p\<lparr>pr_working := removeAll k (pr_working p)\<rparr>)"
| task_stops: "k \<in> set (pr_running p) \<Longrightarrow> k \<notin> set (pr_working p) \<Longrightarrow> pr_cancelled p
    \<Longrightarrow> process_step p (p\<lparr>pr_running := removeAll k (pr_running p)\<rparr>)"
| listener_fails: "process_step p (p\<lparr>pr_running := removeAll QueueListenerTask (pr_running p),
    pr_working := removeAll QueueListenerTask (pr_working p)\<rparr>)"
| server_fails: "pr_phase p = Serving \<Longrightarrow> process_step p (exits (Inl e) p)"
| signal: "pr_phase p = Serving \<Longrightarrow> process_step p (p\<lparr>pr_phase := ShuttingDown 0, pr_cancelled := True\<rparr>)"
| waits: "pr_phase p = ShuttingDown n \<Longrightarrow> n < shutdown_timeout_ms \<Longrightarrow> pr_running p \<noteq> []
    \<Longrightarrow> process_step p (p\<lparr>pr_phase := ShuttingDown (n + 1)\<rparr>)"
| stopped_gracefully: "pr_phase p = ShuttingDown n \<Longrightarrow> pr_running p = [] \<Longrightarrow> process_step p (exits (Inr ()) p)"
| timed_out: "pr_phase p = ShuttingDown shutdown_timeout_ms \<Longrightarrow> process_step p (exits (Inr ()) p)"

inductive_cases process_stepE: "process_step p p'"

subsection \<open>What holds of a process\<close>

text \<open>
  The token is cancelled exactly when the shutdown has begun, no wait exceeds the timeout, a process that has exited
  has nothing running, and no request was cut off before.
\<close>

definition process_ok :: "server_process \<Rightarrow> bool" where
  "process_ok p \<longleftrightarrow> (case pr_phase p of
       Serving \<Rightarrow> \<not> pr_cancelled p \<and> pr_cut_off p = 0
     | ShuttingDown n \<Rightarrow> pr_cancelled p \<and> n \<le> shutdown_timeout_ms \<and> pr_cut_off p = 0
     | Exited r \<Rightarrow> pr_running p = [] \<and> pr_working p = [] \<and> pr_requests p = 0)
   \<and> set (pr_working p) \<subseteq> set (pr_running p)"

text \<open>What a step cannot take back: the shutdown goes forward, and an exit is final.\<close>

fun phase_from :: "main_phase \<Rightarrow> main_phase \<Rightarrow> bool" where
  "phase_from Serving q = True"
| "phase_from (ShuttingDown n) Serving = False"
| "phase_from (ShuttingDown n) (ShuttingDown m) = (n \<le> m)"
| "phase_from (ShuttingDown n) (Exited r) = (r = Inr ())"
| "phase_from (Exited r) q = (q = Exited r)"

lemma phase_from_refl: "phase_from a a"
  by (cases a) auto

lemma phase_from_trans: "phase_from a b \<Longrightarrow> phase_from b c \<Longrightarrow> phase_from a c"
  by (cases a; cases b; cases c) auto

interpretation process: governed_steps process_step process_ok "\<lambda>p p'. phase_from (pr_phase p) (pr_phase p')"
proof
  show "process_ok p'" if "process_ok p" "process_step p p'" for p p'
    using that(2,1) by (cases rule: process_stepE) (auto simp: process_ok_def exits_def split: main_phase.splits)
  show "phase_from (pr_phase p) (pr_phase p')" if "process_ok p" "process_step p p'" for p p'
    using that(2,1)
    by (cases rule: process_stepE) (auto simp: process_ok_def exits_def phase_from_refl split: main_phase.splits)
qed (auto intro: phase_from_refl phase_from_trans)

lemma started_ok: "process_ok started_process"
  by (simp add: process_ok_def started_process_def)

text \<open>The background tasks are waited for, at most ten seconds.\<close>

lemma shutdown_is_bounded:
  assumes "process_step\<^sup>*\<^sup>* started_process p" and "pr_phase p = ShuttingDown n"
  shows "n \<le> shutdown_timeout_ms"
  using process.run_inv [OF assms(1) started_ok] assms(2) by (simp add: process_ok_def)

text \<open>The shutdown can always go on: a process that is shutting down has a next step towards its exit.\<close>

lemma shutdown_goes_on:
  assumes "process_ok p" and "pr_phase p = ShuttingDown n"
  shows "\<exists>p'. process_step p p' \<and> (pr_phase p' = ShuttingDown (n + 1) \<or> pr_phase p' = Exited (Inr ()))"
proof (cases "n < shutdown_timeout_ms \<and> pr_running p \<noteq> []")
  case True
  then show ?thesis using waits [OF assms(2)] by (intro exI) auto
next
  case False
  moreover have "n \<le> shutdown_timeout_ms" using assms by (simp add: process_ok_def)
  ultimately have "n = shutdown_timeout_ms \<or> pr_running p = []" by auto
  then have "process_step p (exits (Inr ()) p)"
    using stopped_gracefully [OF assms(2)] timed_out assms(2) by auto
  then show ?thesis by (intro exI) (auto simp: exits_def)
qed

text \<open>
  The requests are not: the server is dropped with the \<open>select!\<close>, so that its graceful shutdown, which would wait
  for them, never gets to run. However many requests are being answered when the signal comes, the process can exit
  without having waited a millisecond for any.
\<close>

theorem requests_are_cut_off:
  "\<exists>p. process_step\<^sup>*\<^sup>* started_process p \<and> pr_phase p = Exited (Inr ()) \<and> pr_cut_off p = n"
proof -
  let ?serving = "\<lambda>n. started_process\<lparr>pr_requests := n\<rparr>"
  have come: "process_step\<^sup>*\<^sup>* started_process (?serving n)" for n
  proof (induction n)
    case 0
    then show ?case by (simp add: started_process_def)
  next
    case (Suc n)
    have "process_step (?serving n) (?serving (Suc n))"
      using request_comes [of "?serving n"] by (simp add: started_process_def)
    then show ?case using Suc.IH by simp
  qed
  let ?down = "\<lambda>ks. started_process\<lparr>pr_requests := n, pr_phase := ShuttingDown 0, pr_cancelled := True, pr_running := ks\<rparr>"
  have "process_step (?serving n) (?down [CoordinatorTask, QueueListenerTask, StatusReporterTask])"
    using signal [of "?serving n"] by (simp add: started_process_def)
  moreover have "process_step (?down (k # ks)) (?down ks)" if "k \<notin> set ks" for k ks
    using task_stops [of k "?down (k # ks)"] that by (simp add: started_process_def)
  then have "process_step (?down [CoordinatorTask, QueueListenerTask, StatusReporterTask]) (?down [QueueListenerTask, StatusReporterTask])"
    "process_step (?down [QueueListenerTask, StatusReporterTask]) (?down [StatusReporterTask])"
    "process_step (?down [StatusReporterTask]) (?down [])"
    by simp_all
  moreover have "process_step (?down []) (exits (Inr ()) (?down []))"
    using stopped_gracefully [of "?down []" 0] by (simp add: started_process_def)
  ultimately have "process_step\<^sup>*\<^sup>* started_process (exits (Inr ()) (?down []))"
    using come [of n] by (meson rtranclp.rtrancl_into_rtrancl)
  then show ?thesis by (intro exI) (auto simp: exits_def started_process_def)
qed

end
