(* ===== verification/Retention.thy ===== *)
theory Retention
  imports StoreSteps
begin

text \<open>
  What the database never forgets: namespaces are switched off, not deleted; workers go OFFLINE, and stay in the
  table; a new attempt of a step takes the place of the last one as the latest, and both rows stay. No method of a
  repository removes a row of these three tables.
\<close>

definition retains :: "string set \<Rightarrow> uuid set \<Rightarrow> uuid set \<Rightarrow> db \<Rightarrow> bool" where
  "retains N W A s \<longleftrightarrow> N \<subseteq> set (ns_names s) \<and> W \<subseteq> set (map kr_worker_id (workers s))
     \<and> A \<subseteq> set (map sr_attempt_id (steps s))"

subsection \<open>Statements\<close>

interpretation runs_beside_records: runs_frame "retains N W A"
  by unfold_locales (simp_all add: retains_def)

lemma retains_update_steps [keeps_rules]:
  assumes "\<And>r. sr_attempt_id (f r) = sr_attempt_id r"
  shows "keeps (retains N W A) (update_steps P f)" "keeps (retains N W A) (update_steps_count P f)"
proof -
  show "keeps (retains N W A) (update_steps P f)"
    using map_sql_update [of sr_attempt_id f P] assms
    by (auto simp: keeps_def retains_def update_steps_def put_steps_def simp flip: set_map split: option.splits)
  then show "keeps (retains N W A) (update_steps_count P f)"
    by (auto simp: keeps_def update_steps_count_def bind_op_def split: prod.splits sum.splits)
qed

lemma retains_insert_step [keeps_rules]: "keeps (retains N W A) (insert_step_row r)"
  by (auto simp: keeps_def retains_def insert_step_row_def put_steps_def split: option.splits)

lemma retains_update_workers [keeps_rules]:
  assumes "\<And>r. kr_worker_id (f r) = kr_worker_id r"
  shows "keeps (retains N W A) (update_workers P f)" "keeps (retains N W A) (update_workers_count P f)"
proof -
  show "keeps (retains N W A) (update_workers P f)"
    using map_sql_update [of kr_worker_id f P] assms
    by (auto simp: keeps_def retains_def update_workers_def put_workers_def simp flip: set_map split: option.splits)
  then show "keeps (retains N W A) (update_workers_count P f)"
    by (auto simp: keeps_def update_workers_count_def bind_op_def split: prod.splits sum.splits)
qed

lemma retains_namespaces [keeps_rules]:
  "keeps (retains N W A) (insert_namespace n)"
  "(\<And>r. nr_namespace (f r) = nr_namespace r) \<Longrightarrow> keeps (retains N W A) (update_namespaces ns f)"
  "keeps (retains N W A) (np_set_enabled b now ns)"
proof -
  have *: "map nr_namespace (sql_update P g rs) = map nr_namespace rs" if "\<And>r. nr_namespace (g r) = nr_namespace r" for P g rs
    using that by (rule map_sql_update)
  show "keeps (retains N W A) (insert_namespace n)"
    by (auto simp: keeps_def retains_def insert_namespace_def split: option.splits)
  show "(\<And>r. nr_namespace (f r) = nr_namespace r) \<Longrightarrow> keeps (retains N W A) (update_namespaces ns f)"
    "keeps (retains N W A) (np_set_enabled b now ns)"
    by (simp_all add: keeps_def retains_def update_namespaces_def np_set_enabled_def * del: list.set_map)
qed

subsection \<open>Methods\<close>

lemmas retains_workflow_methods [keeps_rules] = runs_beside_records.run_methods

lemma retains_step_methods [keeps_rules]:
  "keeps (retains N W A) (st_begin cfg now i p)"
  "keeps (retains N W A) (st_complete cfg now i run k out)"
  "keeps (retains N W A) (st_fail bo now i fp)"
  "keeps (retains N W A) (st_complete_pending_sleeps now run)"
  "keeps (retains N W A) (st_record_lifecycle_event cfg now i run kind lout)"
  unfolding st_begin_def st_complete_def st_fail_def fail_permanently_def st_complete_pending_sleeps_def
    st_record_lifecycle_event_def insert_step_result_def clear_latest_def Let_def
  by (intro keeps_rules; simp add: completed_step_def failed_step_def)+

lemma retains_worker_methods [keeps_rules]:
  "keeps (retains N W A) (wk_heartbeat now k)" "keeps (retains N W A) (wk_start_drain k ns)"
  "keeps (retains N W A) (wk_deregister now k ns)"
  unfolding wk_heartbeat_def wk_start_drain_def wk_deregister_def
  by (intro keeps_rules; simp add: set_offline_def)+

lemma retains_watchdog [keeps_rules]: "keeps (retains N W A) (wk_mark_stale_offline now n)"
  unfolding wk_mark_stale_offline_def by (intro keeps_rules) (simp add: set_offline_def)

lemma retains_register [keeps_rules]: "keeps (retains N W A) (wk_register now i p)"
proof (rule keepsI)
  fix s assume s: "retains N W A s"
  have "keeps (retains N W A) (bind_op (update_workers P (refresh_worker now p)) (\<lambda>_. ret_op (k :: uuid)))" for P k
    by (intro keeps_rules) (simp add: refresh_worker_def)
  note this [THEN keepsD, OF s]
  moreover have "retains N W A (snd (bind_op (put_workers (workers s @ [new_worker now i p])) (\<lambda>_. ret_op i) s))"
    using s by (auto simp: retains_def put_workers_def bind_op_def split: option.splits)
  ultimately show "retains N W A (snd (wk_register now i p s))"
    by (simp add: wk_register_def split: option.splits)
qed

lemma retains_namespace_methods [keeps_rules]:
  "keeps (retains N W A) (np_create now i cp)" "keeps (retains N W A) (np_get_or_create now i ns)"
  "keeps (retains N W A) (np_update now ns up)" "keeps (retains N W A) (np_enable now ns)"
  "keeps (retains N W A) (np_disable now ns)"
proof -
  have "keeps (retains N W A) (bind_op (update_namespaces ns (\<lambda>r. r\<lparr>nr_updated_at := now\<rparr>)) (\<lambda>_. ret_op n))"
    "keeps (retains N W A) (bind_op (map_err_op store_error_from (insert_namespace m)) (\<lambda>_. ret_op n))"
    for m and n :: namespace_row
    by (intro keeps_rules; simp)+
  then have "keeps (retains N W A) (upsert_namespace now i ns)"
    by (auto simp: keeps_def upsert_namespace_def split: option.splits)
  then show "keeps (retains N W A) (np_get_or_create now i ns)"
    unfolding np_get_or_create_def by (intro keeps_rules)
  show "keeps (retains N W A) (np_create now i cp)"
    unfolding np_create_def Let_def by (intro keeps_rules)
  show "keeps (retains N W A) (np_update now ns up)"
    unfolding np_update_def by (auto split: option.splits intro!: keeps_rules)
  show "keeps (retains N W A) (np_enable now ns)" "keeps (retains N W A) (np_disable now ns)"
    unfolding np_enable_def np_disable_def by (rule retains_namespaces)+
qed

end
