(* ===== verification/Repositories.thy ===== *)
theory Repositories
  imports Retention
begin

text \<open>
  The traits of \<open>kagzi-store/src/repository\<close>, through which the server reaches the database, as records of operations, and
  their implementation by PostgreSQL: \<open>PgStore\<close> and the repositories it hands out. A method has the parameters of the
  trait; what a call takes from its surroundings besides is in the connection that makes it.
\<close>

subsection \<open>What a call finds\<close>

text \<open>
  The clock of the database, the identifiers that it or the code generates, the rows that other transactions have locked,
  the text of identifiers, the collation of the database, and the delays of the crate \<open>backon\<close>.
\<close>

record connection =
  cn_now :: timestamp
  cn_new_id :: uuid
  cn_locked :: "uuid \<Rightarrow> bool"
  cn_show_uuid :: "uuid \<Rightarrow> string"
  cn_before :: "string \<Rightarrow> string \<Rightarrow> bool"
  cn_backoff :: backoff_iter

subsection \<open>The traits\<close>

record workflow_repository =
  rp_create :: "create_workflow \<Rightarrow> uuid store_op"
  rp_find_by_id :: "uuid \<Rightarrow> string \<Rightarrow> workflow_run option store_op"
  rp_find_active_by_external_id :: "string \<Rightarrow> string \<Rightarrow> uuid option store_op"
  rp_list :: "list_workflows_params \<Rightarrow> (workflow_run, cursor) paginated_result store_op"
  rp_count :: "string \<Rightarrow> string option \<Rightarrow> int store_op"
  rp_check_exists :: "uuid \<Rightarrow> string \<Rightarrow> workflow_exists_result store_op"
  rp_check_status :: "uuid \<Rightarrow> string \<Rightarrow> workflow_exists_result store_op"
  rp_cancel :: "uuid \<Rightarrow> string \<Rightarrow> bool store_op"
  rp_complete :: "uuid \<Rightarrow> bytes \<Rightarrow> unit store_op"
  rp_fail :: "uuid \<Rightarrow> string \<Rightarrow> unit store_op"
  rp_schedule_sleep :: "uuid \<Rightarrow> int \<Rightarrow> unit store_op"
  rp_schedule_retry :: "uuid \<Rightarrow> int \<Rightarrow> unit store_op"
  rp_mark_exhausted :: "uuid \<Rightarrow> string \<Rightarrow> unit store_op"
  rp_mark_exhausted_with_increment :: "uuid \<Rightarrow> string \<Rightarrow> unit store_op"
  rp_get_retry_policy :: "uuid \<Rightarrow> retry_policy option store_op"
  rp_poll_workflow :: "string \<Rightarrow> string \<Rightarrow> string \<Rightarrow> string list \<Rightarrow> int \<Rightarrow> claimed_workflow option store_op"
  rp_create_batch :: "create_workflow list \<Rightarrow> uuid list store_op"
  rp_find_due_schedules :: "string \<Rightarrow> timestamp \<Rightarrow> int \<Rightarrow> workflow_run list store_op"
  rp_create_schedule_instance :: "uuid \<Rightarrow> timestamp \<Rightarrow> uuid option store_op"
  rp_update_next_fire :: "uuid \<Rightarrow> timestamp \<Rightarrow> timestamp option \<Rightarrow> unit store_op"
  rp_update :: "uuid \<Rightarrow> workflow_run \<Rightarrow> unit store_op"
  rp_delete :: "uuid \<Rightarrow> unit store_op"
  rp_get_namespace :: "uuid \<Rightarrow> string option store_op"
  rp_extend_visibility :: "string \<Rightarrow> int \<Rightarrow> nat store_op"

record step_repository =
  sp_find_by_id :: "uuid \<Rightarrow> step_run option store_op"
  sp_list :: "list_steps_params \<Rightarrow> (step_run, cursor) paginated_result store_op"
  sp_begin :: "begin_step_params \<Rightarrow> begin_step_result store_op"
  sp_complete :: "uuid \<Rightarrow> string \<Rightarrow> bytes \<Rightarrow> unit store_op"
  sp_fail :: "fail_step_params \<Rightarrow> fail_step_result store_op"
  sp_complete_pending_sleeps :: "uuid \<Rightarrow> nat store_op"
  sp_record_lifecycle_event :: "uuid \<Rightarrow> step_kind \<Rightarrow> bytes option \<Rightarrow> unit store_op"

record worker_repository =
  kp_register :: "register_worker_params \<Rightarrow> uuid store_op"
  kp_heartbeat :: "uuid \<Rightarrow> bool store_op"
  kp_start_drain :: "uuid \<Rightarrow> string \<Rightarrow> unit store_op"
  kp_deregister :: "uuid \<Rightarrow> string \<Rightarrow> unit store_op"
  kp_find_by_id :: "uuid \<Rightarrow> worker option store_op"
  kp_list :: "list_workers_params \<Rightarrow> (worker, uuid) paginated_result store_op"
  kp_mark_stale_offline :: "int \<Rightarrow> nat store_op"
  kp_count_online :: "string \<Rightarrow> string \<Rightarrow> int store_op"
  kp_count :: "string \<Rightarrow> string option \<Rightarrow> worker_status option \<Rightarrow> int store_op"
  kp_list_distinct_namespaces :: "string list store_op"

record namespace_repository =
  mp_create :: "create_namespace \<Rightarrow> namespace_row store_op"
  mp_find_by_id :: "string \<Rightarrow> namespace_row option store_op"
  mp_find_by_internal_id :: "uuid \<Rightarrow> namespace_row option store_op"
  mp_list :: "int \<Rightarrow> string option \<Rightarrow> (namespace_row, string) paginated_result store_op"
  mp_update :: "string \<Rightarrow> update_namespace \<Rightarrow> namespace_row store_op"
  mp_enable :: "string \<Rightarrow> bool store_op"
  mp_disable :: "string \<Rightarrow> bool store_op"
  mp_get_stats :: "string \<Rightarrow> namespace_stats store_op"
  mp_list_workflow_types :: "string \<Rightarrow> int \<Rightarrow> string option \<Rightarrow> (workflow_type_info, string) paginated_result store_op"
  mp_list_distinct_namespaces :: "string list store_op"
  mp_get_or_create :: "string \<Rightarrow> namespace_row store_op"

subsection \<open>The implementation\<close>

record pg_store =
  ps_config :: store_config

definition pg_workflows :: "pg_store \<Rightarrow> connection \<Rightarrow> workflow_repository" where
  "pg_workflows db cn = \<lparr>
     rp_create = wf_create (ps_config db) (cn_now cn),
     rp_find_by_id = wf_find_by_id,
     rp_find_active_by_external_id = wf_find_active_by_external_id,
     rp_list = wf_list,
     rp_count = wf_count,
     rp_check_exists = check_workflow_state,
     rp_check_status = check_workflow_state,
     rp_cancel = wf_cancel (cn_now cn),
     rp_complete = wf_complete (ps_config db) (cn_now cn),
     rp_fail = wf_fail (cn_now cn),
     rp_schedule_sleep = wf_schedule_sleep (cn_now cn),
     rp_schedule_retry = wf_schedule_retry (cn_now cn),
     rp_mark_exhausted = wf_mark_exhausted (cn_now cn),
     rp_mark_exhausted_with_increment = wf_mark_exhausted_with_increment (cn_now cn),
     rp_get_retry_policy = wf_get_retry_policy,
     rp_poll_workflow = wf_poll_workflow (cn_locked cn) (cn_now cn),
     rp_create_batch = wf_create_batch (ps_config db) (cn_now cn),
     rp_find_due_schedules = wf_find_due_schedules,
     rp_create_schedule_instance = wf_create_schedule_instance (cn_show_uuid cn) (cn_now cn) (cn_new_id cn),
     rp_update_next_fire = wf_update_next_fire,
     rp_update = wf_update,
     rp_delete = wf_delete,
     rp_get_namespace = wf_get_namespace,
     rp_extend_visibility = wf_extend_visibility (cn_now cn)\<rparr>"

definition pg_steps :: "pg_store \<Rightarrow> connection \<Rightarrow> step_repository" where
  "pg_steps db cn = \<lparr>
     sp_find_by_id = st_find_by_id,
     sp_list = st_list,
     sp_begin = st_begin (ps_config db) (cn_now cn) (cn_new_id cn),
     sp_complete = st_complete (ps_config db) (cn_now cn) (cn_new_id cn),
     sp_fail = st_fail (cn_backoff cn) (cn_now cn) (cn_new_id cn),
     sp_complete_pending_sleeps = st_complete_pending_sleeps (cn_now cn),
     sp_record_lifecycle_event = st_record_lifecycle_event (ps_config db) (cn_now cn) (cn_new_id cn)\<rparr>"

definition pg_workers :: "pg_store \<Rightarrow> connection \<Rightarrow> worker_repository" where
  "pg_workers db cn = \<lparr>
     kp_register = wk_register (cn_now cn) (cn_new_id cn),
     kp_heartbeat = wk_heartbeat (cn_now cn),
     kp_start_drain = wk_start_drain,
     kp_deregister = wk_deregister (cn_now cn),
     kp_find_by_id = wk_find_by_id,
     kp_list = wk_list,
     kp_mark_stale_offline = wk_mark_stale_offline (cn_now cn),
     kp_count_online = wk_count_online,
     kp_count = wk_count,
     kp_list_distinct_namespaces = wk_list_distinct_namespaces (cn_before cn)\<rparr>"

definition pg_namespaces :: "pg_store \<Rightarrow> connection \<Rightarrow> namespace_repository" where
  "pg_namespaces db cn = \<lparr>
     mp_create = np_create (cn_now cn) (cn_new_id cn),
     mp_find_by_id = np_find_by_id,
     mp_find_by_internal_id = np_find_by_internal_id,
     mp_list = np_list (cn_before cn),
     mp_update = np_update (cn_now cn),
     mp_enable = np_enable (cn_now cn),
     mp_disable = np_disable (cn_now cn),
     mp_get_stats = np_get_stats (cn_before cn),
     mp_list_workflow_types = np_list_workflow_types (cn_before cn),
     mp_list_distinct_namespaces = np_list_distinct_namespaces (cn_before cn),
     mp_get_or_create = np_get_or_create (cn_now cn) (cn_new_id cn)\<rparr>"

subsection \<open>What every method keeps\<close>

text \<open>A query leaves the database as it is, whatever it answers; any method keeps the constraints of the schema.\<close>

lemma queries_read:
  "keeps I (rp_find_by_id (pg_workflows db cn) i ns)"
  "keeps I (rp_find_active_by_external_id (pg_workflows db cn) ns ext)"
  "keeps I (rp_list (pg_workflows db cn) ps)"
  "keeps I (rp_count (pg_workflows db cn) ns st)"
  "keeps I (rp_check_exists (pg_workflows db cn) i ns)"
  "keeps I (rp_check_status (pg_workflows db cn) i ns)"
  "keeps I (rp_get_retry_policy (pg_workflows db cn) i)"
  "keeps I (rp_find_due_schedules (pg_workflows db cn) ns t n)"
  "keeps I (rp_get_namespace (pg_workflows db cn) i)"
  "keeps I (sp_find_by_id (pg_steps db cn) i)"
  "keeps I (sp_list (pg_steps db cn) sps)"
  "keeps I (kp_find_by_id (pg_workers db cn) i)"
  "keeps I (kp_list (pg_workers db cn) kps)"
  "keeps I (kp_count_online (pg_workers db cn) ns q)"
  "keeps I (kp_count (pg_workers db cn) ns qo kst)"
  "keeps I (kp_list_distinct_namespaces (pg_workers db cn))"
  "keeps I (mp_find_by_id (pg_namespaces db cn) ns)"
  "keeps I (mp_find_by_internal_id (pg_namespaces db cn) i)"
  "keeps I (mp_list (pg_namespaces db cn) m c)"
  "keeps I (mp_get_stats (pg_namespaces db cn) ns)"
  "keeps I (mp_list_workflow_types (pg_namespaces db cn) ns m c)"
  "keeps I (mp_list_distinct_namespaces (pg_namespaces db cn))"
  by (simp_all add: pg_workflows_def pg_steps_def pg_workers_def pg_namespaces_def keeps_rules)

subsection \<open>Sequences of calls\<close>

text \<open>
  One step is one call of a method that may write, by any connection. Unlike \<open>store_step\<close>, the relation has every
  method of the traits, also \<open>update\<close>, \<open>delete\<close> and \<open>update_next_fire\<close> on a row of any status, which the schedule
  service uses.
\<close>

inductive repository_step :: "pg_store \<Rightarrow> db \<Rightarrow> db \<Rightarrow> bool" for db :: pg_store where
  workflow_create: "repository_step db s (snd (rp_create (pg_workflows db cn) p s))"
| workflow_cancel: "repository_step db s (snd (rp_cancel (pg_workflows db cn) i ns s))"
| workflow_complete: "repository_step db s (snd (rp_complete (pg_workflows db cn) i out s))"
| workflow_fail: "repository_step db s (snd (rp_fail (pg_workflows db cn) i err s))"
| workflow_schedule_sleep: "repository_step db s (snd (rp_schedule_sleep (pg_workflows db cn) i n s))"
| workflow_schedule_retry: "repository_step db s (snd (rp_schedule_retry (pg_workflows db cn) i n s))"
| workflow_mark_exhausted: "repository_step db s (snd (rp_mark_exhausted (pg_workflows db cn) i err s))"
| workflow_mark_exhausted_with_increment: "repository_step db s (snd (rp_mark_exhausted_with_increment (pg_workflows db cn) i err s))"
| workflow_poll_workflow: "repository_step db s (snd (rp_poll_workflow (pg_workflows db cn) ns q w types vt s))"
| workflow_create_batch: "repository_step db s (snd (rp_create_batch (pg_workflows db cn) ps s))"
| workflow_create_schedule_instance: "repository_step db s (snd (rp_create_schedule_instance (pg_workflows db cn) i t s))"
| workflow_update_next_fire: "repository_step db s (snd (rp_update_next_fire (pg_workflows db cn) i t l s))"
| workflow_update: "repository_step db s (snd (rp_update (pg_workflows db cn) i w s))"
| workflow_delete: "repository_step db s (snd (rp_delete (pg_workflows db cn) i s))"
| workflow_extend_visibility: "repository_step db s (snd (rp_extend_visibility (pg_workflows db cn) w n s))"
| step_begin: "repository_step db s (snd (sp_begin (pg_steps db cn) bp s))"
| step_complete: "repository_step db s (snd (sp_complete (pg_steps db cn) i k out s))"
| step_fail: "repository_step db s (snd (sp_fail (pg_steps db cn) fp s))"
| step_complete_pending_sleeps: "repository_step db s (snd (sp_complete_pending_sleeps (pg_steps db cn) i s))"
| step_record_lifecycle_event: "repository_step db s (snd (sp_record_lifecycle_event (pg_steps db cn) i kind lout s))"
| worker_register: "repository_step db s (snd (kp_register (pg_workers db cn) kp s))"
| worker_heartbeat: "repository_step db s (snd (kp_heartbeat (pg_workers db cn) k s))"
| worker_start_drain: "repository_step db s (snd (kp_start_drain (pg_workers db cn) k ns s))"
| worker_deregister: "repository_step db s (snd (kp_deregister (pg_workers db cn) k ns s))"
| worker_mark_stale_offline: "repository_step db s (snd (kp_mark_stale_offline (pg_workers db cn) n s))"
| namespace_create: "repository_step db s (snd (mp_create (pg_namespaces db cn) cp s))"
| namespace_update: "repository_step db s (snd (mp_update (pg_namespaces db cn) ns up s))"
| namespace_enable: "repository_step db s (snd (mp_enable (pg_namespaces db cn) ns s))"
| namespace_disable: "repository_step db s (snd (mp_disable (pg_namespaces db cn) ns s))"
| namespace_get_or_create: "repository_step db s (snd (mp_get_or_create (pg_namespaces db cn) ns s))"

lemmas pg_methods = pg_workflows_def pg_steps_def pg_workers_def pg_namespaces_def

lemma repository_step_keeps:
  assumes "repository_step db s s'"
  shows "retains N W A s \<Longrightarrow> retains N W A s'" and "wf_db s \<Longrightarrow> wf_db s'"
proof -
  show "retains N W A s'" if "retains N W A s"
    using assms that
    by (cases rule: repository_step.cases)
      (simp_all only: pg_methods workflow_repository.simps step_repository.simps worker_repository.simps
        namespace_repository.simps, (rule keepsD [of "retains N W A"], rule keeps_rules, assumption)+)
  show "wf_db s'" if "wf_db s"
    using assms that
    by (cases rule: repository_step.cases)
      (simp_all only: pg_methods workflow_repository.simps step_repository.simps worker_repository.simps
        namespace_repository.simps, (rule keepsD [of wf_db], rule keeps_rules, assumption)+)
qed

text \<open>What an observer of two databases sees when nothing has been forgotten in between.\<close>

definition archives :: "db \<Rightarrow> db \<Rightarrow> bool" where
  "archives s s' \<longleftrightarrow> set (ns_names s) \<subseteq> set (ns_names s')
     \<and> set (map kr_worker_id (workers s)) \<subseteq> set (map kr_worker_id (workers s'))
     \<and> set (map sr_attempt_id (steps s)) \<subseteq> set (map sr_attempt_id (steps s'))"

lemma archives_retains:
  "archives s s' \<longleftrightarrow> retains (set (ns_names s)) (set (map kr_worker_id (workers s))) (set (map sr_attempt_id (steps s))) s'"
  by (simp add: archives_def retains_def)

lemma retains_itself: "retains (set (ns_names s)) (set (map kr_worker_id (workers s))) (set (map sr_attempt_id (steps s))) s"
  by (simp add: retains_def)

interpretation repositories: governed_steps "repository_step db" wf_db archives
proof
  show "wf_db s'" if "wf_db s" "repository_step db s s'" for s s'
    using repository_step_keeps(2) [OF that(2,1)] .
  show "archives s s'" if "repository_step db s s'" for s s'
    using repository_step_keeps(1) [OF that retains_itself] by (simp only: archives_retains)
  show "archives s s" for s by (simp add: archives_def)
  show "archives s s''" if "archives s s'" "archives s' s''" for s s' s''
    using that unfolding archives_def by blast
qed

subsection \<open>The calls of the server\<close>

text \<open>
  Each writing operation of the model is a method of a trait, called by a connection that has its arguments. An
  operation that keeps everything reachable by calls of traits is made of such calls.
\<close>

lemma trait_chain: "(\<And>s. repository_step db s (snd (m s))) \<Longrightarrow> keeps ((repository_step db)\<^sup>*\<^sup>* s0) m"
  by (auto simp: keeps_def intro: rtranclp.rtrancl_into_rtrancl)

lemma connection_with:
  "\<exists>cn :: connection. cn_now cn = now \<and> cn_new_id cn = new_id \<and> cn_locked cn = locked \<and> cn_show_uuid cn = su \<and> cn_backoff cn = bo"
  by (rule exI [of _ "\<lparr>cn_now = now, cn_new_id = new_id, cn_locked = locked, cn_show_uuid = su,
        cn_before = (\<lambda>_ _. False), cn_backoff = bo\<rparr>"]) simp

lemma trait_calls [keeps_rules]:
  "keeps ((repository_step db)\<^sup>*\<^sup>* s0) (wf_create (ps_config db) now p)"
  "keeps ((repository_step db)\<^sup>*\<^sup>* s0) (wf_cancel now i ns)"
  "keeps ((repository_step db)\<^sup>*\<^sup>* s0) (wf_complete (ps_config db) now i out)"
  "keeps ((repository_step db)\<^sup>*\<^sup>* s0) (wf_fail now i err)"
  "keeps ((repository_step db)\<^sup>*\<^sup>* s0) (wf_schedule_sleep now i n)"
  "keeps ((repository_step db)\<^sup>*\<^sup>* s0) (wf_schedule_retry now i n)"
  "keeps ((repository_step db)\<^sup>*\<^sup>* s0) (wf_mark_exhausted now i err)"
  "keeps ((repository_step db)\<^sup>*\<^sup>* s0) (wf_mark_exhausted_with_increment now i err)"
  "keeps ((repository_step db)\<^sup>*\<^sup>* s0) (wf_poll_workflow locked now ns q w types vt)"
  "keeps ((repository_step db)\<^sup>*\<^sup>* s0) (wf_create_batch (ps_config db) now ps)"
  "keeps ((repository_step db)\<^sup>*\<^sup>* s0) (wf_create_schedule_instance su now new_id i t)"
  "keeps ((repository_step db)\<^sup>*\<^sup>* s0) (wf_update_next_fire i t l)"
  "keeps ((repository_step db)\<^sup>*\<^sup>* s0) (wf_update i wr)"
  "keeps ((repository_step db)\<^sup>*\<^sup>* s0) (wf_delete i)"
  "keeps ((repository_step db)\<^sup>*\<^sup>* s0) (wf_extend_visibility now w n)"
  "keeps ((repository_step db)\<^sup>*\<^sup>* s0) (st_begin (ps_config db) now new_id bp)"
  "keeps ((repository_step db)\<^sup>*\<^sup>* s0) (st_complete (ps_config db) now new_id i k out)"
  "keeps ((repository_step db)\<^sup>*\<^sup>* s0) (st_fail bo now new_id fp)"
  "keeps ((repository_step db)\<^sup>*\<^sup>* s0) (st_complete_pending_sleeps now i)"
  "keeps ((repository_step db)\<^sup>*\<^sup>* s0) (st_record_lifecycle_event (ps_config db) now new_id i kind lout)"
  "keeps ((repository_step db)\<^sup>*\<^sup>* s0) (wk_register now new_id kp)"
  "keeps ((repository_step db)\<^sup>*\<^sup>* s0) (wk_heartbeat now k')"
  "keeps ((repository_step db)\<^sup>*\<^sup>* s0) (wk_start_drain k' ns)"
  "keeps ((repository_step db)\<^sup>*\<^sup>* s0) (wk_deregister now k' ns)"
  "keeps ((repository_step db)\<^sup>*\<^sup>* s0) (wk_mark_stale_offline now n)"
  "keeps ((repository_step db)\<^sup>*\<^sup>* s0) (np_create now new_id cp)"
  "keeps ((repository_step db)\<^sup>*\<^sup>* s0) (np_update now ns up)"
  "keeps ((repository_step db)\<^sup>*\<^sup>* s0) (np_enable now ns)"
  "keeps ((repository_step db)\<^sup>*\<^sup>* s0) (np_disable now ns)"
  "keeps ((repository_step db)\<^sup>*\<^sup>* s0) (np_get_or_create now new_id ns)"
proof -
  obtain cn :: connection where cn: "cn_now cn = now" "cn_new_id cn = new_id" "cn_locked cn = locked" "cn_show_uuid cn = su"
    "cn_backoff cn = bo"
    using connection_with by metis
  note trait = repository_step.intros [where cn = cn and db = db,
      unfolded pg_methods workflow_repository.simps step_repository.simps worker_repository.simps
        namespace_repository.simps cn]
  show "keeps ((repository_step db)\<^sup>*\<^sup>* s0) (wf_create (ps_config db) now p)"
    by (rule trait_chain) (rule trait)
  show "keeps ((repository_step db)\<^sup>*\<^sup>* s0) (wf_cancel now i ns)"
    by (rule trait_chain) (rule trait)
  show "keeps ((repository_step db)\<^sup>*\<^sup>* s0) (wf_complete (ps_config db) now i out)"
    by (rule trait_chain) (rule trait)
  show "keeps ((repository_step db)\<^sup>*\<^sup>* s0) (wf_fail now i err)"
    by (rule trait_chain) (rule trait)
  show "keeps ((repository_step db)\<^sup>*\<^sup>* s0) (wf_schedule_sleep now i n)"
    by (rule trait_chain) (rule trait)
  show "keeps ((repository_step db)\<^sup>*\<^sup>* s0) (wf_schedule_retry now i n)"
    by (rule trait_chain) (rule trait)
  show "keeps ((repository_step db)\<^sup>*\<^sup>* s0) (wf_mark_exhausted now i err)"
    by (rule trait_chain) (rule trait)
  show "keeps ((repository_step db)\<^sup>*\<^sup>* s0) (wf_mark_exhausted_with_increment now i err)"
    by (rule trait_chain) (rule trait)
  show "keeps ((repository_step db)\<^sup>*\<^sup>* s0) (wf_poll_workflow locked now ns q w types vt)"
    by (rule trait_chain) (rule trait)
  show "keeps ((repository_step db)\<^sup>*\<^sup>* s0) (wf_create_batch (ps_config db) now ps)"
    by (rule trait_chain) (rule trait)
  show "keeps ((repository_step db)\<^sup>*\<^sup>* s0) (wf_create_schedule_instance su now new_id i t)"
    by (rule trait_chain) (rule trait)
  show "keeps ((repository_step db)\<^sup>*\<^sup>* s0) (wf_update_next_fire i t l)"
    by (rule trait_chain) (rule trait)
  show "keeps ((repository_step db)\<^sup>*\<^sup>* s0) (wf_update i wr)"
    by (rule trait_chain) (rule trait)
  show "keeps ((repository_step db)\<^sup>*\<^sup>* s0) (wf_delete i)"
    by (rule trait_chain) (rule trait)
  show "keeps ((repository_step db)\<^sup>*\<^sup>* s0) (wf_extend_visibility now w n)"
    by (rule trait_chain) (rule trait)
  show "keeps ((repository_step db)\<^sup>*\<^sup>* s0) (st_begin (ps_config db) now new_id bp)"
    by (rule trait_chain) (rule trait)
  show "keeps ((repository_step db)\<^sup>*\<^sup>* s0) (st_complete (ps_config db) now new_id i k out)"
    by (rule trait_chain) (rule trait)
  show "keeps ((repository_step db)\<^sup>*\<^sup>* s0) (st_fail bo now new_id fp)"
    by (rule trait_chain) (rule trait)
  show "keeps ((repository_step db)\<^sup>*\<^sup>* s0) (st_complete_pending_sleeps now i)"
    by (rule trait_chain) (rule trait)
  show "keeps ((repository_step db)\<^sup>*\<^sup>* s0) (st_record_lifecycle_event (ps_config db) now new_id i kind lout)"
    by (rule trait_chain) (rule trait)
  show "keeps ((repository_step db)\<^sup>*\<^sup>* s0) (wk_register now new_id kp)"
    by (rule trait_chain) (rule trait)
  show "keeps ((repository_step db)\<^sup>*\<^sup>* s0) (wk_heartbeat now k')"
    by (rule trait_chain) (rule trait)
  show "keeps ((repository_step db)\<^sup>*\<^sup>* s0) (wk_start_drain k' ns)"
    by (rule trait_chain) (rule trait)
  show "keeps ((repository_step db)\<^sup>*\<^sup>* s0) (wk_deregister now k' ns)"
    by (rule trait_chain) (rule trait)
  show "keeps ((repository_step db)\<^sup>*\<^sup>* s0) (wk_mark_stale_offline now n)"
    by (rule trait_chain) (rule trait)
  show "keeps ((repository_step db)\<^sup>*\<^sup>* s0) (np_create now new_id cp)"
    by (rule trait_chain) (rule trait)
  show "keeps ((repository_step db)\<^sup>*\<^sup>* s0) (np_update now ns up)"
    by (rule trait_chain) (rule trait)
  show "keeps ((repository_step db)\<^sup>*\<^sup>* s0) (np_enable now ns)"
    by (rule trait_chain) (rule trait)
  show "keeps ((repository_step db)\<^sup>*\<^sup>* s0) (np_disable now ns)"
    by (rule trait_chain) (rule trait)
  show "keeps ((repository_step db)\<^sup>*\<^sup>* s0) (np_get_or_create now new_id ns)"
    by (rule trait_chain) (rule trait)
qed

end
