(* ===== verification/RequestSteps.thy ===== *)
theory RequestSteps
  imports Repositories ServerSteps ScheduleService
begin

text \<open>
  Every request that the server answers, also those that edit schedules, as a chain of calls of the traits. The rows
  of runs may then be anything that an editor of schedules makes of them, and what still holds is the contract of the
  store: the constraints of the schema, and its archive.
\<close>

subsection \<open>Requests are chains of calls of the traits\<close>

abbreviation by_traits :: "pg_store \<Rightarrow> db \<Rightarrow> db \<Rightarrow> bool" where
  "by_traits db \<equiv> (repository_step db)\<^sup>*\<^sup>*"

lemma trait_dispatch [keeps_rules]: "keeps (by_traits db s0) (dispatch E (ps_config db) t i c)"
  unfolding dispatch_def by (intro keeps_rules)

lemma trait_worker_requests:
  "keeps (by_traits db s0) (ws_register E ws now i rreq)"
  "keeps (by_traits db s0) (ws_heartbeat E ws t worker)"
  "keeps (by_traits db s0) (ws_deregister E now worker drain)"
  "keeps (by_traits db s0) (ws_begin_step E (ps_config db) t u breq)"
  "keeps (by_traits db s0) (ws_complete_step E (ps_config db) now i run step out)"
  "keeps (by_traits db s0) (ws_fail_step E t i run step err)"
  "keeps (by_traits db s0) (ws_complete_workflow E (ps_config db) t i run out)"
  "keeps (by_traits db s0) (ws_fail_workflow E (ps_config db) t i run err)"
  "keeps (by_traits db s0) (ws_sleep E now run d)"
  unfolding ws_register_def ws_heartbeat_def ws_deregister_def ws_begin_step_def ws_complete_step_def
    ws_fail_step_def ws_complete_workflow_def ws_fail_workflow_def ws_sleep_def Let_def
  by (intro keeps_rules)+

lemma trait_client_requests:
  "keeps (by_traits db s0) (wv_start_workflow E (ps_config db) t u sreq)"
  "keeps (by_traits db s0) (wv_cancel_workflow E (ps_config db) t i run ns)"
  "keeps (by_traits db s0) (wv_retry_workflow E (ps_config db) now i run ns)"
  "keeps (by_traits db s0) (wv_terminate_workflow E now run ns reason)"
  "keeps (by_traits db s0) (nv_create_namespace E now i nreq)"
  "keeps (by_traits db s0) (nv_update_namespace E now ns dn descr)"
  "keeps (by_traits db s0) (nv_enable_namespace E now ns)"
  "keeps (by_traits db s0) (nv_disable_namespace E now ns)"
  "keeps (by_traits db s0) (av_drain_worker E worker)"
  unfolding wv_start_workflow_def wv_cancel_workflow_def wv_retry_workflow_def wv_terminate_workflow_def
    nv_create_namespace_def nv_update_namespace_def nv_enable_namespace_def nv_disable_namespace_def
    av_drain_worker_def Let_def
  by (intro keeps_rules)+

lemma trait_templates [keeps_rules]:
  "keeps (by_traits db s0) (create_template E (ps_config db) now i f b n hreq)"
  "keeps (by_traits db s0) (replace_template E i f b n hreq)"
  unfolding create_template_def replace_template_def Let_def by (intro keeps_rules)+

lemma trait_schedule_requests:
  "keeps (by_traits db s0) (sv_create_workflow_schedule E parse (ps_config db) n t u hreq)"
  "keeps (by_traits db s0) (sv_update_workflow_schedule E parse t ureq)"
  "keeps (by_traits db s0) (sv_delete_workflow_schedule E run ns)"
  "keeps (by_traits db s0) (sv_trigger_workflow_schedule E (ps_config db) now i run ns)"
  "keeps (by_traits db s0) (sv_pause_workflow_schedule E run ns)"
  "keeps (by_traits db s0) (sv_resume_workflow_schedule E parse now run ns)"
  unfolding sv_create_workflow_schedule_def sv_update_workflow_schedule_def sv_delete_workflow_schedule_def
    sv_trigger_workflow_schedule_def sv_pause_workflow_schedule_def sv_resume_workflow_schedule_def Let_def
  by (intro keeps_rules)+

text \<open>Between the rounds of a long poll other connections make calls of their own.\<close>

lemma trait_poll_loop:
  "list_all (\<lambda>r. \<forall>s. by_traits db s (round_others r s)) rs
    \<Longrightarrow> keeps (by_traits db s0) (poll_loop E (ps_config db) ws t i ns q w types rs)"
  by (rule keeps_poll_loop_by) (auto simp: list_all_iff intro: keeps_rules rtranclp_trans)

lemma trait_poll_request:
  "list_all (\<lambda>r. \<forall>s. by_traits db s (round_others r s)) (r # rs)
    \<Longrightarrow> keeps (by_traits db s0) (ws_poll_task E (ps_config db) ws t i r rs preq)"
  unfolding ws_poll_task_def Let_def by (intro keeps_rules trait_poll_loop)

lemma trait_tick: "by_traits db s (snd (coordinator_tick su parse cs now t u allow wnow s))"
proof (rule tick_keeps_by)
  have "keeps (by_traits db s) (fire_all su parse now t u allow ws)" for ws
    by (intro keeps_fire_all_by keeps_rules)
  then show "by_traits db s (snd (fire_all su parse now t u allow ws s))" for ws
    by (rule keepsD) simp
qed (simp_all add: keeps_rules)

subsection \<open>One request\<close>

inductive request_step ::
  "env \<Rightarrow> (string \<Rightarrow> cron_schedule option) \<Rightarrow> pg_store \<Rightarrow> worker_settings \<Rightarrow> coordinator_settings
    \<Rightarrow> db \<Rightarrow> db \<Rightarrow> bool"
  for E :: env and parse :: "string \<Rightarrow> cron_schedule option" and db :: pg_store
    and ws :: worker_settings and cs :: coordinator_settings where
  register: "request_step E parse db ws cs s (snd (ws_register E ws now i rreq s))"
| heartbeat: "request_step E parse db ws cs s (snd (ws_heartbeat E ws t worker s))"
| deregister: "request_step E parse db ws cs s (snd (ws_deregister E now worker drain s))"
| poll: "list_all (\<lambda>r. \<forall>s. by_traits db s (round_others r s)) (r # rs)
    \<Longrightarrow> request_step E parse db ws cs s (snd (ws_poll_task E (ps_config db) ws t i r rs preq s))"
| begin_step: "request_step E parse db ws cs s (snd (ws_begin_step E (ps_config db) t u breq s))"
| complete_step: "request_step E parse db ws cs s (snd (ws_complete_step E (ps_config db) now i run step out s))"
| fail_step: "request_step E parse db ws cs s (snd (ws_fail_step E t i run step err s))"
| complete_workflow: "request_step E parse db ws cs s (snd (ws_complete_workflow E (ps_config db) t i run out s))"
| fail_workflow: "request_step E parse db ws cs s (snd (ws_fail_workflow E (ps_config db) t i run err s))"
| sleep: "request_step E parse db ws cs s (snd (ws_sleep E now run d s))"
| start: "request_step E parse db ws cs s (snd (wv_start_workflow E (ps_config db) t u sreq s))"
| cancel: "request_step E parse db ws cs s (snd (wv_cancel_workflow E (ps_config db) t i run ns s))"
| retry: "request_step E parse db ws cs s (snd (wv_retry_workflow E (ps_config db) now i run ns s))"
| terminate: "request_step E parse db ws cs s (snd (wv_terminate_workflow E now run ns reason s))"
| create_namespace: "request_step E parse db ws cs s (snd (nv_create_namespace E now i nreq s))"
| update_namespace: "request_step E parse db ws cs s (snd (nv_update_namespace E now ns dn descr s))"
| enable_namespace: "request_step E parse db ws cs s (snd (nv_enable_namespace E now ns s))"
| disable_namespace: "request_step E parse db ws cs s (snd (nv_disable_namespace E now ns s))"
| drain_worker: "request_step E parse db ws cs s (snd (av_drain_worker E worker s))"
| create_schedule: "request_step E parse db ws cs s
    (snd (sv_create_workflow_schedule E parse (ps_config db) n t u hreq s))"
| update_schedule: "request_step E parse db ws cs s (snd (sv_update_workflow_schedule E parse t ureq s))"
| delete_schedule: "request_step E parse db ws cs s (snd (sv_delete_workflow_schedule E run ns s))"
| trigger_schedule: "request_step E parse db ws cs s
    (snd (sv_trigger_workflow_schedule E (ps_config db) now i run ns s))"
| pause_schedule: "request_step E parse db ws cs s (snd (sv_pause_workflow_schedule E run ns s))"
| resume_schedule: "request_step E parse db ws cs s (snd (sv_resume_workflow_schedule E parse now run ns s))"
| tick: "request_step E parse db ws cs s
    (snd (coordinator_tick (show_uuid E) parse cs now t u allow wnow s))"
| call: "repository_step db s s' \<Longrightarrow> request_step E parse db ws cs s s'"

lemma request_is_calls:
  assumes "request_step E parse db ws cs s s'"
  shows "by_traits db s s'"
  using assms
proof (cases rule: request_step.cases)
  case tick
  then show ?thesis by (simp only: trait_tick)
next
  case call
  then show ?thesis by (rule r_into_rtranclp)
qed (simp_all only:, (rule keepsD [where I = "by_traits db s"], rule trait_worker_requests trait_client_requests
    trait_schedule_requests trait_poll_request, assumption?, rule rtranclp.rtrancl_refl)+)

lemma requests_are_calls: "(request_step E parse db ws cs)\<^sup>*\<^sup>* s s' \<Longrightarrow> by_traits db s s'"
  by (induction rule: rtranclp_induct) (auto dest: request_is_calls)

text \<open>C5: Whatever requests arrive, also those that create, edit, pause, resume or delete schedules, in whatever
  order, with whatever arguments and however their transactions interleave: every constraint of the schema keeps
  holding (in particular an external id has one active run, and a firing one instance), and no namespace, no worker
  and no attempt of a step is ever removed.\<close>

theorem schema_and_archive_survive:
  assumes "(request_step E parse db ws cs)\<^sup>*\<^sup>* s s'" and "wf_db s"
  shows "wf_db s' \<and> archives s s'"
  using repositories.run_both [OF requests_are_calls [OF assms(1)] assms(2)] .

lemma schema_and_archive_survive_witness:
  "wf_db (snd (sv_delete_workflow_schedule demo_env ''4'' ''default''
      (snd (sv_pause_workflow_schedule demo_env ''4'' ''default'' demo_db))))
   \<and> archives demo_db (snd (sv_delete_workflow_schedule demo_env ''4'' ''default''
      (snd (sv_pause_workflow_schedule demo_env ''4'' ''default'' demo_db))))"
proof (rule schema_and_archive_survive)
  let ?s = "snd (sv_pause_workflow_schedule demo_env ''4'' ''default'' demo_db)"
  show "(request_step demo_env demo_parse \<lparr>ps_config = demo_cfg\<rparr> default_worker_settings default_coordinator_settings)\<^sup>*\<^sup>*
      demo_db (snd (sv_delete_workflow_schedule demo_env ''4'' ''default'' ?s))"
    by (rule rtranclp.rtrancl_into_rtrancl [OF r_into_rtranclp]) (rule request_step.intros)+
  show "wf_db demo_db" by (rule demo_wf)
qed

end
