(* ===== verification/NamespaceCorrect.thy ===== *)
theory NamespaceCorrect
  imports ServerCorrect
begin

text \<open>
  What switching a namespace off does: \<open>nv_disable_namespace\<close> writes the column \<open>enabled\<close>, and nothing else of the
  server reads it.
\<close>

lemma disabled_row:
  assumes "find_namespace ns s = Some n"
  shows "find_namespace ns (snd (np_disable now ns s)) = Some (n\<lparr>nr_enabled := False, nr_updated_at := now\<rparr>)"
proof -
  let ?f = "\<lambda>r. r\<lparr>nr_enabled := False, nr_updated_at := now\<rparr>"
  have "List.find (\<lambda>r. nr_namespace r = ns) (sql_update (\<lambda>r. nr_namespace r = ns) ?f rs)
      = map_option ?f (List.find (\<lambda>r. nr_namespace r = ns) rs)" for rs
    by (induction rs) (auto simp: sql_update_def)
  from this [of "namespaces s"] assms show ?thesis
    by (simp add: find_namespace_def np_disable_def np_set_enabled_def)
qed

text \<open>The handler answers the namespace with the switch off, and changes that row alone.\<close>

lemma disable_exact:
  assumes "ns \<noteq> []" and "find_namespace ns s = Some n"
  shows "nv_disable_namespace E now ns s =
     (namespace_to_proto E (n\<lparr>nr_enabled := False, nr_updated_at := now\<rparr>), snd (np_disable now ns s))"
proof -
  have "fst (np_disable now ns s) = Inr (0 < sql_count (\<lambda>r. nr_namespace r = ns) (namespaces s))"
    by (simp add: np_disable_def np_set_enabled_def)
  then show ?thesis
    using assms(1) disabled_row [OF assms(2), of now]
    by (cases "np_disable now ns s")
      (simp add: nv_disable_namespace_def reread_namespace_def require_non_empty_def require_some_def
        np_find_by_id_def namespace_to_proto_def)
qed

lemma disable_keeps_tables:
  "runs (snd (np_disable now ns s)) = runs s" "payloads (snd (np_disable now ns s)) = payloads s"
  "ns_names (snd (np_disable now ns s)) = ns_names s"
  by (simp_all add: np_disable_def np_set_enabled_def sql_update_def)

text \<open>C40: A namespace that is switched off still starts workflows: after \<open>DisableNamespace\<close> has answered the
  namespace with \<open>enabled = false\<close>, a request to start a workflow in it is answered with a new run, and the run
  is added PENDING and due at once; the interface says that disabling a namespace prevents new workflows from
  starting.\<close>

theorem disabled_namespace_starts_workflows:
  assumes "wf_db s" and "find_namespace (sq_namespace req) s = Some n" and "u 1 \<notin> set (run_ids s)"
    and "sq_external_id req \<noteq> [] \<and> sq_task_queue req \<noteq> [] \<and> sq_workflow_type req \<noteq> [] \<and> sq_namespace req \<noteq> []"
    and "length (payload_to_bytes (sq_input req)) \<le> payload_max_size_bytes cfg"
    and "\<not> list_ex (\<lambda>r. is_active r \<and> active_key r = (sq_namespace req, sq_external_id req)) (runs s)"
    and "nv_disable_namespace E now (sq_namespace req) s = (Inr answer, s')"
  shows "\<not> pn_enabled answer
     \<and> find_namespace (sq_namespace req) s' = Some (n\<lparr>nr_enabled := False, nr_updated_at := now\<rparr>)
     \<and> (\<exists>s''. wv_start_workflow E cfg t u req s' = (Inr (show_uuid E (u 1), False), s'')
          \<and> runs s'' = runs s @ [new_run (t 1) (start_params (u 1) req)])"
proof -
  note off = disable_exact [OF _ assms(2), of E now] assms(4,7)
  have s': "s' = snd (np_disable now (sq_namespace req) s)" using off by simp
  have known: "sq_namespace req \<in> set (ns_names s)"
    using assms(2) by (auto simp: find_namespace_def find_Some_iff) (metis image_eqI nth_mem)
  have wf: "wf_db s'" unfolding s' by (rule keepsD [OF keeps_set_enabled(2) assms(1)])
  note same = disable_keeps_tables [of now "sq_namespace req" s, folded s']
  have "List.find (\<lambda>r. is_active r \<and> active_key r = (sq_namespace req, sq_external_id req)) (runs s') = None"
    using assms(6) by (simp add: same find_None_iff list_ex_iff)
  then have "wv_start_workflow E cfg t u req s' = (Inr (show_uuid E (u 1), False),
      s'\<lparr>runs := runs s' @ [new_run (t 1) (start_params (u 1) req)],
         payloads := payloads s' @ [\<lparr>pl_run_id = u 1, pl_input = payload_to_bytes (sq_input req), pl_output = None\<rparr>]\<rparr>)"
    using start_exact [OF wf, of req u cfg E t] known assms(3,4,5) by (simp add: same del: One_nat_def)
  moreover have "\<not> pn_enabled answer" using off by (auto simp: namespace_to_proto_def)
  moreover have "find_namespace (sq_namespace req) s' = Some (n\<lparr>nr_enabled := False, nr_updated_at := now\<rparr>)"
    unfolding s' by (rule disabled_row [OF assms(2)])
  ultimately show ?thesis by (simp add: same del: One_nat_def)
qed

definition fresh_start :: start_request where
  "fresh_start = demo_start\<lparr>sq_external_id := ''order-9''\<rparr>"

lemma disabled_namespace_starts_workflows_witness:
  "\<exists>answer s' s''. nv_disable_namespace demo_env 1500 ''default'' demo_db = (Inr answer, s')
     \<and> \<not> pn_enabled answer
     \<and> wv_start_workflow demo_env demo_cfg (\<lambda>k. 2000) (\<lambda>k. 70) fresh_start s'
         = (Inr (show_uuid demo_env 70, False), s'')
     \<and> runs s'' = runs demo_db @ [new_run 2000 (start_params 70 fresh_start)]"
proof -
  have ns: "sq_namespace fresh_start = ''default''" by code_simp
  have found: "find_namespace ''default'' demo_db = Some demo_ns" by code_simp
  then have off: "nv_disable_namespace demo_env 1500 (sq_namespace fresh_start) demo_db
      = (namespace_to_proto demo_env (demo_ns\<lparr>nr_enabled := False, nr_updated_at := 1500\<rparr>),
         snd (np_disable 1500 ''default'' demo_db))"
    unfolding ns by (intro disable_exact) simp_all
  then obtain answer where a: "nv_disable_namespace demo_env 1500 (sq_namespace fresh_start) demo_db
      = (Inr answer, snd (np_disable 1500 ''default'' demo_db))"
    by (simp add: namespace_to_proto_def)
  have "70 \<notin> set (run_ids demo_db)"
    and "sq_external_id fresh_start \<noteq> [] \<and> sq_task_queue fresh_start \<noteq> [] \<and> sq_workflow_type fresh_start \<noteq> []
       \<and> sq_namespace fresh_start \<noteq> []"
    and "length (payload_to_bytes (sq_input fresh_start)) \<le> payload_max_size_bytes demo_cfg"
    and "\<not> list_ex (\<lambda>r. is_active r \<and> active_key r = (sq_namespace fresh_start, sq_external_id fresh_start)) (runs demo_db)"
    and "find_namespace (sq_namespace fresh_start) demo_db = Some demo_ns"
    by code_simp+
  note here = this
  show ?thesis
    using disabled_namespace_starts_workflows [where t = "\<lambda>k. 2000" and u = "\<lambda>k. 70",
        OF demo_wf here(5) here(1) here(2,3,4) a] a ns by auto
qed

end
