(* ===== verification/SdkWorkflow.thy ===== *)
theory SdkWorkflow
  imports SdkDurable
begin

text \<open>
  The code of a workflow, as the SDK sees it: a function that runs steps and sleeps through its context and goes on
  with their results, and returns in the end. What a step or a sleep answers decides how the code goes on, and nothing
  else does; that is what the SDK asks of its users.
\<close>

subsection \<open>Code\<close>

datatype ('v, 's, 'r) workflow_code =
  Return "sdk_error + 'r"
| Step string "retry_conf option" "('s, sdk_error, 'v) op" "sdk_error + 'v \<Rightarrow> ('v, 's, 'r) workflow_code"
| Sleep string nat "sdk_error + unit \<Rightarrow> ('v, 's, 'r) workflow_code"

primrec execute ::
  "sdk_env \<Rightarrow> 's worker_client \<Rightarrow> sdk_context \<Rightarrow> 'v codec \<Rightarrow> ('v, 's, 'r) workflow_code \<Rightarrow> ('s, sdk_error, 'r) op"
where
  "execute X c cx J (Return r) = lift_op r"
| "execute X c cx J (Step name p f k) = match_op (sdk_step_run X c cx J name p f) (\<lambda>r. execute X c cx J (k r))"
| "execute X c cx J (Sleep name d k) = match_op (sleep_internal X c cx name d) (\<lambda>r. execute X c cx J (k r))"

text \<open>
  How far an execution has come: the names of the steps that have returned a value, each with its value, and of the
  sleeps that are over.
\<close>

type_synonym 'v progress = "(string \<times> 'v option) list"

inductive passes ::
  "sdk_env \<Rightarrow> 's worker_client \<Rightarrow> sdk_context \<Rightarrow> 'v codec \<Rightarrow> ('v, 's, 'r) workflow_code \<Rightarrow> 's \<Rightarrow> 'v progress \<Rightarrow> 's \<Rightarrow> bool"
  for X :: sdk_env and c :: "'s worker_client" and cx :: sdk_context and J :: "'v codec" where
  here: "passes X c cx J P s [] s"
| stepped: "sdk_step_run X c cx J name p f s = (Inr v, s1) \<Longrightarrow> passes X c cx J (k (Inr v)) s1 tr s2
    \<Longrightarrow> passes X c cx J (Step name p f k) s ((name, Some v) # tr) s2"
| slept: "sleep_internal X c cx name d s = (Inr (), s1) \<Longrightarrow> passes X c cx J (k (Inr ())) s1 tr s2
    \<Longrightarrow> passes X c cx J (Sleep name d k) s ((name, None) # tr) s2"

text \<open>What is left of a code that goes on along the same names and results; the closures play no part.\<close>

fun rest :: "'v progress \<Rightarrow> ('v, 's, 'r) workflow_code \<Rightarrow> ('v, 's, 'r) workflow_code option" where
  "rest [] Q = Some Q"
| "rest ((name, Some v) # tr) (Step name' p f k) = (if name = name' then rest tr (k (Inr v)) else None)"
| "rest ((name, None) # tr) (Sleep name' d k) = (if name = name' then rest tr (k (Inr ())) else None)"
| "rest (e # tr) Q = None"

primrec closures_all :: "(('s, sdk_error, 'v) op \<Rightarrow> bool) \<Rightarrow> ('v, 's, 'r) workflow_code \<Rightarrow> bool" where
  "closures_all C (Return r) \<longleftrightarrow> True"
| "closures_all C (Step name p f k) \<longleftrightarrow> C f \<and> (\<forall>r. closures_all C (k r))"
| "closures_all C (Sleep name d k) \<longleftrightarrow> (\<forall>r. closures_all C (k r))"

subsection \<open>The contract of a run\<close>

text \<open>
  For one run: the contract \<open>durable_step\<close> for every name, with \<open>memo\<close> as what is remembered under each; that calls and
  waiting never lose what is remembered and never open a closed run; that a sleep is passed when, and only when, it is remembered.
\<close>

locale durable_run =
  fixes c :: "'s worker_client" and cx :: sdk_context
    and inv :: "'s \<Rightarrow> bool" and live :: "'s \<Rightarrow> bool" and memo :: "string \<Rightarrow> 's \<Rightarrow> bytes option option"
    and same :: "'s \<Rightarrow> 's \<Rightarrow> bool"
  assumes step: "durable_step c cx name inv live (memo name) same"
    and begin_keeps: "inv s \<Longrightarrow> call_begin_step c (step_begin cx name p) s = (Inr resp, s')
      \<Longrightarrow> (live s' \<longrightarrow> live s) \<and> memo k s' = memo k s"
    and complete_keeps: "inv s \<Longrightarrow> call_complete_step c (cx_run_id cx) name (Some (sdk_payload out)) s = (r, s')
      \<Longrightarrow> (live s' \<longrightarrow> live s) \<and> (memo k s \<noteq> None \<longrightarrow> memo k s' = memo k s)"
    and wait_keeps: "inv s \<Longrightarrow> (live (wait_for c d s) \<longrightarrow> live s) \<and> memo k (wait_for c d s) = memo k s"
    and nap_passed: "inv s \<Longrightarrow> call_begin_step c (sleep_begin cx name) s = (Inr resp, s')
      \<Longrightarrow> \<not> ba_should_execute resp \<Longrightarrow> same s s' \<and> memo name s \<noteq> None"
    and nap_over: "inv s \<Longrightarrow> live s \<Longrightarrow> memo name s \<noteq> None
      \<Longrightarrow> \<exists>resp s'. call_begin_step c (sleep_begin cx name) s = (Inr resp, s') \<and> \<not> ba_should_execute resp \<and> same s s'"
    and same: "same s s' \<Longrightarrow> inv s \<Longrightarrow> inv s' \<and> (live s' \<longleftrightarrow> live s) \<and> memo k s' = memo k s"
begin

text \<open>What may not get lost: the invariant, that a closed run is closed, and what is remembered.\<close>

definition stays :: "bool \<Rightarrow> string \<Rightarrow> bytes option option \<Rightarrow> 's \<Rightarrow> bool" where
  "stays L k x s \<longleftrightarrow> inv s \<and> (live s \<longrightarrow> L) \<and> (x \<noteq> None \<longrightarrow> memo k s = x)"

definition tame :: "('s, sdk_error, 'v) op \<Rightarrow> bool" where
  "tame f \<longleftrightarrow> (\<forall>s. inv s \<longrightarrow> inv (snd (f s)) \<and> (live (snd (f s)) \<longrightarrow> live s) \<and> (\<forall>k. memo k (snd (f s)) = memo k s))"

lemma loop_keeps: "keeps (stays L k x) (complete_loop X c cx name out ds)"
proof -
  have call: "stays L k x s'" if "stays L k x s"
    and "call_complete_step c (cx_run_id cx) name (Some (sdk_payload out)) s = (r, s')" for s r s'
    using complete_keeps [OF _ that(2), of k] durable_step.complete [OF step _ that(2)] that(1) unfolding stays_def by metis
  have round: "keeps (stays L k x) (complete_round X c cx name out again)" if "\<And>e. keeps (stays L k x) (again e)" for again
    using call that
    by (auto simp: keeps_def complete_round_def match_op_def split: prod.splits sum.splits if_splits)
  show ?thesis
  proof (induction ds)
    case Nil
    show ?case unfolding complete_loop.simps by (intro round keeps_rules)
  next
    case (Cons d ds)
    have "stays L k x (wait_for c d s)" if "stays L k x s" for s
      using wait_keeps [of s d k] durable_step.wait [OF step, of s d] that by (auto simp: stays_def)
    then show ?case
      unfolding complete_loop.simps by (intro round) (use Cons in \<open>simp add: keeps_def\<close>)
  qed
qed

lemma step_stays:
  assumes "sdk_step_run X c cx J name p f s = (Inr v, s1)" and "stays L k x s" and "tame f"
  shows "stays L k x s1"
proof -
  obtain r resp s0 where b: "call_begin_step c (step_begin cx name r) s = (Inr resp, s0)"
    and rest: "s0 = s1
      \<or> (\<exists>w out. f s0 = (Inr v, w) \<and> complete_loop X c cx (step_id_or name resp) out (complete_delays X) w = (Inr (), s1))"
    using assms(1) unfolding sdk_step_run_success by metis
  have inv: "inv s" using assms(2) by (simp add: stays_def)
  have s0: "stays L k x s0"
    using assms(2) begin_keeps [OF inv b, of k] durable_step.begin_Inr [OF step inv b] by (auto simp: stays_def)
  from rest show ?thesis
  proof (elim disjE exE conjE)
    fix w out assume w: "f s0 = (Inr v, w)"
      and loop: "complete_loop X c cx (step_id_or name resp) out (complete_delays X) w = (Inr (), s1)"
    have "stays L k x w" using s0 assms(3) w by (auto simp: stays_def tame_def dest!: spec [of _ s0])
    then show ?thesis using keeps_run [OF loop_keeps _ loop] by blast
  qed (use s0 in simp)
qed

lemma sleep_success:
  "sleep_internal X c cx name d s = (Inr (), s1) \<longleftrightarrow>
    (\<exists>resp. call_begin_step c (sleep_begin cx name) s = (Inr resp, s1) \<and> \<not> ba_should_execute resp)"
  unfolding sleep_internal_def kagzi_call_def by (auto simp: success split: if_splits)

lemma sleep_stays:
  assumes "sleep_internal X c cx name d s = (Inr (), s1)" and "stays L k x s"
  shows "stays L k x s1"
proof -
  have "same s s1" using assms nap_passed unfolding sleep_success stays_def by blast
  then show ?thesis using same [of s s1 k] assms(2) by (auto simp: stays_def)
qed

text \<open>What is remembered of the progress of an execution.\<close>

definition remembered :: "'v codec \<Rightarrow> 'v progress \<Rightarrow> 's \<Rightarrow> bool" where
  "remembered J tr s \<longleftrightarrow> (\<forall>(k, x) \<in> set tr. \<exists>o1. memo k s = Some o1
     \<and> (case x of None \<Rightarrow> True | Some v \<Rightarrow> from_slice J (p_data (bytes_to_payload o1)) = Inr v))"

lemma passes_stays:
  assumes "passes X c cx J P s tr s1" and "closures_all tame P" and "stays L k x s"
  shows "stays L k x s1"
  using assms
proof (induction rule: passes.induct)
  case (stepped name p f s v s1 k' tr s2)
  then show ?case using step_stays [OF stepped.hyps(1)] by simp
next
  case (slept name d s s1 k' tr s2)
  then show ?case using sleep_stays [OF slept.hyps(1)] by simp
qed

lemma progress_is_remembered:
  assumes "passes X c cx J P s tr s1" and "closures_all tame P" and "inv s" and "live s1"
    and "\<And>v b. to_vec J v = Inr b \<Longrightarrow> from_slice J b = Inr v"
  shows "remembered J tr s1"
  using assms(1-4)
proof (induction rule: passes.induct)
  case here
  show ?case by (simp add: remembered_def)
next
  case (stepped name p f s v s1 k tr s2)
  have later: "stays L n x s2" if "stays L n x s1" for L n x
    using passes_stays [OF stepped.hyps(2) _ that] stepped.prems(1) by simp
  have "stays (live s) name None s" using stepped.prems(2) by (simp add: stays_def)
  from step_stays [OF stepped.hyps(1) this] have i: "inv s1" using stepped.prems(1) by (simp add: stays_def)
  have l: "live s1" using later [of "live s1" name None] stepped.prems(3) i by (simp add: stays_def)
  have f: "inv w \<Longrightarrow> inv (snd (f w)) \<and> memo name (snd (f w)) = memo name w" for w
    using stepped.prems(1) by (simp add: tame_def)
  obtain o1 where "memo name s1 = Some o1" "from_slice J (p_data (bytes_to_payload o1)) = Inr v"
    using durable_step.result_is_known [OF step stepped.hyps(1) stepped.prems(2) l f assms(5)] by metis
  moreover from this have "memo name s2 = Some o1"
    using later [of "live s1" name "Some o1"] i by (simp add: stays_def)
  ultimately show ?case using stepped.IH stepped.prems i by (simp add: remembered_def)
next
  case (slept name d s s1 k tr s2)
  obtain o1 where o1: "memo name s = Some o1"
    using slept.hyps(1) nap_passed [OF slept.prems(2)] unfolding sleep_success by blast
  have "stays True name (Some o1) s1"
    using slept.prems(2) o1 by (intro sleep_stays [OF slept.hyps(1)]) (simp add: stays_def)
  moreover from this have "stays True name (Some o1) s2"
    using passes_stays [OF slept.hyps(2)] slept.prems(1) by simp
  ultimately show ?case using slept.IH slept.prems by (simp add: remembered_def stays_def)
qed

text \<open>
  The code resumes where it was: whatever is remembered is passed through, up to the rest of the code, and the state
  has only seen calls that change nothing.
\<close>

lemma resumes:
  assumes "rest tr Q = Some Q'" and "inv s" and "live s" and "remembered J tr s"
  shows "\<exists>s'. execute X c cx J Q s = execute X c cx J Q' s' \<and> (same ^^ length tr) s s'"
  using assms
proof (induction tr Q arbitrary: s rule: rest.induct)
  case (2 name v tr name' p f k)
  have tr: "name' = name" "rest tr (k (Inr v)) = Some Q'"
    using "2.prems"(1) by (simp_all split: if_splits)
  obtain o1 where o1: "memo name s = Some o1" "from_slice J (p_data (bytes_to_payload o1)) = Inr v"
    using "2.prems"(4) by (auto simp: remembered_def)
  obtain s' where s': "sdk_step_run X c cx J name p f s = (Inr v, s')" "same s s'"
    using durable_step.known_is_replayed [OF step "2.prems"(2,3) o1] by metis
  note eq = same [OF s'(2) "2.prems"(2)]
  have "remembered J tr s'" using "2.prems"(4) eq by (simp add: remembered_def)
  then obtain s'' where "execute X c cx J (k (Inr v)) s' = execute X c cx J Q' s''" "(same ^^ length tr) s' s''"
    using "2.IH" [OF tr(1) [symmetric], of s'] tr(2) eq "2.prems"(3) by blast
  moreover have "execute X c cx J (Step name p f k) s = execute X c cx J (k (Inr v)) s'"
    by (simp add: match_op_def s'(1))
  moreover have "(same ^^ Suc (length tr)) s s''" using s'(2) calculation(2) by (rule relpowp_Suc_I2)
  ultimately show ?case using tr(1) by (intro exI [of _ s'']) simp
next
  case (3 name tr name' d k)
  have tr: "name' = name" "rest tr (k (Inr ())) = Some Q'"
    using "3.prems"(1) by (simp_all split: if_splits)
  have known: "memo name s \<noteq> None" using "3.prems"(4) by (auto simp: remembered_def)
  obtain s' where s': "sleep_internal X c cx name d s = (Inr (), s')" "same s s'"
    using nap_over [OF "3.prems"(2,3) known] sleep_success by metis
  note eq = same [OF s'(2) "3.prems"(2)]
  have "remembered J tr s'" using "3.prems"(4) eq by (simp add: remembered_def)
  then obtain s'' where "execute X c cx J (k (Inr ())) s' = execute X c cx J Q' s''" "(same ^^ length tr) s' s''"
    using "3.IH" [OF tr(1) [symmetric], of s'] tr(2) eq "3.prems"(3) by blast
  moreover have "execute X c cx J (Sleep name d k) s = execute X c cx J (k (Inr ())) s'"
    by (simp add: match_op_def s'(1))
  moreover have "(same ^^ Suc (length tr)) s s''" using s'(2) calculation(2) by (rule relpowp_Suc_I2)
  ultimately show ?case using tr(1) by (intro exI [of _ s'']) simp
qed simp_all

end

end
