(* ===== verification/WorkflowResumes.thy ===== *)
theory WorkflowResumes
  imports SdkCorrect SdkWorkflow
begin

text \<open>
  The promise of the engine: a workflow that is executed again, after a crash, a retry or a sleep, resumes where it
  was. The contract \<open>durable_run\<close> holds of the modelled server, and with it what the SDK makes of it.
\<close>

subsection \<open>What the requests leave alone\<close>

lemma begin_same_runs: "keeps (\<lambda>s. runs s = R) (ws_begin_step E cfg t u req)"
  unfolding ws_begin_step_def wf_get_retry_policy_def by (intro keeps_rules same_runs_steps)

lemma complete_same_runs: "keeps (\<lambda>s. runs s = R) (ws_complete_step E cfg now i run k out)"
  unfolding ws_complete_step_def st_list_def by (intro keeps_rules same_runs_steps)

lemma same_runs_open: "runs s' = runs s \<Longrightarrow> open_run i s' = open_run i s"
  by (simp add: open_run_def)

subsection \<open>Sleeps\<close>

lemma nap_begin_passed:
  assumes "wf_db s" and "parse_uuid_str E (cx_run_id cx) = Some i"
    and "ws_begin_step E cfg t u (sleep_begin cx name) s = (Inr resp, s')" and "\<not> ba_should_execute resp"
  shows "s' = s \<and> step_known (i, name) s \<noteq> None"
proof -
  have read: "z = s" if "validate_workflow_action i False s = (r, z)" for r z
    using validate_reads [of i False s] that by simp
  obtain p b s1 where b: "st_begin cfg (t 0) (u 0) p s = (Inr b, s1)" "bs_run_id p = i" "bs_step_id p = name"
    "\<not> br_should_execute b" and e: "st_complete cfg (t 1) (u 1) i name [] s1 = (Inr (), s')"
    using assms(2-4) unfolding ws_begin_step_def sleep_begin_def map_proto_step_kind_def proto_step_kind_of_def
      wf_get_retry_policy_def
    by (auto simp: success dest!: read)
  have known: "step_known (i, name) s = Some (br_cached_output b)"
    using begin_result(1) [OF assms(1) b(1)] b(2-4) by simp
  have "validate_optional cfg (bs_input p) ''Step input'' = Inr ()"
    using b(1) by (cases "validate_optional cfg (bs_input p) ''Step input''")
      (auto simp: st_begin_def transact_def bind_op_def)
  then have "s1 = s" using begin_known [of cfg p s "br_cached_output b" "t 0" "u 0"] b(1-3) known by simp
  then show ?thesis using e known known_completed [OF assms(1), of i name cfg "t 1" "u 1"] by simp
qed

subsection \<open>The server keeps the contract of a run\<close>

text \<open>Code that keeps the constraints, does not open a finished run, and leaves what is known of its steps.\<close>

definition leaves_run :: "uuid \<Rightarrow> (db \<Rightarrow> db) \<Rightarrow> bool" where
  "leaves_run i g \<longleftrightarrow> (\<forall>s. wf_db s \<longrightarrow> wf_db (g s) \<and> (open_run i (g s) \<longrightarrow> open_run i s)
     \<and> (\<forall>k. step_known (i, k) (g s) = step_known (i, k) s))"

definition run_inv :: "env \<Rightarrow> sdk_context \<Rightarrow> uuid \<Rightarrow> (nat \<Rightarrow> db \<Rightarrow> db) \<Rightarrow> db \<times> nat \<Rightarrow> bool" where
  "run_inv E cx i others w \<longleftrightarrow> wf_db (fst w) \<and> parse_uuid_str E (cx_run_id cx) = Some i
     \<and> (\<forall>d. leaves_run i (others d))"

lemma inv_of_run: "run_inv E cx i others w \<Longrightarrow> step_inv E cx i name others w"
  by (simp add: run_inv_def step_inv_def leaves_run_def undisturbed_def)

lemma run_of_inv: "run_inv E cx i others w \<Longrightarrow> step_inv E cx i name others w' \<Longrightarrow> run_inv E cx i others w'"
  by (simp add: run_inv_def step_inv_def)

lemma durable_steps: "durable_step (server_client E enc cfg t u others) cx name (run_inv E cx i others)
  (\<lambda>w. open_run i (fst w)) (\<lambda>w. step_known (i, name) (fst w)) (\<lambda>w w'. w' = (fst w, snd w + 2))"
proof (unfold_locales, goal_cases)
  case (1 w p resp w')
  note b = served.begin_Inr [OF inv_of_run [OF 1(1)] 1(2)]
  show ?case using run_of_inv [OF 1(1) conjunct1 [OF b]] conjunct2 [OF b] by (intro conjI) simp_all
next
  case (2 w v p)
  then show ?case using served.begin_hit [OF inv_of_run [OF 2(1)] 2(2,3)] by blast
next
  case (3 w out r w')
  then show ?case using served.complete [OF inv_of_run [OF 3(1)] 3(2)] run_of_inv [OF 3(1)] by blast
next
  case (4 w d)
  then show ?case using served.wait [OF inv_of_run [OF 4(1)]] run_of_inv [OF 4(1)] by blast
qed

interpretation served_run: durable_run "server_client E enc cfg t u others" cx "run_inv E cx i others"
  "\<lambda>w. open_run i (fst w)" "\<lambda>k w. step_known (i, k) (fst w)" "\<lambda>w w'. w' = (fst w, snd w + 2)"
proof (rule durable_run.intro, goal_cases)
  case (1 name)
  show ?case by (rule durable_steps)
next
  case (2 w name p resp w' k)
  obtain s n where w: "w = (s, n)" by (cases w)
  obtain s' where b: "ws_begin_step E cfg (\<lambda>k. t (n + k)) (\<lambda>k. u (n + k)) (step_begin cx name p) s = (Inr resp, s')"
    and w': "w' = (s', n + 2)"
    using 2(2) that by (simp add: w success) blast
  have "wf_db s" "parse_uuid_str E (cx_run_id cx) = Some i" using 2(1) by (simp_all add: run_inv_def w)
  note known = begin_step_Inr(5) [OF this(1) b, of i "(i, k)", unfolded step_begin_def, simplified, OF this(2)]
  show ?case using known same_runs_open [OF keeps_run [OF begin_same_runs refl b]] by (simp add: w w')
next
  case (3 w name out r w' k)
  obtain s n where w: "w = (s, n)" by (cases w)
  obtain r0 s' where c: "ws_complete_step E cfg (t n) (u n) (cx_run_id cx) name (Some (sdk_payload out)) s = (r0, s')"
    by force
  have w': "w' = (s', n + 2)" using 3(2) c by (simp add: w served_def)
  have i: "wf_db s" "parse_uuid_str E (cx_run_id cx) = Some i" using 3(1) by (simp_all add: run_inv_def w)
  have "runs s' = runs s" using keepsD [OF complete_same_runs, of s "runs s"] c by (metis snd_conv)
  moreover have "step_known (i, k) s' = step_known (i, k) s" if some: "step_known (i, k) s \<noteq> None"
    using complete_step_effect(1) [OF i c]
  proof
    assume c2: "st_complete cfg (t n) (u n) i name (payload_to_bytes (Some (sdk_payload out))) s = (Inr (), s')"
    show ?thesis
    proof (cases "k = name")
      case True
      obtain v where v: "step_known (i, k) s = Some v" using some by blast
      then show ?thesis using complete_result(1) [OF i(1) c2] True by simp
    next
      case False
      then show ?thesis by (intro complete_result(3) [OF i(1) c2]) simp
    qed
  qed simp
  ultimately show ?case using same_runs_open [of s' s i] by (simp add: w w')
next
  case (4 w d k)
  then show ?case by (cases w) (simp add: run_inv_def leaves_run_def)
next
  case (5 w name resp w')
  obtain s n where w: "w = (s, n)" by (cases w)
  obtain s' where b: "ws_begin_step E cfg (\<lambda>k. t (n + k)) (\<lambda>k. u (n + k)) (sleep_begin cx name) s = (Inr resp, s')"
    and w': "w' = (s', n + 2)"
    using 5(2) that by (simp add: w success) blast
  show ?case using nap_begin_passed [OF _ _ b 5(3)] 5(1) by (simp add: run_inv_def w w')
next
  case (6 w name)
  then obtain v where v: "step_known (i, name) (fst w) = Some v" by blast
  show ?case
    using nap_begin_known [OF _ _ 6(2) v, of E cx cfg] 6(1) by (cases w) (simp add: run_inv_def)
next
  case (7 w w' k)
  then show ?case by (simp add: run_inv_def)
qed

subsection \<open>Workflows resume\<close>

lemma closures_all_mono: "closures_all C P \<Longrightarrow> (\<And>f. C f \<Longrightarrow> D f) \<Longrightarrow> closures_all D P"
  by (induction P) auto

lemma same_calls: "((\<lambda>w w'. w' = (fst w, snd w + 2)) ^^ k) w w' \<Longrightarrow> w' = (fst w, snd w + 2 * k)" for w :: "'a \<times> nat"
proof (induction k arbitrary: w')
  case (Suc k)
  then obtain z where z: "((\<lambda>w w'. w' = (fst w, snd w + 2)) ^^ k) w z" "w' = (fst z, snd z + 2)" by auto
  show ?case using Suc.IH [OF z(1)] z(2) by simp
qed simp

text \<open>The closures of a workflow may do what they like, but to the steps of their own run.\<close>

definition minds_run :: "uuid \<Rightarrow> (db \<times> nat, sdk_error, 'v) op \<Rightarrow> bool" where
  "minds_run i f \<longleftrightarrow> (\<forall>m. leaves_run i (\<lambda>s. fst (snd (f (s, m)))))"

lemma minds_run_tame: "minds_run i f \<Longrightarrow> served_run.tame E cx i others f"
  unfolding served_run.tame_def minds_run_def leaves_run_def run_inv_def by (metis prod.collapse)


text \<open>A workflow charges a card; in its next version it writes a mail, too.\<close>

definition charge_code :: "(bytes, db \<times> nat, unit) workflow_code" where
  "charge_code = Step ''charge'' None (\<lambda>w. (Inr [7], w)) (\<lambda>_. Return (Inr ()))"

definition mail_code :: "(bytes, db \<times> nat, unit) workflow_code" where
  "mail_code = Step ''mail'' None (\<lambda>w. (Inr [8], w)) (\<lambda>_. Return (Inr ()))"

definition charge_and_mail :: "(bytes, db \<times> nat, unit) workflow_code" where
  "charge_and_mail = Step ''charge'' None (\<lambda>w. (Inl SePaused, (demo_db, 0)))
     (\<lambda>r. case r of Inl e \<Rightarrow> Return (Inl e) | Inr v \<Rightarrow> mail_code)"

text \<open>Meanwhile a worker dies: it begins the next step, and the watchdog takes it offline.\<close>

definition crashed :: "db \<Rightarrow> db" where
  "crashed s = snd (wk_mark_stale_offline 9000 30 (snd (st_begin demo_cfg 3000 90
     \<lparr>bs_run_id = 2, bs_step_id = ''mail'', bs_step_kind = SkFunction, bs_input = None, bs_retry_policy = None\<rparr> s)))"


end
